theory Spec2Isabelle
  imports Complex_Main
begin

section \<open>The Brewin interpreter (interpreterv4.py): data model\<close>

subsection \<open>Declared types\<close>

text \<open>
  The enumeration \<^verbatim>\<open>Type\<close> of the source; \<open>T_INT\<close> is \<^verbatim>\<open>Type.INT\<close>, and so on.
\<close>

datatype Type = T_INT | T_STRING | T_BOOL | T_OBJECT | T_VOID | T_FUNCTION | T_ERROR

text \<open>
  \<^verbatim>\<open>str.isupper()\<close> on one character. Identifiers are ASCII, and a \<^typ>\<open>char\<close> is a
  byte, so the upper-case letters are \<open>A\<close> to \<open>Z\<close>.
\<close>

definition isupper :: "char \<Rightarrow> bool" where
  "isupper c = ((65::nat) \<le> of_char c \<and> of_char c \<le> (90::nat))"

text \<open>\<^verbatim>\<open>Type.get_type\<close>: the declared type is read off the last letter of a name.\<close>

definition get_type :: "string \<Rightarrow> Type" where
  "get_type var_name =
     (if var_name = [] then T_ERROR
      else (let last_letter = last var_name in
        (if last_letter = CHR ''i'' then T_INT
         else if last_letter = CHR ''s'' then T_STRING
         else if last_letter = CHR ''b'' then T_BOOL
         else if last_letter = CHR ''o'' then T_OBJECT
         else if last_letter = CHR ''v'' then T_VOID
         else if last_letter = CHR ''f'' then T_FUNCTION
         else if isupper last_letter then T_OBJECT
         else T_ERROR)))"

subsection \<open>Values\<close>

text \<open>
  A \<^verbatim>\<open>Value\<close> of the source is a mutable wrapper with two attributes, \<^verbatim>\<open>t\<close> and
  \<^verbatim>\<open>v\<close>. The wrappers live in a store and are named by their address; what a wrapper
  holds is a tag and a payload. A payload is \<^verbatim>\<open>None\<close>, a Python int, str or bool, a
  reference to a dict of fields (an object), or a reference to a \<^verbatim>\<open>Function\<close> or
  \<^verbatim>\<open>Lambda\<close> instance. Python's \<^verbatim>\<open>is\<close> on two dicts or two function objects is
  equality of the references.
\<close>

type_synonym addr = nat

datatype payload = PyNone | PInt int | PStr string | PBool bool | PDict nat | PFunc nat

datatype Value = Value (t_of: Type) (v_of: payload)

text \<open>
  The three error kinds of \<^verbatim>\<open>ErrorType\<close> that \<^verbatim>\<open>InterpreterBase.error\<close> reports, and
  the Python exceptions the interpreter itself can raise and never catches.
\<close>

datatype ErrorType = NAME_ERROR | TYPE_ERROR | FAULT_ERROR

datatype py_exception =
  PyTypeError | PyAttributeError | PyIndexError | PyKeyError | PyValueError
  | PyZeroDivisionError | PyException

datatype failure = Error ErrorType | Uncaught py_exception

text \<open>\<^verbatim>\<open>Value.__default_value_for_type\<close>; \<open>None\<close> is the \<^verbatim>\<open>raise Exception\<close> at its end.\<close>

definition default_value_for_type :: "Type \<Rightarrow> payload option" where
  "default_value_for_type ty =
     (if ty = T_INT then Some (PInt 0)
      else if ty = T_STRING then Some (PStr [])
      else if ty = T_BOOL then Some (PBool False)
      else if ty = T_OBJECT then Some PyNone
      else if ty = T_FUNCTION then Some PyNone
      else if ty = T_VOID then Some PyNone
      else None)"

text \<open>
  \<^verbatim>\<open>Value.__init__(t, v)\<close>: a payload of \<^verbatim>\<open>None\<close> is replaced by the default of the
  tag. The result is what the new wrapper holds.
\<close>

definition init_Value :: "Type \<Rightarrow> payload \<Rightarrow> failure + Value" where
  "init_Value ty pv =
     (if pv = PyNone then
        (case default_value_for_type ty of
           None \<Rightarrow> Inl (Uncaught PyException)
         | Some d \<Rightarrow> Inr (Value ty d))
      else Inr (Value ty pv))"

subsection \<open>Binary operators\<close>

text \<open>
  \<^verbatim>\<open>Interpreter.__eval_binary_op\<close>, on what the two operand wrappers hold. It only reads
  the operands and builds a new wrapper, whose content is returned here. \<^verbatim>\<open>//\<close> is
  Python's floor division, which raises ZeroDivisionError on a zero divisor; \<open>div\<close> on
  \<^typ>\<open>int\<close> rounds the same way. The final comparison \<^verbatim>\<open>vl_val == vr_val\<close> is only
  reached with equal tags.
\<close>

definition eval_binary_op :: "string \<Rightarrow> Value \<Rightarrow> Value \<Rightarrow> failure + Value" where
  "eval_binary_op kind vl vr =
    (let tl = t_of vl; tr = t_of vr; vl_val = v_of vl; vr_val = v_of vr in
     (if kind = ''=='' then
       (if vl_val = PyNone \<and> vr_val = PyNone then Inr (Value T_BOOL (PBool True))
        else if tl = T_OBJECT \<and> tr = T_OBJECT then Inr (Value T_BOOL (PBool (tl = tr \<and> vl_val = vr_val)))
        else if tl = T_FUNCTION \<and> tr = T_FUNCTION then Inr (Value T_BOOL (PBool (tl = tr \<and> vl_val = vr_val)))
        else if tl = T_FUNCTION \<and> tr = T_OBJECT then Inr (Value T_BOOL (PBool False))
        else Inr (Value T_BOOL (PBool (tl = tr \<and> vl_val = vr_val))))
     else if kind = ''!='' then
       (if vl_val = PyNone \<and> vr_val = PyNone then Inr (Value T_BOOL (PBool False))
        else if tl = T_OBJECT \<and> tr = T_OBJECT then Inr (Value T_BOOL (PBool (\<not> (tl = tr \<and> vl_val = vr_val))))
        else if tl = T_FUNCTION \<and> tr = T_FUNCTION then Inr (Value T_BOOL (PBool (\<not> (tl = tr \<and> vl_val = vr_val))))
        else if tl = T_FUNCTION \<and> tr = T_OBJECT then Inr (Value T_BOOL (PBool True))
        else Inr (Value T_BOOL (PBool (\<not> (tl = tr \<and> vl_val = vr_val)))))
     else
       (case (tl, tr, vl_val, vr_val) of
          (T_STRING, T_STRING, PStr a, PStr b) \<Rightarrow>
            (if kind = ''+'' then Inr (Value T_STRING (PStr (a @ b)))
             else Inl (Error TYPE_ERROR))
        | (T_INT, T_INT, PInt a, PInt b) \<Rightarrow>
            (if kind = ''+'' then Inr (Value T_INT (PInt (a + b)))
             else if kind = ''-'' then Inr (Value T_INT (PInt (a - b)))
             else if kind = ''*'' then Inr (Value T_INT (PInt (a * b)))
             else if kind = ''/'' then
               (if b = 0 then Inl (Uncaught PyZeroDivisionError)
                else Inr (Value T_INT (PInt (a div b))))
             else if kind = ''<'' then Inr (Value T_BOOL (PBool (a < b)))
             else if kind = ''<='' then Inr (Value T_BOOL (PBool (a \<le> b)))
             else if kind = ''>'' then Inr (Value T_BOOL (PBool (a > b)))
             else if kind = ''>='' then Inr (Value T_BOOL (PBool (a \<ge> b)))
             else Inl (Error TYPE_ERROR))
        | (T_BOOL, T_BOOL, PBool a, PBool b) \<Rightarrow>
            (if kind = ''&&'' then Inr (Value T_BOOL (PBool (a \<and> b)))
             else if kind = ''||'' then Inr (Value T_BOOL (PBool (a \<or> b)))
             else Inl (Error TYPE_ERROR))
        | _ \<Rightarrow> Inl (Error TYPE_ERROR))))"

subsection \<open>Dictionaries\<close>

text \<open>
  A Python dict keeps its keys in insertion order and has each key once: an association
  list with distinct keys. \<open>dict_set\<close> is \<^verbatim>\<open>d[k] = x\<close>: an existing key keeps its
  place and gets the new value, a new key goes to the end.
\<close>

definition dict_in :: "'k \<Rightarrow> ('k \<times> 'v) list \<Rightarrow> bool" where
  "dict_in k d = (map_of d k \<noteq> None)"

fun dict_set :: "'k \<Rightarrow> 'v \<Rightarrow> ('k \<times> 'v) list \<Rightarrow> ('k \<times> 'v) list" where
  "dict_set k x [] = [(k, x)]"
| "dict_set k x (p # ps) = (if fst p = k then (k, x) # ps else p # dict_set k x ps)"

subsection \<open>The abstract syntax tree\<close>

text \<open>
  The parser is an external collaborator; the interpreter reads an \<^verbatim>\<open>Element\<close> through
  its \<^verbatim>\<open>elem_type\<close> and the fields named below. An argument node is its \<^verbatim>\<open>name\<close> with
  its \<^verbatim>\<open>ref\<close> flag. \<open>FUNC_NODE\<close> in expression position is a lambda with its \<^verbatim>\<open>name\<close>,
  \<^verbatim>\<open>args\<close> and \<^verbatim>\<open>statements\<close>; \<open>BOP\<close> carries the operator that is the node's
  \<^verbatim>\<open>elem_type\<close>. A call is an expression and a statement (\<open>FCALL_STMT\<close>).
\<close>

datatype expr =
    INT_NODE int
  | STRING_NODE string
  | BOOL_NODE bool
  | NIL_NODE
  | EMPTY_OBJ_NODE
  | QUALIFIED_NAME_NODE string
  | FCALL_NODE string "expr list"
  | FUNC_NODE string "(string \<times> bool) list" "stmt list"
  | BOP string expr expr
  | NEG_NODE expr
  | NOT_NODE expr
  | CONVERT_NODE string expr
and stmt =
    VAR_DEF_NODE string
  | BVAR_DEF_NODE string
  | ASSIGN string expr
  | FCALL_STMT string "expr list"
  | IF_NODE expr "stmt list" "stmt list option"
  | WHILE_NODE expr "stmt list"
  | RETURN_NODE "expr option"

datatype field_node = FIELD_VAR_NODE string | FIELD_FUNC_NODE string "(string \<times> bool) list"

record interface_node =
  i_name :: string
  i_fields :: "field_node list"

record func_node =
  f_name :: string
  f_args :: "(string \<times> bool) list"
  f_statements :: "stmt list"

record program =
  p_interfaces :: "interface_node list option"
  p_functions :: "func_node list"

subsection \<open>Function and interface descriptors\<close>

text \<open>
  \<^verbatim>\<open>class Function\<close>, and \<^verbatim>\<open>class Lambda(Function)\<close>: a descriptor is a
  \<^verbatim>\<open>Lambda\<close> when \<open>captured_vars\<close> is \<open>Some\<close>. \<open>formal_args\<close> is the dict from a
  parameter's name to its \<^verbatim>\<open>ref\<close> flag, built by a dict comprehension.
\<close>

record Function =
  return_type :: Type
  formal_args :: "(string \<times> bool) list"
  statements :: "stmt list"
  captured_vars :: "(string \<times> addr) list option"

definition Function_init :: "string \<Rightarrow> (string \<times> bool) list \<Rightarrow> stmt list \<Rightarrow> Function" where
  "Function_init fname args stmts =
     \<lparr> return_type = (if fname = ''main'' then T_VOID else get_type fname),
       formal_args = foldl (\<lambda>d a. dict_set (fst a) (snd a) d) [] args,
       statements = stmts,
       captured_vars = None \<rparr>"

text \<open>\<^verbatim>\<open>class Interface\<close> with \<^verbatim>\<open>__assign_fields\<close>.\<close>

record Interface =
  field_vars :: "(string \<times> Type) list"
  field_funcs :: "(string \<times> (Type \<times> bool) list) list"

fun assign_fields :: "field_node list \<Rightarrow> Interface \<Rightarrow> Interface" where
  "assign_fields [] i = i"
| "assign_fields (FIELD_VAR_NODE var_name # flds) i =
     assign_fields flds (i\<lparr>field_vars := dict_set var_name (get_type var_name) (field_vars i)\<rparr>)"
| "assign_fields (FIELD_FUNC_NODE func_name params # flds) i =
     assign_fields flds
       (i\<lparr>field_funcs :=
            dict_set func_name (map (\<lambda>p. (get_type (fst p), snd p)) params) (field_funcs i)\<rparr>)"

definition Interface_init :: "field_node list \<Rightarrow> Interface" where
  "Interface_init flds = assign_fields flds \<lparr> field_vars = [], field_funcs = [] \<rparr>"

subsection \<open>The interpreter's state\<close>

text \<open>
  Everything the interpreter can reach: the store of \<^verbatim>\<open>Value\<close> wrappers (\<open>cells\<close>, a
  wrapper's address is its index), the field dicts of the objects created so far
  (\<open>dicts\<close>), the \<^verbatim>\<open>Function\<close> and \<^verbatim>\<open>Lambda\<close> instances (\<open>fobjs\<close>), the
  \<^verbatim>\<open>Environment\<close>'s list of frames, each a list of blocks, each a dict from a name to
  a wrapper (the last frame and the last block are the current ones), the function table
  keyed by name and signature, the interface table, the lines written by
  \<^verbatim>\<open>output\<close> and the lines still to be read by \<^verbatim>\<open>get_input\<close>. Python frees what is
  unreachable; the model keeps it, which no program can observe.
\<close>

type_synonym block = "(string \<times> addr) list"

record state =
  cells :: "Value list"
  dicts :: "(string \<times> addr) list list"
  fobjs :: "Function list"
  env :: "block list list"
  funcs :: "((string \<times> string) \<times> nat) list"
  interfaces :: "(string \<times> Interface) list"
  out_lines :: "string list"
  inp_lines :: "string list"

definition init_state :: "string list \<Rightarrow> state" where
  "init_state inp =
     \<lparr> cells = [], dicts = [], fobjs = [], env = [], funcs = [], interfaces = [],
       out_lines = [], inp_lines = inp \<rparr>"

text \<open>
  A call of the interpreter returns a value in a new state, or ends the run with a
  failure (\<^verbatim>\<open>InterpreterBase.error\<close> raises, and so does Python), or has not finished
  within the given number of nested steps.
\<close>

datatype 'a result = Ok 'a state | Fail failure state | OutOfFuel

definition bind :: "'a result \<Rightarrow> ('a \<Rightarrow> state \<Rightarrow> 'b result) \<Rightarrow> 'b result" where
  "bind r f = (case r of Ok x s \<Rightarrow> f x s | Fail e s \<Rightarrow> Fail e s | OutOfFuel \<Rightarrow> OutOfFuel)"

definition lift :: "failure + 'a \<Rightarrow> state \<Rightarrow> 'a result" where
  "lift r s = (case r of Inl e \<Rightarrow> Fail e s | Inr x \<Rightarrow> Ok x s)"

text \<open>
  A new wrapper: \<^verbatim>\<open>Value(t, v)\<close>, \<^verbatim>\<open>copy(val)\<close>, and \<^verbatim>\<open>Value.set\<close>, which overwrites
  the tag and payload of an existing wrapper and so is seen through every reference to it.
\<close>

definition alloc :: "Value \<Rightarrow> state \<Rightarrow> addr result" where
  "alloc x s = Ok (length (cells s)) (s\<lparr>cells := cells s @ [x]\<rparr>)"

definition new_Value :: "Type \<Rightarrow> payload \<Rightarrow> state \<Rightarrow> addr result" where
  "new_Value ty pv s = (case init_Value ty pv of Inl e \<Rightarrow> Fail e s | Inr x \<Rightarrow> alloc x s)"

definition copy_Value :: "addr \<Rightarrow> state \<Rightarrow> addr result" where
  "copy_Value a s = alloc (cells s ! a) s"

definition Value_set :: "addr \<Rightarrow> addr \<Rightarrow> state \<Rightarrow> state" where
  "Value_set a other s = s\<lparr>cells := (cells s)[a := cells s ! other]\<rparr>"

subsection \<open>Environment\<close>

text \<open>
  The methods of \<^verbatim>\<open>class Environment\<close>. \<^verbatim>\<open>self.env[-1]\<close> raises IndexError when no
  frame is active, and so do \<^verbatim>\<open>top_env[0]\<close>, \<^verbatim>\<open>top_env[-1]\<close> and \<^verbatim>\<open>pop\<close> on an empty
  list.
\<close>

definition enter_block :: "state \<Rightarrow> unit result" where
  "enter_block s =
     (if env s = [] then Fail (Uncaught PyIndexError) s
      else Ok () (s\<lparr>env := butlast (env s) @ [last (env s) @ [[]]]\<rparr>))"

definition exit_block :: "state \<Rightarrow> unit result" where
  "exit_block s =
     (if env s = [] then Fail (Uncaught PyIndexError) s
      else if last (env s) = [] then Fail (Uncaught PyIndexError) s
      else Ok () (s\<lparr>env := butlast (env s) @ [butlast (last (env s))]\<rparr>))"

definition enter_func :: "state \<Rightarrow> unit result" where
  "enter_func s = Ok () (s\<lparr>env := env s @ [[[]]]\<rparr>)"

definition exit_func :: "state \<Rightarrow> unit result" where
  "exit_func s =
     (if env s = [] then Fail (Uncaught PyIndexError) s
      else Ok () (s\<lparr>env := butlast (env s)\<rparr>))"

definition fdef :: "string \<Rightarrow> addr \<Rightarrow> state \<Rightarrow> bool result" where
  "fdef varname val s =
     (if env s = [] then Fail (Uncaught PyIndexError) s
      else (let top_env = last (env s) in
        (if top_env = [] then Fail (Uncaught PyIndexError) s
         else if dict_in varname (hd top_env) then Ok False s
         else Ok True
           (s\<lparr>env := butlast (env s) @ [dict_set varname val (hd top_env) # tl top_env]\<rparr>))))"

definition bdef :: "string \<Rightarrow> addr \<Rightarrow> state \<Rightarrow> bool result" where
  "bdef varname val s =
     (if env s = [] then Fail (Uncaught PyIndexError) s
      else (let top_env = last (env s) in
        (if top_env = [] then Fail (Uncaught PyIndexError) s
         else if dict_in varname (last top_env) then Ok False s
         else Ok True
           (s\<lparr>env := butlast (env s) @ [butlast top_env @ [dict_set varname val (last top_env)]]\<rparr>))))"

definition exists :: "string \<Rightarrow> state \<Rightarrow> bool result" where
  "exists varname s =
     (if env s = [] then Fail (Uncaught PyIndexError) s
      else Ok (list_ex (dict_in varname) (last (env s))) s)"

text \<open>\<^verbatim>\<open>get\<close> searches the blocks of the current frame from the innermost outwards.\<close>

fun get_in :: "string \<Rightarrow> block list \<Rightarrow> addr option" where
  "get_in varname [] = None"
| "get_in varname (b # bs) = (if dict_in varname b then map_of b varname else get_in varname bs)"

definition get :: "string \<Rightarrow> state \<Rightarrow> addr option result" where
  "get varname s =
     (if env s = [] then Fail (Uncaught PyIndexError) s
      else Ok (get_in varname (rev (last (env s)))) s)"

text \<open>
  \<^verbatim>\<open>capture_vars\<close> walks the blocks from the outermost inwards and the items of each,
  so an inner binding of a name replaces an outer one.
\<close>

definition capture_vars :: "state \<Rightarrow> block result" where
  "capture_vars s =
     (if env s = [] then Fail (Uncaught PyIndexError) s
      else Ok (foldl (\<lambda>captured b. foldl (\<lambda>c item. dict_set (fst item) (snd item) c) captured b)
                 [] (last (env s))) s)"

subsection \<open>Python's strings\<close>

text \<open>\<^verbatim>\<open>name.split(".")\<close>: the pieces between the dots; never an empty list.\<close>

fun split_dot :: "string \<Rightarrow> string list" where
  "split_dot [] = [[]]"
| "split_dot (c # cs) =
     (if c = CHR ''.'' then [] # split_dot cs
      else (case split_dot cs of [] \<Rightarrow> [[c]] | w # ws \<Rightarrow> (c # w) # ws))"

text \<open>\<^verbatim>\<open>sub in text\<close> on two strings is the substring test.\<close>

fun is_substring :: "string \<Rightarrow> string \<Rightarrow> bool" where
  "is_substring xs [] = (xs = [])"
| "is_substring xs (y # ys) = (take (length xs) (y # ys) = xs \<or> is_substring xs ys)"

text \<open>\<^verbatim>\<open>str(n)\<close> for an int: the decimal digits, with a minus sign when negative.\<close>

fun str_nat :: "nat \<Rightarrow> string" where
  "str_nat n =
     (if n < 10 then [''0123456789'' ! n]
      else str_nat (n div 10) @ [''0123456789'' ! (n mod 10)])"

declare str_nat.simps [simp del]

definition str_int :: "int \<Rightarrow> string" where
  "str_int i = (if i < 0 then CHR ''-'' # str_nat (nat (- i)) else str_nat (nat i))"

text \<open>
  \<^verbatim>\<open>int(text)\<close>: surrounding blanks are dropped, one sign is allowed, and at least one
  decimal digit must follow; \<open>None\<close> is ValueError. (Python also accepts single
  underscores between digits and non-ASCII digits, which are left out here.)
\<close>

definition is_space :: "char \<Rightarrow> bool" where
  "is_space c = (c = CHR '' '' \<or> (9::nat) \<le> of_char c \<and> of_char c \<le> (13::nat))"

definition is_digit :: "char \<Rightarrow> bool" where
  "is_digit c = ((48::nat) \<le> of_char c \<and> of_char c \<le> (57::nat))"

definition digits_value :: "string \<Rightarrow> int" where
  "digits_value ds = foldl (\<lambda>acc c. 10 * acc + (int (of_char c) - 48)) 0 ds"

definition int_of_str :: "string \<Rightarrow> int option" where
  "int_of_str text =
     (let body = rev (dropWhile is_space (rev (dropWhile is_space text)));
          neg = (body \<noteq> [] \<and> hd body = CHR ''-'');
          ds = (if body \<noteq> [] \<and> (hd body = CHR ''-'' \<or> hd body = CHR ''+'') then tl body else body)
      in (if ds \<noteq> [] \<and> list_all is_digit ds
          then Some (if neg then - digits_value ds else digits_value ds)
          else None))"

text \<open>
  \<^verbatim>\<open>str(c_out.v)\<close> as \<^verbatim>\<open>print\<close> uses it (a Bool is lower-cased). The text Python gives
  for a non-empty dict or a function object contains memory addresses of the host; the
  model writes a fixed marker for them.
\<close>

definition str_payload :: "payload \<Rightarrow> state \<Rightarrow> string" where
  "str_payload pv s =
     (case pv of
        PyNone \<Rightarrow> ''None''
      | PInt i \<Rightarrow> str_int i
      | PStr text \<Rightarrow> text
      | PBool b \<Rightarrow> (if b then ''True'' else ''False'')
      | PDict d \<Rightarrow> (if dicts s ! d = [] then ''{}'' else ''<dict>'')
      | PFunc f \<Rightarrow> ''<function>'')"

text \<open>
  \<^verbatim>\<open>sub in value.v\<close> and \<^verbatim>\<open>value.v[sub]\<close> on a payload: defined on a dict, a
  substring test and a TypeError on a string, a TypeError on anything else.
\<close>

definition py_contains :: "string \<Rightarrow> payload \<Rightarrow> state \<Rightarrow> failure + bool" where
  "py_contains sub pv s =
     (case pv of
        PDict d \<Rightarrow> Inr (dict_in sub (dicts s ! d))
      | PStr text \<Rightarrow> Inr (is_substring sub text)
      | _ \<Rightarrow> Inl (Uncaught PyTypeError))"

definition py_getitem :: "payload \<Rightarrow> string \<Rightarrow> state \<Rightarrow> failure + addr" where
  "py_getitem pv sub s =
     (case pv of
        PDict d \<Rightarrow>
          (case map_of (dicts s ! d) sub of None \<Rightarrow> Inl (Uncaught PyKeyError) | Some a \<Rightarrow> Inr a)
      | _ \<Rightarrow> Inl (Uncaught PyTypeError))"

text \<open>\<^verbatim>\<open>lvalue.v[key] = val\<close>: item assignment, defined on a dict only.\<close>

definition py_setitem :: "payload \<Rightarrow> string \<Rightarrow> addr \<Rightarrow> state \<Rightarrow> unit result" where
  "py_setitem pv key val s =
     (case pv of
        PDict d \<Rightarrow> Ok () (s\<lparr>dicts := (dicts s)[d := dict_set key val (dicts s ! d)]\<rparr>)
      | _ \<Rightarrow> Fail (Uncaught PyTypeError) s)"

subsection \<open>Signatures and the tables\<close>

text \<open>\<^verbatim>\<open>__get_parameters_type_signature\<close>; \<^verbatim>\<open>p.get("name")[-1]\<close> needs a non-empty name.\<close>

definition get_parameters_type_signature :: "(string \<times> bool) list \<Rightarrow> failure + string" where
  "get_parameters_type_signature formal_params =
     (if list_ex (\<lambda>p. fst p = []) formal_params then Inl (Uncaught PyIndexError)
      else (let param_type_sig =
                  map (\<lambda>p. if isupper (last (fst p)) then CHR ''o'' else last (fst p)) formal_params
        in (if list_all (\<lambda>c. c \<in> set ''biosf'') param_type_sig then Inr param_type_sig
            else Inl (Error TYPE_ERROR))))"

text \<open>\<^verbatim>\<open>__get_arguments_type_signature\<close>, on what the evaluated arguments hold.\<close>

fun get_arguments_type_signature :: "Value list \<Rightarrow> failure + string" where
  "get_arguments_type_signature [] = Inr []"
| "get_arguments_type_signature (arg # actual_args) =
     (let ty = t_of arg in
      (if ty = T_VOID then Inl (Error TYPE_ERROR)
       else if ty = T_ERROR then Inl (Uncaught PyException)
       else (case get_arguments_type_signature actual_args of
               Inl e \<Rightarrow> Inl e
             | Inr arg_sig \<Rightarrow>
                 Inr ((if ty = T_INT then CHR ''i''
                       else if ty = T_STRING then CHR ''s''
                       else if ty = T_BOOL then CHR ''b''
                       else if ty = T_OBJECT then CHR ''o''
                       else CHR ''f'') # arg_sig))))"

text \<open>\<^verbatim>\<open>__create_interface_table\<close>.\<close>

definition field_name :: "field_node \<Rightarrow> string" where
  "field_name f = (case f of FIELD_VAR_NODE n \<Rightarrow> n | FIELD_FUNC_NODE n ps \<Rightarrow> n)"

fun create_interfaces ::
  "interface_node list \<Rightarrow> (string \<times> Interface) list \<Rightarrow> failure + (string \<times> Interface) list" where
  "create_interfaces [] table = Inr table"
| "create_interfaces (interface # rest) table =
     (let iname = i_name interface in
      (if length iname \<noteq> 1 \<or> \<not> isupper (hd iname) then Inl (Error NAME_ERROR)
       else if dict_in iname table then Inl (Error NAME_ERROR)
       else if \<not> distinct (map field_name (i_fields interface)) then Inl (Error NAME_ERROR)
       else create_interfaces rest (dict_set iname (Interface_init (i_fields interface)) table)))"

definition create_interface_table :: "program \<Rightarrow> state \<Rightarrow> unit result" where
  "create_interface_table ast s =
     (case p_interfaces ast of
        None \<Rightarrow> Ok () (s\<lparr>interfaces := []\<rparr>)
      | Some ifs \<Rightarrow>
          (case create_interfaces ifs [] of
             Inl e \<Rightarrow> Fail e s
           | Inr table \<Rightarrow> Ok () (s\<lparr>interfaces := table\<rparr>)))"

text \<open>
  \<^verbatim>\<open>__create_function_table\<close>: one new \<^verbatim>\<open>Function\<close> instance per declaration, stored
  under the pair of its name and parameter signature.
\<close>

fun create_functions :: "func_node list \<Rightarrow> state \<Rightarrow> unit result" where
  "create_functions [] s = Ok () s"
| "create_functions (func # rest) s =
     (case get_parameters_type_signature (f_args func) of
        Inl e \<Rightarrow> Fail e s
      | Inr param_type_sig \<Rightarrow>
          (let func_obj = Function_init (f_name func) (f_args func) (f_statements func);
               type_sig = (f_name func, param_type_sig)
           in (if return_type func_obj = T_ERROR then Fail (Error TYPE_ERROR) s
               else if dict_in type_sig (funcs s) then Fail (Error NAME_ERROR) s
               else create_functions rest
                      (s\<lparr>fobjs := fobjs s @ [func_obj],
                         funcs := dict_set type_sig (length (fobjs s)) (funcs s)\<rparr>))))"

definition create_function_table :: "program \<Rightarrow> state \<Rightarrow> unit result" where
  "create_function_table ast s = create_functions (p_functions ast) (s\<lparr>funcs := []\<rparr>)"

text \<open>
  \<^verbatim>\<open>__get_function\<close>, and the \<^verbatim>\<open>try\<close>/\<^verbatim>\<open>except\<close> around its call in
  \<^verbatim>\<open>__run_fcall\<close>: the NameError it raises is caught and replaced.
\<close>

definition get_function :: "string \<Rightarrow> string \<Rightarrow> state \<Rightarrow> failure + nat" where
  "get_function fname param_type_signature s =
     (case map_of (funcs s) (fname, param_type_signature) of
        None \<Rightarrow> Inl (Error NAME_ERROR)
      | Some f \<Rightarrow> Inr f)"

definition find_function :: "string \<Rightarrow> string \<Rightarrow> state \<Rightarrow> failure + nat" where
  "find_function fcall_name args_type_sig s =
     (case get_function fcall_name args_type_sig s of
        Inr func_def \<Rightarrow> Inr func_def
      | Inl e \<Rightarrow>
          (let existing_funcs = filter (\<lambda>key. fst key = fcall_name) (map fst (funcs s)) in
           (if existing_funcs \<noteq> [] then Inl (Error TYPE_ERROR) else Inl (Error NAME_ERROR))))"

subsection \<open>Interfaces\<close>

text \<open>\<^verbatim>\<open>__get_interface_name\<close>: the last letter when it is upper-case.\<close>

definition get_interface_name :: "string \<Rightarrow> string option" where
  "get_interface_name n =
     (if n = [] then None else if isupper (last n) then Some [last n] else None)"

text \<open>
  \<^verbatim>\<open>__check_function_signatures\<close>. Its first argument is the payload of a
  Function-tagged field; reading \<^verbatim>\<open>formal_args\<close> of \<^verbatim>\<open>None\<close> raises AttributeError.
\<close>

definition check_function_signatures ::
  "payload \<Rightarrow> (Type \<times> bool) list \<Rightarrow> state \<Rightarrow> failure + bool" where
  "check_function_signatures obj_sig field_sig s =
     (case obj_sig of
        PFunc f \<Rightarrow>
          (let fargs = formal_args (fobjs s ! f) in
           (if length fargs \<noteq> length field_sig then Inr False
            else Inr (list_all
                        (\<lambda>p. get_type (fst (fst p)) = fst (snd p) \<and> snd (fst p) = snd (snd p))
                        (zip fargs field_sig))))
      | _ \<Rightarrow> Inl (Uncaught PyAttributeError))"

text \<open>The two loops of \<^verbatim>\<open>__interface_satisfaction\<close>, over the dict of the object's fields.\<close>

fun check_field_vars :: "(string \<times> Type) list \<Rightarrow> block \<Rightarrow> state \<Rightarrow> bool" where
  "check_field_vars [] obj_fields s = True"
| "check_field_vars (fv # rest) obj_fields s =
     (case map_of obj_fields (fst fv) of
        None \<Rightarrow> False
      | Some obj_value \<Rightarrow>
          (if t_of (cells s ! obj_value) \<noteq> snd fv then False
           else check_field_vars rest obj_fields s))"

fun check_field_funcs ::
  "(string \<times> (Type \<times> bool) list) list \<Rightarrow> block \<Rightarrow> state \<Rightarrow> failure + bool" where
  "check_field_funcs [] obj_fields s = Inr True"
| "check_field_funcs (ff # rest) obj_fields s =
     (case map_of obj_fields (fst ff) of
        None \<Rightarrow> Inr False
      | Some obj_value \<Rightarrow>
          (if t_of (cells s ! obj_value) \<noteq> T_FUNCTION then Inr False
           else (case check_function_signatures (v_of (cells s ! obj_value)) (snd ff) s of
                   Inl e \<Rightarrow> Inl e
                 | Inr ok \<Rightarrow> (if \<not> ok then Inr False else check_field_funcs rest obj_fields s))))"

text \<open>
  \<^verbatim>\<open>__interface_satisfaction\<close>. An Object-tagged wrapper holds \<^verbatim>\<open>None\<close> or a dict
  (every place that builds or overwrites a wrapper keeps this), so the last case is
  never reached.
\<close>

definition interface_satisfaction :: "addr \<Rightarrow> string \<Rightarrow> state \<Rightarrow> failure + bool" where
  "interface_satisfaction obj interface_name s =
     (case map_of (interfaces s) interface_name of
        None \<Rightarrow> Inl (Error NAME_ERROR)
      | Some interface \<Rightarrow>
          (if v_of (cells s ! obj) = PyNone then Inr True
           else if t_of (cells s ! obj) \<noteq> T_OBJECT then Inr False
           else (case v_of (cells s ! obj) of
                   PDict d \<Rightarrow>
                     (if \<not> check_field_vars (field_vars interface) (dicts s ! d) s then Inr False
                      else check_field_funcs (field_funcs interface) (dicts s ! d) s)
                 | _ \<Rightarrow> Inl (Uncaught PyTypeError))))"

subsection \<open>Variables: definition, lookup, assignment\<close>

text \<open>\<^verbatim>\<open>__run_vardef\<close>.\<close>

definition run_vardef :: "string \<Rightarrow> bool \<Rightarrow> state \<Rightarrow> unit result" where
  "run_vardef vname block_def s =
     (let var_type = get_type vname in
      (if var_type = T_ERROR \<or> var_type = T_VOID then Fail (Error TYPE_ERROR) s
       else bind (new_Value var_type PyNone s) (\<lambda>default_value s1.
              bind (if block_def then bdef vname default_value s1
                    else fdef vname default_value s1) (\<lambda>ok s2.
              (if \<not> ok then Fail (Error NAME_ERROR) s2 else Ok () s2)))))"

text \<open>
  The loop of \<^verbatim>\<open>__get_var_value\<close> over the segments after the root; \<open>i\<close> is the
  index of \<open>sub\<close> and \<open>len\<close> the number of segments after the root.
\<close>

fun get_var_walk :: "nat \<Rightarrow> nat \<Rightarrow> string list \<Rightarrow> addr \<Rightarrow> state \<Rightarrow> failure + addr" where
  "get_var_walk i len [] val s = Inr val"
| "get_var_walk i len (sub # rest) val s =
     (if v_of (cells s ! val) = PyNone then Inl (Error FAULT_ERROR)
      else (case py_contains sub (v_of (cells s ! val)) s of
              Inl e \<Rightarrow> Inl e
            | Inr False \<Rightarrow> Inl (Error NAME_ERROR)
            | Inr True \<Rightarrow>
                (if i < len - 1 \<and> sub = [] then Inl (Uncaught PyIndexError)
                 else if i < len - 1 \<and> last sub \<noteq> CHR ''o'' \<and> \<not> isupper (last sub)
                   then Inl (Error TYPE_ERROR)
                 else (case py_getitem (v_of (cells s ! val)) sub s of
                         Inl e \<Rightarrow> Inl e
                       | Inr val' \<Rightarrow> get_var_walk (i + 1) len rest val' s))))"

text \<open>
  \<^verbatim>\<open>__get_var_value\<close>. A single name that exactly one declared function bears yields a
  new Function-tagged wrapper around that function's descriptor; two or more is a
  NameError; otherwise the name is looked up in the environment, and the wrapper found
  there (not a copy) is the result.
\<close>

definition get_var_value :: "string \<Rightarrow> state \<Rightarrow> addr result" where
  "get_var_value qname s =
     (let dotted_name = split_dot qname;
          func_var = filter (\<lambda>key. fst key = hd dotted_name) (map fst (funcs s))
      in (if length dotted_name = 1 \<and> length func_var = 1 then
            (case map_of (funcs s) (hd func_var) of
               None \<Rightarrow> Fail (Uncaught PyKeyError) s
             | Some func_obj \<Rightarrow> new_Value T_FUNCTION (PFunc func_obj) s)
          else if length dotted_name = 1 \<and> length func_var > 1 then Fail (Error NAME_ERROR) s
          else bind (exists (hd dotted_name) s) (\<lambda>ex s1.
            (if \<not> ex then Fail (Error NAME_ERROR) s1
             else bind (get (hd dotted_name) s1) (\<lambda>val s2.
               (case val of
                  None \<Rightarrow> Fail (Uncaught PyAttributeError) s2
                | Some base \<Rightarrow>
                   (let suffix_name = tl dotted_name in
                    (if length dotted_name > 1 \<and> hd dotted_name = []
                     then Fail (Uncaught PyIndexError) s2
                     else if length dotted_name > 1 \<and> \<not> isupper (last (hd dotted_name))
                          \<and> last (hd dotted_name) \<noteq> CHR ''o''
                     then Fail (Error TYPE_ERROR) s2
                     else lift (get_var_walk 0 (length suffix_name) suffix_name base s2) s2))))))))"

text \<open>
  \<^verbatim>\<open>__run_assign\<close> after the right-hand side has been evaluated to the wrapper
  \<open>rvalue\<close>: first the type check of the last segment's name against the value.
\<close>

definition assign_check :: "string \<Rightarrow> addr \<Rightarrow> state \<Rightarrow> failure + unit" where
  "assign_check last_name rvalue s =
     (let var_type = get_type last_name; rv = cells s ! rvalue in
      (case get_interface_name last_name of
         Some interface_name \<Rightarrow>
           (if t_of rv \<noteq> T_OBJECT then Inl (Error TYPE_ERROR)
            else (case interface_satisfaction rvalue interface_name s of
                    Inl e \<Rightarrow> Inl e
                  | Inr ok \<Rightarrow> (if \<not> ok then Inl (Error TYPE_ERROR) else Inr ())))
       | None \<Rightarrow>
           (if v_of rv = PyNone then
              (if var_type \<noteq> T_OBJECT \<and> var_type \<noteq> T_FUNCTION then Inl (Error TYPE_ERROR)
               else Inr ())
            else if var_type \<noteq> t_of rv then Inl (Error TYPE_ERROR)
            else Inr ())))"

text \<open>The loop of \<^verbatim>\<open>__run_assign\<close> over the segments between the root and the last.\<close>

fun assign_walk :: "string list \<Rightarrow> addr \<Rightarrow> state \<Rightarrow> failure + addr" where
  "assign_walk [] lvalue s = Inr lvalue"
| "assign_walk (sub # rest) lvalue s =
     (case py_contains sub (v_of (cells s ! lvalue)) s of
        Inl e \<Rightarrow> Inl e
      | Inr False \<Rightarrow> Inl (Error NAME_ERROR)
      | Inr True \<Rightarrow>
          (if sub = [] then Inl (Uncaught PyIndexError)
           else if last sub \<noteq> CHR ''o'' \<and> \<not> isupper (last sub) then Inl (Error TYPE_ERROR)
           else (case py_getitem (v_of (cells s ! lvalue)) sub s of
                   Inl e \<Rightarrow> Inl e
                 | Inr lvalue' \<Rightarrow>
                     (if v_of (cells s ! lvalue') = PyNone then Inl (Error FAULT_ERROR)
                      else assign_walk rest lvalue' s))))"

text \<open>
  The rest of \<^verbatim>\<open>__run_assign\<close>. A single name is assigned by \<^verbatim>\<open>Value.set\<close> on the
  wrapper the environment holds. A dotted path is assigned by item assignment on the
  dict of the last object: the key is bound to the right-hand wrapper itself when that is
  Object-tagged, and to a new wrapper otherwise.
\<close>

definition assign_rvalue :: "string \<Rightarrow> addr \<Rightarrow> state \<Rightarrow> unit result" where
  "assign_rvalue vname rvalue s =
     (let dotted_name = split_dot vname in
      bind (exists (hd dotted_name) s) (\<lambda>ex s1.
      (if \<not> ex then Fail (Error NAME_ERROR) s1
       else bind (lift (assign_check (last dotted_name) rvalue s1) s1) (\<lambda>u s2.
         (if length dotted_name = 1 then
            bind (get vname s2) (\<lambda>val s3.
              (case val of
                 None \<Rightarrow> Fail (Uncaught PyAttributeError) s3
               | Some a \<Rightarrow> Ok () (Value_set a rvalue s3)))
          else
            bind (get (hd dotted_name) s2) (\<lambda>base s3.
            (case base of
               None \<Rightarrow> Fail (Uncaught PyAttributeError) s3
             | Some lvalue \<Rightarrow>
             (if t_of (cells s3 ! lvalue) \<noteq> T_OBJECT then Fail (Error TYPE_ERROR) s3
              else if v_of (cells s3 ! lvalue) = PyNone then Fail (Error FAULT_ERROR) s3
              else bind (lift (assign_walk (butlast (tl dotted_name)) lvalue s3) s3) (\<lambda>lv s4.
                (if t_of (cells s4 ! rvalue) = T_OBJECT then
                   py_setitem (v_of (cells s4 ! lv)) (last dotted_name) rvalue s4
                 else
                   bind (new_Value (t_of (cells s4 ! rvalue)) (v_of (cells s4 ! rvalue)) s4)
                     (\<lambda>fresh s5.
                        py_setitem (v_of (cells s5 ! lv)) (last dotted_name) fresh s5)))))))))))"

subsection \<open>Lambdas and parameter passing\<close>

text \<open>
  The loop of \<^verbatim>\<open>__create_lambda\<close> over the captured names. The test
  \<^verbatim>\<open>name in lambda_params\<close> compares a string with the argument nodes of the lambda,
  which are \<^verbatim>\<open>Element\<close> instances and equal to no string, so it never holds and no
  name is skipped. Each of the three branches builds a new wrapper holding the tag and
  payload of the captured one.
\<close>

fun capture_loop :: "block \<Rightarrow> block \<Rightarrow> state \<Rightarrow> block result" where
  "capture_loop [] captured_vars' s = Ok captured_vars' s"
| "capture_loop (item # rest) captured_vars' s =
     (let val = snd item; ty = t_of (cells s ! val) in
      bind (if ty = T_INT \<or> ty = T_STRING \<or> ty = T_BOOL then copy_Value val s
            else if ty = T_OBJECT \<or> ty = T_FUNCTION then new_Value ty (v_of (cells s ! val)) s
            else copy_Value val s) (\<lambda>c s1.
      capture_loop rest (dict_set (fst item) c captured_vars') s1))"

definition create_lambda ::
  "string \<Rightarrow> (string \<times> bool) list \<Rightarrow> stmt list \<Rightarrow> state \<Rightarrow> addr result" where
  "create_lambda lname lambda_params stmts s =
     bind (capture_vars s) (\<lambda>inscope_vars s1.
     bind (capture_loop inscope_vars [] s1) (\<lambda>captured s2.
       (let lambda_obj = (Function_init lname lambda_params stmts)\<lparr>captured_vars := Some captured\<rparr>
        in new_Value T_FUNCTION (PFunc (length (fobjs s2)))
             (s2\<lparr>fobjs := fobjs s2 @ [lambda_obj]\<rparr>))))"

text \<open>\<^verbatim>\<open>__clone_for_passing\<close>: the wrapper itself by reference, a copy of it otherwise.\<close>

definition clone_for_passing :: "addr \<Rightarrow> bool \<Rightarrow> state \<Rightarrow> addr result" where
  "clone_for_passing arg ref_param s = (if ref_param then Ok arg s else copy_Value arg s)"

text \<open>
  The loops of \<^verbatim>\<open>__run_fcall\<close> over the formal parameters zipped with the evaluated
  arguments: the interface check, then the binding in the new frame.
\<close>

fun check_interface_args :: "(string \<times> bool) list \<Rightarrow> addr list \<Rightarrow> state \<Rightarrow> failure + unit" where
  "check_interface_args (formal # formals) (actual_arg # actual_args) s =
     (case get_interface_name (fst formal) of
        None \<Rightarrow> check_interface_args formals actual_args s
      | Some interface_name \<Rightarrow>
          (if t_of (cells s ! actual_arg) \<noteq> T_OBJECT then Inl (Error TYPE_ERROR)
           else (case interface_satisfaction actual_arg interface_name s of
                   Inl e \<Rightarrow> Inl e
                 | Inr ok \<Rightarrow>
                     (if \<not> ok then Inl (Error TYPE_ERROR)
                      else check_interface_args formals actual_args s))))"
| "check_interface_args formals actual_args s = Inr ()"

fun bind_formals :: "(string \<times> bool) list \<Rightarrow> addr list \<Rightarrow> state \<Rightarrow> unit result" where
  "bind_formals (formal # formals) (actual # actual_args) s =
     bind (clone_for_passing actual (snd formal) s) (\<lambda>a s1.
     bind (fdef (fst formal) a s1) (\<lambda>ok s2.
     bind_formals formals actual_args s2))"
| "bind_formals formals actual_args s = Ok () s"

text \<open>
  The loops of \<^verbatim>\<open>__call_function_value\<close>: the check of each argument against the
  parameter's name, the definition of the captured variables of a lambda, and the binding
  of the parameters, where a parameter whose name is already defined in the new frame
  overwrites that wrapper's content instead.
\<close>

fun check_actuals :: "(string \<times> bool) list \<Rightarrow> addr list \<Rightarrow> state \<Rightarrow> failure + unit" where
  "check_actuals (formal # formals) (actual # actual_args) s =
     (if get_type (fst formal) \<noteq> t_of (cells s ! actual) then Inl (Error TYPE_ERROR)
      else (case get_interface_name (fst formal) of
              None \<Rightarrow> check_actuals formals actual_args s
            | Some interface_name \<Rightarrow>
                (if t_of (cells s ! actual) \<noteq> T_OBJECT then Inl (Error TYPE_ERROR)
                 else (case interface_satisfaction actual interface_name s of
                         Inl e \<Rightarrow> Inl e
                       | Inr ok \<Rightarrow>
                           (if \<not> ok then Inl (Error TYPE_ERROR)
                            else check_actuals formals actual_args s)))))"
| "check_actuals formals actual_args s = Inr ()"

fun define_captured :: "block \<Rightarrow> state \<Rightarrow> unit result" where
  "define_captured [] s = Ok () s"
| "define_captured (item # rest) s =
     bind (fdef (fst item) (snd item) s) (\<lambda>ok s1. define_captured rest s1)"

fun bind_formals_shadowing :: "(string \<times> bool) list \<Rightarrow> addr list \<Rightarrow> state \<Rightarrow> unit result" where
  "bind_formals_shadowing (formal # formals) (actual # actual_args) s =
     bind (clone_for_passing actual (snd formal) s) (\<lambda>a s1.
     bind (exists (fst formal) s1) (\<lambda>ex s2.
     bind (if ex then
             bind (get (fst formal) s2) (\<lambda>shadowed_val s3.
               (case shadowed_val of
                  None \<Rightarrow> Fail (Uncaught PyAttributeError) s3
                | Some sv \<Rightarrow> Ok () (Value_set sv a s3)))
           else bind (fdef (fst formal) a s2) (\<lambda>ok s3. Ok () s3)) (\<lambda>u s4.
     bind_formals_shadowing formals actual_args s4)))"
| "bind_formals_shadowing formals actual_args s = Ok () s"

subsection \<open>Conversions and the method path\<close>

text \<open>\<^verbatim>\<open>__eval_convert\<close> after its operand has been evaluated to the wrapper \<open>val\<close>.\<close>

definition convert_value :: "string \<Rightarrow> addr \<Rightarrow> state \<Rightarrow> addr result" where
  "convert_value to_type val s =
     (let ty = t_of (cells s ! val); pv = v_of (cells s ! val) in
      (if to_type = ''int'' then
         (if ty = T_INT then Ok val s
          else if ty = T_STRING then
            (case pv of
               PStr text \<Rightarrow>
                 (case int_of_str text of
                    None \<Rightarrow> Fail (Error TYPE_ERROR) s
                  | Some i \<Rightarrow> new_Value T_INT (PInt i) s)
             | _ \<Rightarrow> Fail (Uncaught PyTypeError) s)
          else if ty = T_BOOL then new_Value T_INT (PInt (if pv = PBool True then 1 else 0)) s
          else Fail (Error TYPE_ERROR) s)
       else if to_type = ''str'' then
         (if ty = T_STRING then Ok val s
          else if ty = T_INT then new_Value T_STRING (PStr (str_payload pv s)) s
          else if ty = T_BOOL then new_Value T_STRING (PStr (if pv = PBool True then ''true'' else ''false'')) s
          else Fail (Error TYPE_ERROR) s)
       else if to_type = ''bool'' then
         (if ty = T_BOOL then Ok val s
          else if ty = T_INT then new_Value T_BOOL (PBool (pv \<noteq> PInt 0)) s
          else if ty = T_STRING then new_Value T_BOOL (PBool (pv \<noteq> PStr [])) s
          else Fail (Error TYPE_ERROR) s)
       else Fail (Error TYPE_ERROR) s))"

text \<open>
  The loop of \<^verbatim>\<open>__run_method_call\<close> over the segments between the root and the
  method's name. Its index test \<^verbatim>\<open>i < len(suffix_name) - 1\<close> always holds there.
\<close>

fun method_walk :: "string list \<Rightarrow> addr \<Rightarrow> state \<Rightarrow> failure + addr" where
  "method_walk [] val s = Inr val"
| "method_walk (sub # rest) val s =
     (if v_of (cells s ! val) = PyNone then Inl (Error FAULT_ERROR)
      else (case py_contains sub (v_of (cells s ! val)) s of
              Inl e \<Rightarrow> Inl e
            | Inr False \<Rightarrow> Inl (Error NAME_ERROR)
            | Inr True \<Rightarrow>
                (if sub = [] then Inl (Uncaught PyIndexError)
                 else if last sub \<noteq> CHR ''o'' then Inl (Error TYPE_ERROR)
                 else (case py_getitem (v_of (cells s ! val)) sub s of
                         Inl e \<Rightarrow> Inl e
                       | Inr val' \<Rightarrow> method_walk rest val' s))))"

text \<open>
  \<^verbatim>\<open>__run_method_call\<close> up to the call itself: the wrapper of the object that holds
  the method, and the payload of the method's field. After the loop the object's payload
  is used without a test for \<^verbatim>\<open>None\<close>: \<^verbatim>\<open>method_name not in value.v\<close> raises
  Python's TypeError when \<^verbatim>\<open>value.v\<close> is \<^verbatim>\<open>None\<close>.
\<close>

definition find_method :: "string \<Rightarrow> state \<Rightarrow> (addr \<times> payload) result" where
  "find_method method_path s =
     (let dotted_name = split_dot method_path in
      bind (exists (hd dotted_name) s) (\<lambda>ex s1.
      (if \<not> ex then Fail (Error NAME_ERROR) s1
       else bind (get (hd dotted_name) s1) (\<lambda>base s2.
         (case base of
            None \<Rightarrow> Fail (Uncaught PyAttributeError) s2
          | Some val0 \<Rightarrow>
             (let suffix_name = tl dotted_name in
              bind (lift (method_walk (butlast suffix_name) val0 s2) s2) (\<lambda>val s3.
              (if suffix_name = [] then Fail (Uncaught PyIndexError) s3
               else (let method_name = last suffix_name in
                 bind (lift (py_contains method_name (v_of (cells s3 ! val)) s3) s3) (\<lambda>has s4.
                 (if \<not> has then Fail (Error NAME_ERROR) s4
                  else bind (lift (py_getitem (v_of (cells s4 ! val)) method_name s4) s4)
                    (\<lambda>method_value s5.
                      (if t_of (cells s5 ! method_value) \<noteq> T_FUNCTION then Fail (Error TYPE_ERROR) s5
                       else if v_of (cells s5 ! method_value) = PyNone then Fail (Error FAULT_ERROR) s5
                       else Ok (val, v_of (cells s5 ! method_value)) s5)))))))))))))"

subsection \<open>The evaluator\<close>

text \<open>
  \<^verbatim>\<open>self.bops\<close>, and \<^verbatim>\<open>str.lower\<close> as \<^verbatim>\<open>print\<close> applies it to a Bool's text.
\<close>

definition bops :: "string list" where
  "bops = [''+'', ''-'', ''*'', ''/'', ''=='', ''!='', ''>'', ''>='', ''<'', ''<='', ''||'', ''&&'']"

definition lower :: "string \<Rightarrow> string" where
  "lower text =
     map (\<lambda>c. case map_of (zip ''ABCDEFGHIJKLMNOPQRSTUVWXYZ'' ''abcdefghijklmnopqrstuvwxyz'') c of
                None \<Rightarrow> c
              | Some l \<Rightarrow> l) text"

text \<open>
  The methods of \<^verbatim>\<open>class Interpreter\<close> that evaluate call one another through
  \<^verbatim>\<open>self\<close>, and a Brewin program need not terminate. A method of the model takes
  \<open>self\<close> too: the interpreter with one unit less of depth for nested evaluation, given
  by the three methods through which every cycle of calls passes. \<open>m_eval_expr self\<close> is
  \<^verbatim>\<open>self.eval_expr\<close>, \<open>m_run_statements self\<close> is \<^verbatim>\<open>self.__run_statements\<close>, and
  \<open>m_while_loop self\<close> is the next turn of the loop of \<^verbatim>\<open>__run_while\<close>. When no depth
  is left they give \<open>OutOfFuel\<close>.
\<close>

record Interpreter =
  m_eval_expr :: "expr \<Rightarrow> state \<Rightarrow> addr result"
  m_run_statements :: "Function \<Rightarrow> stmt list \<Rightarrow> state \<Rightarrow> (addr \<times> bool) result"
  m_while_loop :: "Function \<Rightarrow> expr \<Rightarrow> stmt list \<Rightarrow> addr \<Rightarrow> state \<Rightarrow> (addr \<times> bool) result"

text \<open>The list comprehension \<^verbatim>\<open>[self.eval_expr(a) for a in args]\<close>.\<close>

fun eval_args :: "Interpreter \<Rightarrow> expr list \<Rightarrow> state \<Rightarrow> addr list result" where
  "eval_args self [] s = Ok [] s"
| "eval_args self (a # rest) s =
     bind (m_eval_expr self a s) (\<lambda>v s1.
     bind (eval_args self rest s1) (\<lambda>vs s2. Ok (v # vs) s2))"

text \<open>
  Modelled from the spec: the host collaborators \<^verbatim>\<open>output(text)\<close>, which appends a
  line to the output, and \<^verbatim>\<open>read_input()\<close>, which takes the next line of the input
  (reading beyond the last line is a failure of the host). They are methods of
  \<^verbatim>\<open>InterpreterBase\<close>, used by \<^verbatim>\<open>__handle_print\<close>, given here with its loop, and
  by \<^verbatim>\<open>__handle_input\<close>.
\<close>

fun print_loop :: "Interpreter \<Rightarrow> expr list \<Rightarrow> string \<Rightarrow> state \<Rightarrow> string result" where
  "print_loop self [] out s = Ok out s"
| "print_loop self (arg # rest) out s =
     bind (m_eval_expr self arg s) (\<lambda>c_out s1.
       (if t_of (cells s1 ! c_out) = T_VOID then Fail (Error TYPE_ERROR) s1
        else if t_of (cells s1 ! c_out) = T_BOOL then
          print_loop self rest (out @ lower (str_payload (v_of (cells s1 ! c_out)) s1)) s1
        else print_loop self rest (out @ str_payload (v_of (cells s1 ! c_out)) s1) s1))"

definition handle_print :: "Interpreter \<Rightarrow> expr list \<Rightarrow> state \<Rightarrow> addr result" where
  "handle_print self args s =
     bind (print_loop self args [] s) (\<lambda>out s1.
     new_Value T_VOID PyNone (s1\<lparr>out_lines := out_lines s1 @ [out]\<rparr>))"

definition handle_input :: "Interpreter \<Rightarrow> string \<Rightarrow> expr list \<Rightarrow> state \<Rightarrow> addr result" where
  "handle_input self fcall_name args s =
     (if length args > 1 then Fail (Error NAME_ERROR) s
      else bind (if args \<noteq> [] then handle_print self args s else Ok 0 s) (\<lambda>u s1.
        (case inp_lines s1 of
           [] \<Rightarrow> Fail (Uncaught PyException) s1
         | res # remaining \<Rightarrow>
             (if fcall_name = ''inputi'' then
                (case int_of_str res of
                   None \<Rightarrow> Fail (Uncaught PyValueError) (s1\<lparr>inp_lines := remaining\<rparr>)
                 | Some i \<Rightarrow> new_Value T_INT (PInt i) (s1\<lparr>inp_lines := remaining\<rparr>))
              else new_Value T_STRING (PStr res) (s1\<lparr>inp_lines := remaining\<rparr>)))))"

text \<open>
  \<^verbatim>\<open>__call_function_value\<close>: \<open>func_obj\<close> is the payload of a Function-tagged wrapper
  that is not \<^verbatim>\<open>None\<close>, and \<open>selfo\<close> the wrapper of the receiver in a method call.
\<close>

definition call_function_value ::
  "Interpreter \<Rightarrow> payload \<Rightarrow> expr list \<Rightarrow> addr option \<Rightarrow> state \<Rightarrow> addr result" where
  "call_function_value self func_obj args selfo s =
     bind (eval_args self args s) (\<lambda>actual_args s1.
     bind (lift (get_arguments_type_signature (map (\<lambda>a. cells s1 ! a) actual_args)) s1)
       (\<lambda>args_type_sig s2.
       (case func_obj of
          PFunc f \<Rightarrow>
            (let fo = fobjs s2 ! f in
             (if length actual_args \<noteq> length (formal_args fo) then Fail (Error TYPE_ERROR) s2
              else
                bind (lift (check_actuals (formal_args fo) actual_args s2) s2) (\<lambda>u s3.
                bind (enter_func s3) (\<lambda>u s4.
                bind (case selfo of None \<Rightarrow> Ok False s4 | Some so \<Rightarrow> fdef ''selfo'' so s4) (\<lambda>u s5.
                bind (case captured_vars fo of None \<Rightarrow> Ok () s5 | Some cv \<Rightarrow> define_captured cv s5)
                  (\<lambda>u s6.
                bind (bind_formals_shadowing (formal_args fo) actual_args s6) (\<lambda>u s7.
                bind (m_run_statements self fo (statements fo) s7) (\<lambda>r s8.
                bind (exit_func s8) (\<lambda>u s9. Ok (fst r) s9)))))))))
        | _ \<Rightarrow> Fail (Uncaught PyAttributeError) s2)))"

text \<open>\<^verbatim>\<open>__run_method_call\<close>.\<close>

definition run_method_call :: "Interpreter \<Rightarrow> string \<Rightarrow> expr list \<Rightarrow> state \<Rightarrow> addr result" where
  "run_method_call self method_path args s =
     bind (find_method method_path s) (\<lambda>m s1.
     call_function_value self (snd m) args (Some (fst m)) s1)"

text \<open>
  \<^verbatim>\<open>__run_fcall\<close>: the intrinsics, a dotted path, a call through a variable that holds
  a Function-tagged wrapper, and last the call resolved by name and signature of the
  evaluated arguments.
\<close>

definition run_fcall :: "Interpreter \<Rightarrow> string \<Rightarrow> expr list \<Rightarrow> state \<Rightarrow> addr result" where
  "run_fcall self fcall_name args s =
     (if fcall_name = ''inputi'' \<or> fcall_name = ''inputs'' then handle_input self fcall_name args s
      else if fcall_name = ''print'' then handle_print self args s
      else if CHR ''.'' \<in> set fcall_name then run_method_call self fcall_name args s
      else (let func_val = (if env s \<noteq> [] then get_in fcall_name (rev (last (env s))) else None) in
        (if func_val \<noteq> None \<and> t_of (cells s ! the func_val) = T_FUNCTION then
           (if v_of (cells s ! the func_val) = PyNone then Fail (Error FAULT_ERROR) s
            else call_function_value self (v_of (cells s ! the func_val)) args None s)
         else
           bind (eval_args self args s) (\<lambda>actual_args s1.
           bind (lift (get_arguments_type_signature (map (\<lambda>a. cells s1 ! a) actual_args)) s1)
             (\<lambda>args_type_sig s2.
           bind (lift (find_function fcall_name args_type_sig s2) s2) (\<lambda>f s3.
             (let func_def = fobjs s3 ! f in
              bind (lift (check_interface_args (formal_args func_def) actual_args s3) s3) (\<lambda>u s4.
              bind (enter_func s4) (\<lambda>u s5.
              bind (bind_formals (formal_args func_def) actual_args s5) (\<lambda>u s6.
              bind (m_run_statements self func_def (statements func_def) s6) (\<lambda>r s7.
              bind (exit_func s7) (\<lambda>u s8. Ok (fst r) s8))))))))))))"

text \<open>\<^verbatim>\<open>eval_expr\<close>. A node whose kind is none of those tested raises at the end.\<close>

definition eval_expr :: "Interpreter \<Rightarrow> expr \<Rightarrow> state \<Rightarrow> addr result" where
  "eval_expr self e s =
     (case e of
        INT_NODE i \<Rightarrow> new_Value T_INT (PInt i) s
      | STRING_NODE text \<Rightarrow> new_Value T_STRING (PStr text) s
      | BOOL_NODE b \<Rightarrow> new_Value T_BOOL (PBool b) s
      | NIL_NODE \<Rightarrow> new_Value T_OBJECT PyNone s
      | EMPTY_OBJ_NODE \<Rightarrow>
          new_Value T_OBJECT (PDict (length (dicts s))) (s\<lparr>dicts := dicts s @ [[]]\<rparr>)
      | QUALIFIED_NAME_NODE qname \<Rightarrow> get_var_value qname s
      | FCALL_NODE fcall_name args \<Rightarrow> run_fcall self fcall_name args s
      | FUNC_NODE lname lambda_params stmts \<Rightarrow> create_lambda lname lambda_params stmts s
      | BOP kind op1 op2 \<Rightarrow>
          (if kind \<in> set bops then
             bind (m_eval_expr self op1 s) (\<lambda>l s1.
             bind (m_eval_expr self op2 s1) (\<lambda>r s2.
             bind (lift (eval_binary_op kind (cells s2 ! l) (cells s2 ! r)) s2) (\<lambda>x s3.
             alloc x s3)))
           else Fail (Uncaught PyException) s)
      | NEG_NODE op1 \<Rightarrow>
          bind (m_eval_expr self op1 s) (\<lambda>v s1.
            (if t_of (cells s1 ! v) = T_INT then
               (case v_of (cells s1 ! v) of
                  PInt i \<Rightarrow> new_Value T_INT (PInt (- i)) s1
                | _ \<Rightarrow> Fail (Uncaught PyTypeError) s1)
             else Fail (Error TYPE_ERROR) s1))
      | NOT_NODE op1 \<Rightarrow>
          bind (m_eval_expr self op1 s) (\<lambda>v s1.
            (if t_of (cells s1 ! v) = T_BOOL then
               new_Value T_BOOL (PBool (v_of (cells s1 ! v) \<noteq> PBool True)) s1
             else Fail (Error TYPE_ERROR) s1))
      | CONVERT_NODE to_type e1 \<Rightarrow>
          bind (m_eval_expr self e1 s) (\<lambda>val s1. convert_value to_type val s1))"

text \<open>\<^verbatim>\<open>__run_assign\<close>, \<^verbatim>\<open>__run_if\<close>, \<^verbatim>\<open>__run_while\<close> and \<^verbatim>\<open>__run_return\<close>.\<close>

definition run_assign :: "Interpreter \<Rightarrow> string \<Rightarrow> expr \<Rightarrow> state \<Rightarrow> unit result" where
  "run_assign self vname e s =
     bind (m_eval_expr self e s) (\<lambda>rvalue s1. assign_rvalue vname rvalue s1)"

definition run_if ::
  "Interpreter \<Rightarrow> Function \<Rightarrow> expr \<Rightarrow> stmt list \<Rightarrow> stmt list option \<Rightarrow> state
     \<Rightarrow> (addr \<times> bool) result" where
  "run_if self funcdef cond stmts else_stmts s =
     bind (m_eval_expr self cond s) (\<lambda>c s1.
       (if t_of (cells s1 ! c) \<noteq> T_BOOL then Fail (Error TYPE_ERROR) s1
        else
          bind (enter_block s1) (\<lambda>u s2.
          bind (new_Value (return_type funcdef) PyNone s2) (\<lambda>res s3.
          bind (if v_of (cells s3 ! c) = PBool True then m_run_statements self funcdef stmts s3
                else (case else_stmts of
                        None \<Rightarrow> Ok (res, False) s3
                      | Some es \<Rightarrow>
                          (if es \<noteq> [] then m_run_statements self funcdef es s3
                           else Ok (res, False) s3))) (\<lambda>r s4.
          bind (exit_block s4) (\<lambda>u s5. Ok r s5))))))"

definition while_loop ::
  "Interpreter \<Rightarrow> Function \<Rightarrow> expr \<Rightarrow> stmt list \<Rightarrow> addr \<Rightarrow> state \<Rightarrow> (addr \<times> bool) result" where
  "while_loop self funcdef cond stmts res s =
     bind (m_eval_expr self cond s) (\<lambda>c s1.
       (if t_of (cells s1 ! c) \<noteq> T_BOOL then Fail (Error TYPE_ERROR) s1
        else if v_of (cells s1 ! c) \<noteq> PBool True then Ok (res, False) s1
        else
          bind (enter_block s1) (\<lambda>u s2.
          bind (m_run_statements self funcdef stmts s2) (\<lambda>r s3.
          bind (exit_block s3) (\<lambda>u s4.
            (if snd r then Ok r s4 else m_while_loop self funcdef cond stmts (fst r) s4))))))"

definition run_while ::
  "Interpreter \<Rightarrow> Function \<Rightarrow> expr \<Rightarrow> stmt list \<Rightarrow> state \<Rightarrow> (addr \<times> bool) result" where
  "run_while self funcdef cond stmts s =
     bind (new_Value (return_type funcdef) PyNone s) (\<lambda>res s1.
     while_loop self funcdef cond stmts res s1)"

definition run_return ::
  "Interpreter \<Rightarrow> Function \<Rightarrow> expr option \<Rightarrow> state \<Rightarrow> (addr \<times> bool) result" where
  "run_return self funcdef e s =
     (case e of
        None \<Rightarrow> bind (new_Value (return_type funcdef) PyNone s) (\<lambda>res s1. Ok (res, True) s1)
      | Some e1 \<Rightarrow>
          bind (m_eval_expr self e1 s) (\<lambda>result_val s1.
            (if t_of (cells s1 ! result_val) \<noteq> return_type funcdef then Fail (Error TYPE_ERROR) s1
             else Ok (result_val, True) s1)))"

text \<open>\<^verbatim>\<open>__run_statements\<close>, with its loop over the statements.\<close>

fun statements_loop ::
  "Interpreter \<Rightarrow> Function \<Rightarrow> stmt list \<Rightarrow> addr \<Rightarrow> state \<Rightarrow> (addr \<times> bool) result" where
  "statements_loop self funcdef [] res s = Ok (res, False) s"
| "statements_loop self funcdef (statement # rest) res s =
     (case statement of
        VAR_DEF_NODE vname \<Rightarrow>
          bind (run_vardef vname False s) (\<lambda>u s1. statements_loop self funcdef rest res s1)
      | BVAR_DEF_NODE vname \<Rightarrow>
          bind (run_vardef vname True s) (\<lambda>u s1. statements_loop self funcdef rest res s1)
      | ASSIGN vname e \<Rightarrow>
          bind (run_assign self vname e s) (\<lambda>u s1. statements_loop self funcdef rest res s1)
      | FCALL_STMT fcall_name args \<Rightarrow>
          bind (run_fcall self fcall_name args s) (\<lambda>u s1. statements_loop self funcdef rest res s1)
      | IF_NODE cond stmts else_stmts \<Rightarrow>
          bind (run_if self funcdef cond stmts else_stmts s) (\<lambda>r s1.
            (if snd r then Ok r s1 else statements_loop self funcdef rest (fst r) s1))
      | WHILE_NODE cond stmts \<Rightarrow>
          bind (run_while self funcdef cond stmts s) (\<lambda>r s1.
            (if snd r then Ok r s1 else statements_loop self funcdef rest (fst r) s1))
      | RETURN_NODE e \<Rightarrow> run_return self funcdef e s)"

definition run_statements ::
  "Interpreter \<Rightarrow> Function \<Rightarrow> stmt list \<Rightarrow> state \<Rightarrow> (addr \<times> bool) result" where
  "run_statements self funcdef stmts s =
     bind (new_Value (return_type funcdef) PyNone s) (\<lambda>res s1.
     statements_loop self funcdef stmts res s1)"

text \<open>The interpreter with \<open>n\<close> units of depth left.\<close>

primrec interpreter :: "nat \<Rightarrow> Interpreter" where
  "interpreter 0 =
     \<lparr> m_eval_expr = (\<lambda>e s. OutOfFuel),
       m_run_statements = (\<lambda>funcdef stmts s. OutOfFuel),
       m_while_loop = (\<lambda>funcdef cond stmts res s. OutOfFuel) \<rparr>"
| "interpreter (Suc n) =
     \<lparr> m_eval_expr = eval_expr (interpreter n),
       m_run_statements = run_statements (interpreter n),
       m_while_loop = while_loop (interpreter n) \<rparr>"

text \<open>\<^verbatim>\<open>Interpreter.run\<close> on a parsed program, with the lines of input it may read.\<close>

definition run :: "nat \<Rightarrow> program \<Rightarrow> string list \<Rightarrow> addr result" where
  "run n ast inp =
     bind (create_interface_table ast (init_state inp)) (\<lambda>u s1.
     bind (create_function_table ast s1) (\<lambda>u s2.
     run_fcall (interpreter n) ''main'' [] s2))"

text \<open>
  What a run shows to the outside: the failure that ended it, if any, and the lines
  written; \<open>None\<close> when the run did not finish within the given depth.
\<close>

definition outcome :: "'a result \<Rightarrow> (failure option \<times> string list) option" where
  "outcome r =
     (case r of
        Ok x s \<Rightarrow> Some (None, out_lines s)
      | Fail e s \<Rightarrow> Some (Some e, out_lines s)
      | OutOfFuel \<Rightarrow> None)"

subsection \<open>Frames\<close>

text \<open>
  What a statement may change of the environment: the frames below the current one are
  kept, and so is the number of blocks of the current frame (a definition adds a name to
  one of them). The function table is built once and kept. An interpreter keeps the
  frames when every evaluation that returns leaves the environment as it was, and every
  run of statements that returns keeps the frame in this sense.
\<close>

definition keeps_frame :: "state \<Rightarrow> state \<Rightarrow> bool" where
  "keeps_frame s s' \<longleftrightarrow>
     funcs s' = funcs s \<and> butlast (env s') = butlast (env s)
     \<and> length (env s') = length (env s) \<and> length (last (env s')) = length (last (env s))"

definition keeps_frames :: "Interpreter \<Rightarrow> bool" where
  "keeps_frames self \<longleftrightarrow>
     (\<forall>e s r s'. m_eval_expr self e s = Ok r s' \<longrightarrow> env s' = env s \<and> funcs s' = funcs s)
     \<and> (\<forall>fd st s r s'. m_run_statements self fd st s = Ok r s' \<longrightarrow> keeps_frame s s')
     \<and> (\<forall>fd c st res s r s'. m_while_loop self fd c st res s = Ok r s' \<longrightarrow> keeps_frame s s')"

section \<open>Example states and programs\<close>

text \<open>
  A state inside \<^verbatim>\<open>main\<close> of a program that declares \<^verbatim>\<open>gf()\<close> once and \<^verbatim>\<open>hf\<close>
  twice, \<^verbatim>\<open>hf(xi)\<close> and \<^verbatim>\<open>hf(xs)\<close>, after \<^verbatim>\<open>var gf;\<close> and \<^verbatim>\<open>var hf;\<close>.
\<close>

definition names_state :: state where
  "names_state =
     \<lparr> cells = [Value T_VOID PyNone, Value T_FUNCTION PyNone, Value T_FUNCTION PyNone],
       dicts = [],
       fobjs = [Function_init ''gf'' [] [], Function_init ''hf'' [(''xi'', False)] [],
                Function_init ''hf'' [(''xs'', False)] [], Function_init ''main'' [] []],
       env = [[[(''gf'', 1), (''hf'', 2)]]],
       funcs = [((''gf'', []), 0), ((''hf'', ''i''), 1), ((''hf'', ''s''), 2), ((''main'', []), 3)],
       interfaces = [],
       out_lines = [],
       inp_lines = [] \<rparr>"



text \<open>
  A state inside a nested block of a function that has defined \<^verbatim>\<open>xi\<close> at function
  scope.
\<close>

definition scope_state :: state where
  "scope_state =
     \<lparr> cells = [Value T_VOID PyNone, Value T_INT (PInt 0)],
       dicts = [],
       fobjs = [Function_init ''main'' [] []],
       env = [[[(''xi'', 1)], []]],
       funcs = [((''main'', []), 0)],
       interfaces = [],
       out_lines = [],
       inp_lines = [] \<rparr>"

text \<open>
  The program \<^verbatim>\<open>def F(&xi){ xi = xi + 1; } def main(){ var ti; ti = 5; F(ti); print(ti); }\<close>
  for a function name \<^verbatim>\<open>F\<close>.
\<close>

definition bump_program :: "string \<Rightarrow> program" where
  "bump_program fname =
     \<lparr> p_interfaces = None,
       p_functions =
         [\<lparr> f_name = fname, f_args = [(''xi'', True)],
            f_statements = [ASSIGN ''xi'' (BOP ''+'' (QUALIFIED_NAME_NODE ''xi'') (INT_NODE 1))] \<rparr>,
          \<lparr> f_name = ''main'', f_args = [],
            f_statements =
              [VAR_DEF_NODE ''ti'',
               ASSIGN ''ti'' (INT_NODE 5),
               FCALL_STMT fname [QUALIFIED_NAME_NODE ''ti''],
               FCALL_STMT ''print'' [QUALIFIED_NAME_NODE ''ti'']] \<rparr>] \<rparr>"

text \<open>\<^verbatim>\<open>def main(){ var ao; ao.mf(); }\<close> and \<^verbatim>\<open>def main(){ var ao; print(ao.xi); }\<close>.\<close>

definition nil_method_program :: program where
  "nil_method_program =
     \<lparr> p_interfaces = None,
       p_functions =
         [\<lparr> f_name = ''main'', f_args = [],
            f_statements = [VAR_DEF_NODE ''ao'', FCALL_STMT ''ao.mf'' []] \<rparr>] \<rparr>"

definition nil_field_program :: program where
  "nil_field_program =
     \<lparr> p_interfaces = None,
       p_functions =
         [\<lparr> f_name = ''main'', f_args = [],
            f_statements = [VAR_DEF_NODE ''ao'', FCALL_STMT ''print'' [QUALIFIED_NAME_NODE ''ao.xi'']] \<rparr>] \<rparr>"


text \<open>
  \<^verbatim>\<open>def main(){ var xi; xi = 1; if (true) { bvar xi; xi = 2; print(xi); } print(xi); var xi; }\<close>
\<close>

definition scoping_program :: program where
  "scoping_program =
     \<lparr> p_interfaces = None,
       p_functions =
         [\<lparr> f_name = ''main'', f_args = [],
            f_statements =
              [VAR_DEF_NODE ''xi'',
               ASSIGN ''xi'' (INT_NODE 1),
               IF_NODE (BOOL_NODE True)
                 [BVAR_DEF_NODE ''xi'', ASSIGN ''xi'' (INT_NODE 2),
                  FCALL_STMT ''print'' [QUALIFIED_NAME_NODE ''xi'']] None,
               FCALL_STMT ''print'' [QUALIFIED_NAME_NODE ''xi''],
               VAR_DEF_NODE ''xi''] \<rparr>] \<rparr>"

text \<open>
  A state inside \<^verbatim>\<open>main\<close> of a program that declares \<^verbatim>\<open>fi(xi)\<close>, returning 1, and
  \<^verbatim>\<open>fi(xi, yi)\<close>, returning 2.
\<close>

definition overload_state :: state where
  "overload_state =
     \<lparr> cells = [Value T_VOID PyNone],
       dicts = [],
       fobjs = [Function_init ''fi'' [(''xi'', False)] [RETURN_NODE (Some (INT_NODE 1))],
                Function_init ''fi'' [(''xi'', False), (''yi'', False)] [RETURN_NODE (Some (INT_NODE 2))],
                Function_init ''main'' [] []],
       env = [[[]]],
       funcs = [((''fi'', ''i''), 0), ((''fi'', ''ii''), 1), ((''main'', []), 2)],
       interfaces = [],
       out_lines = [],
       inp_lines = [] \<rparr>"

text \<open>
  The body \<^verbatim>\<open>xi = xi + 1;\<close>, and a state inside \<^verbatim>\<open>main\<close> where \<^verbatim>\<open>ti\<close> holds 5,
  \<^verbatim>\<open>ff\<close> holds the lambda \<^verbatim>\<open>lambda(&xi){ xi = xi + 1; }\<close> made when only \<^verbatim>\<open>ff\<close> was
  defined, and the object \<^verbatim>\<open>ao\<close> holds that lambda in its field \<^verbatim>\<open>mf\<close>; the function
  \<^verbatim>\<open>bumpv\<close> of the program above is declared.
\<close>

definition bump_body :: "stmt list" where
  "bump_body = [ASSIGN ''xi'' (BOP ''+'' (QUALIFIED_NAME_NODE ''xi'') (INT_NODE 1))]"

definition call_state :: state where
  "call_state =
     \<lparr> cells = [Value T_VOID PyNone, Value T_INT (PInt 5), Value T_FUNCTION (PFunc 2),
                Value T_FUNCTION PyNone, Value T_OBJECT (PDict 0), Value T_FUNCTION (PFunc 2)],
       dicts = [[(''mf'', 5)]],
       fobjs = [Function_init ''bumpv'' [(''xi'', True)] bump_body,
                Function_init ''main'' [] [],
                (Function_init ''lambdav'' [(''xi'', True)] bump_body)
                  \<lparr>captured_vars := Some [(''ff'', 3)]\<rparr>],
       env = [[[(''ff'', 2), (''ti'', 1), (''ao'', 4)]]],
       funcs = [((''bumpv'', ''i''), 0), ((''main'', []), 1)],
       interfaces = [],
       out_lines = [],
       inp_lines = [] \<rparr>"

text \<open>
  \<^verbatim>\<open>def main(){ var ff; ff = lambda(&xi){ xi = xi + 1; }; var ti; ti = 5; ff(ti); print(ti); }\<close>
  and the same with the lambda held by the field \<^verbatim>\<open>mf\<close> of an object and called as
  \<^verbatim>\<open>ao.mf(ti)\<close>.
\<close>

definition lambda_bump_program :: program where
  "lambda_bump_program =
     \<lparr> p_interfaces = None,
       p_functions =
         [\<lparr> f_name = ''main'', f_args = [],
            f_statements =
              [VAR_DEF_NODE ''ff'',
               ASSIGN ''ff'' (FUNC_NODE ''lambdav'' [(''xi'', True)] bump_body),
               VAR_DEF_NODE ''ti'',
               ASSIGN ''ti'' (INT_NODE 5),
               FCALL_STMT ''ff'' [QUALIFIED_NAME_NODE ''ti''],
               FCALL_STMT ''print'' [QUALIFIED_NAME_NODE ''ti'']] \<rparr>] \<rparr>"

definition method_bump_program :: program where
  "method_bump_program =
     \<lparr> p_interfaces = None,
       p_functions =
         [\<lparr> f_name = ''main'', f_args = [],
            f_statements =
              [VAR_DEF_NODE ''ao'',
               ASSIGN ''ao'' EMPTY_OBJ_NODE,
               ASSIGN ''ao.mf'' (FUNC_NODE ''lambdav'' [(''xi'', True)] bump_body),
               VAR_DEF_NODE ''ti'',
               ASSIGN ''ti'' (INT_NODE 5),
               FCALL_STMT ''ao.mf'' [QUALIFIED_NAME_NODE ''ti''],
               FCALL_STMT ''print'' [QUALIFIED_NAME_NODE ''ti'']] \<rparr>] \<rparr>"

text \<open>
  \<^verbatim>\<open>def F(){ return; } def setv(&pf){ pf = lambda(){ print(2); }; }\<close>
  \<^verbatim>\<open>def main(){ var hf; hf = lambda(){ print(1); }; setv(hf); hf(); }\<close>
  for a function name \<^verbatim>\<open>F\<close>.
\<close>

definition shadowed_variable_program :: "string \<Rightarrow> program" where
  "shadowed_variable_program fname =
     \<lparr> p_interfaces = None,
       p_functions =
         [\<lparr> f_name = fname, f_args = [], f_statements = [RETURN_NODE None] \<rparr>,
          \<lparr> f_name = ''setv'', f_args = [(''pf'', True)],
            f_statements =
              [ASSIGN ''pf'' (FUNC_NODE ''lambdav'' [] [FCALL_STMT ''print'' [INT_NODE 2]])] \<rparr>,
          \<lparr> f_name = ''main'', f_args = [],
            f_statements =
              [VAR_DEF_NODE ''hf'',
               ASSIGN ''hf'' (FUNC_NODE ''lambdav'' [] [FCALL_STMT ''print'' [INT_NODE 1]]),
               FCALL_STMT ''setv'' [QUALIFIED_NAME_NODE ''hf''],
               FCALL_STMT ''hf'' []] \<rparr>] \<rparr>"

text \<open>
  \<^verbatim>\<open>def setv(&xi, xi){ xi = 7; } def main(){ var ti; setv(ti, 1); print(ti); }\<close>: two
  parameters of one name, the first by reference; the descriptor's dict holds the name
  once, with the flag of the second.
\<close>

definition duplicate_parameter_program :: program where
  "duplicate_parameter_program =
     \<lparr> p_interfaces = None,
       p_functions =
         [\<lparr> f_name = ''setv'', f_args = [(''xi'', True), (''xi'', False)],
            f_statements = [ASSIGN ''xi'' (INT_NODE 7)] \<rparr>,
          \<lparr> f_name = ''main'', f_args = [],
            f_statements =
              [VAR_DEF_NODE ''ti'',
               FCALL_STMT ''setv'' [QUALIFIED_NAME_NODE ''ti'', INT_NODE 1],
               FCALL_STMT ''print'' [QUALIFIED_NAME_NODE ''ti'']] \<rparr>] \<rparr>"

text \<open>
  \<^verbatim>\<open>def main(){ var xi; var ff; ff = lambda(&xi){ xi = xi + 1; }; xi = 5; ff(xi); print(xi); }\<close>:
  the lambda captures \<^verbatim>\<open>xi\<close>.
\<close>

definition captured_name_program :: program where
  "captured_name_program =
     \<lparr> p_interfaces = None,
       p_functions =
         [\<lparr> f_name = ''main'', f_args = [],
            f_statements =
              [VAR_DEF_NODE ''xi'',
               VAR_DEF_NODE ''ff'',
               ASSIGN ''ff'' (FUNC_NODE ''lambdav'' [(''xi'', True)] bump_body),
               ASSIGN ''xi'' (INT_NODE 5),
               FCALL_STMT ''ff'' [QUALIFIED_NAME_NODE ''xi''],
               FCALL_STMT ''print'' [QUALIFIED_NAME_NODE ''xi'']] \<rparr>] \<rparr>"

text \<open>
  \<^verbatim>\<open>def main(){ var ao; ao = @; ao.mf = lambda(&selfo){ selfo = nil; };\<close>
  \<^verbatim>\<open>  var bo; bo = @; ao.mf(bo); print(bo == nil); }\<close>
\<close>

definition selfo_parameter_program :: program where
  "selfo_parameter_program =
     \<lparr> p_interfaces = None,
       p_functions =
         [\<lparr> f_name = ''main'', f_args = [],
            f_statements =
              [VAR_DEF_NODE ''ao'',
               ASSIGN ''ao'' EMPTY_OBJ_NODE,
               ASSIGN ''ao.mf'' (FUNC_NODE ''lambdav'' [(''selfo'', True)] [ASSIGN ''selfo'' NIL_NODE]),
               VAR_DEF_NODE ''bo'',
               ASSIGN ''bo'' EMPTY_OBJ_NODE,
               FCALL_STMT ''ao.mf'' [QUALIFIED_NAME_NODE ''bo''],
               FCALL_STMT ''print'' [BOP ''=='' (QUALIFIED_NAME_NODE ''bo'') NIL_NODE]] \<rparr>] \<rparr>"


text \<open>
  \<^verbatim>\<open>def main(){ var xi; var ao; var ff; ao = @; ao.ni = 1; xi = 1;\<close>
  \<^verbatim>\<open>  ff = lambda(){ print(xi); print(ao.ni); ao.ni = 9; };\<close>
  \<^verbatim>\<open>  xi = 2; ao.ni = 5; ff(); print(xi); print(ao.ni); }\<close>
\<close>

definition closure_program :: program where
  "closure_program =
     \<lparr> p_interfaces = None,
       p_functions =
         [\<lparr> f_name = ''main'', f_args = [],
            f_statements =
              [VAR_DEF_NODE ''xi'', VAR_DEF_NODE ''ao'', VAR_DEF_NODE ''ff'',
               ASSIGN ''ao'' EMPTY_OBJ_NODE,
               ASSIGN ''ao.ni'' (INT_NODE 1),
               ASSIGN ''xi'' (INT_NODE 1),
               ASSIGN ''ff'' (FUNC_NODE ''lambdav'' []
                  [FCALL_STMT ''print'' [QUALIFIED_NAME_NODE ''xi''],
                   FCALL_STMT ''print'' [QUALIFIED_NAME_NODE ''ao.ni''],
                   ASSIGN ''ao.ni'' (INT_NODE 9)]),
               ASSIGN ''xi'' (INT_NODE 2),
               ASSIGN ''ao.ni'' (INT_NODE 5),
               FCALL_STMT ''ff'' [],
               FCALL_STMT ''print'' [QUALIFIED_NAME_NODE ''xi''],
               FCALL_STMT ''print'' [QUALIFIED_NAME_NODE ''ao.ni'']] \<rparr>] \<rparr>"

text \<open>
  A state inside \<^verbatim>\<open>main\<close> after \<^verbatim>\<open>var xi; var ao; ao = @; ao.ni = 1; xi = 1;\<close>,
  with one more wrapper that holds 2.
\<close>

definition closure_state :: state where
  "closure_state =
     \<lparr> cells = [Value T_VOID PyNone, Value T_INT (PInt 1), Value T_OBJECT (PDict 0),
                Value T_INT (PInt 1), Value T_INT (PInt 2)],
       dicts = [[(''ni'', 3)]],
       fobjs = [Function_init ''main'' [] []],
       env = [[[(''xi'', 1), (''ao'', 2)]]],
       funcs = [((''main'', []), 0)],
       interfaces = [],
       out_lines = [],
       inp_lines = [] \<rparr>"

text \<open>
  \<^verbatim>\<open>def main(){ gi(print()); }\<close>: the argument of the call evaluates to the Void
  wrapper, and no function named \<^verbatim>\<open>gi\<close> is declared.
\<close>

definition void_argument_program :: program where
  "void_argument_program =
     \<lparr> p_interfaces = None,
       p_functions =
         [\<lparr> f_name = ''main'', f_args = [],
            f_statements = [FCALL_STMT ''gi'' [FCALL_NODE ''print'' []]] \<rparr>] \<rparr>"



section \<open>Basic facts\<close>

lemma bind_Ok [simp]: "bind (Ok x s) f = f x s"
  by (simp add: bind_def)

lemma bind_Fail [simp]: "bind (Fail e s) f = Fail e s"
  by (simp add: bind_def)

lemma bind_OutOfFuel [simp]: "bind OutOfFuel f = OutOfFuel"
  by (simp add: bind_def)

text \<open>Only the first argument of \<open>bind\<close> is rewritten: evaluation runs the steps in order.\<close>

lemma bind_weak_cong [cong]: "m = m' \<Longrightarrow> bind m f = bind m' f"
  by simp

lemma lift_simps [simp]: "lift (Inl e) s = Fail e s" "lift (Inr x) s = Ok x s"
  by (simp_all add: lift_def)

lemma lift_weak_cong [cong]: "r = r' \<Longrightarrow> lift r s = lift r' s"
  by simp

lemma split_dot_no_dot: "CHR ''.'' \<notin> set n \<Longrightarrow> split_dot n = [n]"
  by (induction n) auto

lemma split_dot_not_Nil: "split_dot n \<noteq> []"
  by (induction n) (auto split: list.splits)

lemma map_of_key_present: "key \<in> set (map fst d) \<Longrightarrow> \<exists>f. map_of d key = Some f"
  by (induction d) auto

lemma map_of_dict_set: "map_of (dict_set k x d) = (map_of d)(k \<mapsto> x)"
  by (induction d) (auto simp: fun_eq_iff)





lemma get_arguments_type_signature_letters:
  "get_arguments_type_signature vals = Inr sig \<Longrightarrow>
     sig = map (\<lambda>x. if t_of x = T_INT then CHR ''i'' else if t_of x = T_STRING then CHR ''s''
                     else if t_of x = T_BOOL then CHR ''b'' else if t_of x = T_OBJECT then CHR ''o''
                     else CHR ''f'') vals
     \<and> (\<forall>x \<in> set vals. t_of x \<noteq> T_VOID \<and> t_of x \<noteq> T_ERROR)"
  by (induction vals arbitrary: sig) (auto simp: Let_def split: if_splits sum.splits)

text \<open>Binding of the parameters in a new frame, and lookup of a plain variable.\<close>

lemma bind_formals_binds:
  "env s \<noteq> [] \<Longrightarrow> last (env s) = [b] \<Longrightarrow>
   distinct (map fst formals) \<Longrightarrow> \<forall>f \<in> set formals. map_of b (fst f) = None \<Longrightarrow>
   \<exists>s' b'. bind_formals formals actuals s = Ok () s'
      \<and> env s' = butlast (env s) @ [[b']]
      \<and> (\<forall>k v. map_of b k = Some v \<longrightarrow> map_of b' k = Some v)
      \<and> (\<forall>i. i < length formals \<and> i < length actuals \<and> snd (formals ! i)
             \<longrightarrow> map_of b' (fst (formals ! i)) = Some (actuals ! i))"
proof (induction formals arbitrary: actuals s b)
  case Nil
  then have "env s = butlast (env s) @ [[b]]" by (metis append_butlast_last_id)
  then show ?case by auto
next
  case (Cons f fs)
  show ?case
  proof (cases actuals)
    case Nil
    from Cons.prems have "env s = butlast (env s) @ [[b]]" by (metis append_butlast_last_id)
    with Nil show ?thesis by auto
  next
    case (Cons a as)
    obtain a' s1 where cl: "clone_for_passing a (snd f) s = Ok a' s1"
      and e1: "env s1 = env s" and ar: "snd f \<longrightarrow> a' = a"
      by (cases "snd f") (auto simp: clone_for_passing_def copy_Value_def alloc_def)
    define s2 where "s2 = s1\<lparr>env := butlast (env s) @ [[dict_set (fst f) a' b]]\<rparr>"
    have nb: "map_of b (fst f) = None" using Cons.prems(4) by simp
    have fd: "fdef (fst f) a' s1 = Ok True s2"
      using Cons.prems(1,2) nb e1 by (simp add: fdef_def Let_def dict_in_def s2_def)
    have step: "bind_formals (f # fs) (a # as) s = bind_formals fs as s2"
      using cl fd by simp
    have p1: "env s2 \<noteq> []" and p2: "last (env s2) = [dict_set (fst f) a' b]"
      by (simp_all add: s2_def)
    have p3: "distinct (map fst fs)" using Cons.prems(3) by simp
    have p4: "\<forall>g \<in> set fs. map_of (dict_set (fst f) a' b) (fst g) = None"
    proof
      fix g assume g: "g \<in> set fs"
      then have "fst g \<in> set (map fst fs)" by simp
      moreover have "fst f \<notin> set (map fst fs)" using Cons.prems(3) by simp
      ultimately have "fst g \<noteq> fst f" by metis
      with g Cons.prems(4) show "map_of (dict_set (fst f) a' b) (fst g) = None"
        by (simp add: map_of_dict_set)
    qed
    from Cons.IH [OF p1 p2 p3 p4, of as] obtain s' b' where
      r: "bind_formals fs as s2 = Ok () s'"
      and e': "env s' = butlast (env s2) @ [[b']]"
      and ext: "\<forall>k v. map_of (dict_set (fst f) a' b) k = Some v \<longrightarrow> map_of b' k = Some v"
      and refs: "\<forall>i. i < length fs \<and> i < length as \<and> snd (fs ! i)
                   \<longrightarrow> map_of b' (fst (fs ! i)) = Some (as ! i)"
      by blast
    have "env s' = butlast (env s) @ [[b']]" using e' by (simp add: s2_def butlast_append)
    moreover have "\<forall>k v. map_of b k = Some v \<longrightarrow> map_of b' k = Some v"
    proof (intro allI impI)
      fix k v assume kv: "map_of b k = Some v"
      with nb have "k \<noteq> fst f" by auto
      with kv have "map_of (dict_set (fst f) a' b) k = Some v" by (simp add: map_of_dict_set)
      with ext show "map_of b' k = Some v" by blast
    qed
    moreover have "\<forall>i. i < length (f # fs) \<and> i < length (a # as) \<and> snd ((f # fs) ! i) \<longrightarrow>
        map_of b' (fst ((f # fs) ! i)) = Some ((a # as) ! i)"
    proof (intro allI impI)
      fix i assume h: "i < length (f # fs) \<and> i < length (a # as) \<and> snd ((f # fs) ! i)"
      show "map_of b' (fst ((f # fs) ! i)) = Some ((a # as) ! i)"
      proof (cases i)
        case 0
        have "map_of (dict_set (fst f) a' b) (fst f) = Some a'" by (simp add: map_of_dict_set)
        with ext have "map_of b' (fst f) = Some a'" by blast
        with 0 ar h show ?thesis by simp
      next
        case (Suc j)
        with refs h show ?thesis by simp
      qed
    qed
    ultimately show ?thesis using step r Cons by auto
  qed
qed

lemma get_in_None: "\<forall>bl \<in> set bs. \<not> dict_in x bl \<Longrightarrow> get_in x bs = None"
  by (induction bs) auto

lemma get_var_value_variable:
  assumes "CHR ''.'' \<notin> set x" "filter (\<lambda>k. fst k = x) (map fst (funcs s)) = []"
    and "get x s = Ok (Some a) s"
  shows "get_var_value x s = Ok a s"
proof -
  from assms(3) have ne: "env s \<noteq> []" and g: "get_in x (rev (last (env s))) = Some a"
    by (auto simp: get_def split: if_splits)
  have "list_ex (dict_in x) (last (env s))"
  proof (rule ccontr)
    assume "\<not> list_ex (dict_in x) (last (env s))"
    then have "\<forall>bl \<in> set (rev (last (env s))). \<not> dict_in x bl" by (simp add: list_ex_iff)
    from get_in_None [OF this] g show False by simp
  qed
  then show ?thesis
    using assms ne unfolding get_var_value_def Let_def
    by (simp add: split_dot_no_dot exists_def del: length_filter_map)
qed



lemma get_Some_exists: "get x s = Ok (Some a) s \<Longrightarrow> exists x s = Ok True s"
proof -
  assume g: "get x s = Ok (Some a) s"
  then have ne: "env s \<noteq> []" and gi: "get_in x (rev (last (env s))) = Some a"
    by (auto simp: get_def split: if_splits)
  have "list_ex (dict_in x) (last (env s))"
  proof (rule ccontr)
    assume "\<not> list_ex (dict_in x) (last (env s))"
    then have "\<forall>bl \<in> set (rev (last (env s))). \<not> dict_in x bl" by (simp add: list_ex_iff)
    from get_in_None [OF this] gi show False by simp
  qed
  with ne show ?thesis by (simp add: exists_def)
qed

text \<open>The snapshot of a lambda: what \<^verbatim>\<open>capture_vars\<close> collects and the loop copies.\<close>

lemma fold_items_map_of:
  "distinct (map fst b) \<Longrightarrow>
     map_of (foldl (\<lambda>c item. dict_set (fst item) (snd item) c) acc b) x
       = (case map_of b x of Some v \<Rightarrow> Some v | None \<Rightarrow> map_of acc x)"
proof (induction b arbitrary: acc)
  case Nil
  show ?case by simp
next
  case (Cons item b)
  have d: "distinct (map fst b)" and nk: "fst item \<notin> set (map fst b)"
    using Cons.prems by simp_all
  have none: "map_of b (fst item) = None"
    using nk by (simp add: map_of_eq_None_iff)
  show ?case
  proof (cases "x = fst item")
    case True
    with Cons.IH [OF d, of "dict_set (fst item) (snd item) acc"] none show ?thesis
      by (simp add: map_of_dict_set)
  next
    case False
    with Cons.IH [OF d, of "dict_set (fst item) (snd item) acc"] show ?thesis
      by (simp add: map_of_dict_set split: option.splits)
  qed
qed

lemma fold_blocks_map_of:
  "\<forall>b \<in> set frame. distinct (map fst b) \<Longrightarrow>
     map_of (foldl (\<lambda>captured b. foldl (\<lambda>c item. dict_set (fst item) (snd item) c) captured b)
               acc frame) x
       = (case get_in x (rev frame) of Some a \<Rightarrow> Some a | None \<Rightarrow> map_of acc x)"
proof (induction frame rule: rev_induct)
  case Nil
  show ?case by simp
next
  case (snoc b frame)
  have db: "distinct (map fst b)" and df: "\<forall>b \<in> set frame. distinct (map fst b)"
    using snoc.prems by simp_all
  show ?case
    using snoc.IH [OF df] fold_items_map_of [OF db]
    by (auto simp: dict_in_def split: option.splits)
qed

lemma distinct_dict_set: "distinct (map fst d) \<Longrightarrow> distinct (map fst (dict_set k x d))"
proof (induction d)
  case Nil
  show ?case by simp
next
  case (Cons p d)
  have "set (map fst (dict_set k x d)) \<subseteq> insert k (set (map fst d))"
    by (induction d) auto
  with Cons show ?case by auto
qed

lemma distinct_fold_items:
  "distinct (map fst acc) \<Longrightarrow>
     distinct (map fst (foldl (\<lambda>c item. dict_set (fst item) (snd item) c) acc b))"
  by (induction b arbitrary: acc) (simp_all add: distinct_dict_set)

lemma distinct_fold_blocks:
  "distinct (map fst acc) \<Longrightarrow>
     distinct (map fst (foldl (\<lambda>captured b. foldl (\<lambda>c item. dict_set (fst item) (snd item) c) captured b)
               acc frame))"
  by (induction frame arbitrary: acc) (simp_all add: distinct_fold_items)

lemma capture_cell:
  "a < length (cells s) \<Longrightarrow>
   (if t_of (cells s ! a) = T_INT \<or> t_of (cells s ! a) = T_STRING \<or> t_of (cells s ! a) = T_BOOL
    then copy_Value a s
    else if t_of (cells s ! a) = T_OBJECT \<or> t_of (cells s ! a) = T_FUNCTION
    then new_Value (t_of (cells s ! a)) (v_of (cells s ! a)) s
    else copy_Value a s)
   = Ok (length (cells s)) (s\<lparr>cells := cells s @ [cells s ! a]\<rparr>)"
  by (cases "cells s ! a")
     (auto simp: copy_Value_def new_Value_def init_Value_def default_value_for_type_def alloc_def)

lemma capture_loop_result:
  "distinct (map fst items) \<Longrightarrow> \<forall>it \<in> set items. snd it < length (cells s) \<Longrightarrow>
   \<exists>cv s'. capture_loop items acc s = Ok cv s'
      \<and> cells s' = cells s @ map (\<lambda>it. cells s ! snd it) items
      \<and> dicts s' = dicts s \<and> env s' = env s \<and> fobjs s' = fobjs s
      \<and> funcs s' = funcs s \<and> out_lines s' = out_lines s
      \<and> (\<forall>i < length items. map_of cv (fst (items ! i)) = Some (length (cells s) + i))
      \<and> (\<forall>x. x \<notin> set (map fst items) \<longrightarrow> map_of cv x = map_of acc x)"
proof (induction items arbitrary: acc s)
  case Nil
  show ?case by simp
next
  case (Cons item items)
  define s1 where "s1 = s\<lparr>cells := cells s @ [cells s ! snd item]\<rparr>"
  define acc1 where "acc1 = dict_set (fst item) (length (cells s)) acc"
  have va: "snd item < length (cells s)" using Cons.prems(2) by simp
  have step: "capture_loop (item # items) acc s = capture_loop items acc1 s1"
    using capture_cell [OF va] by (simp add: Let_def s1_def acc1_def)
  have d: "distinct (map fst items)" and nk: "fst item \<notin> set (map fst items)"
    using Cons.prems(1) by simp_all
  have v1: "\<forall>it \<in> set items. snd it < length (cells s1)"
    using Cons.prems(2) by (auto simp: s1_def)
  from Cons.IH [OF d v1, of acc1] obtain cv s' where
    r: "capture_loop items acc1 s1 = Ok cv s'"
    and c: "cells s' = cells s1 @ map (\<lambda>it. cells s1 ! snd it) items"
    and o: "dicts s' = dicts s1" "env s' = env s1" "fobjs s' = fobjs s1"
           "funcs s' = funcs s1" "out_lines s' = out_lines s1"
    and ix: "\<forall>i < length items. map_of cv (fst (items ! i)) = Some (length (cells s1) + i)"
    and rest: "\<forall>x. x \<notin> set (map fst items) \<longrightarrow> map_of cv x = map_of acc1 x"
    by blast
  have same: "map (\<lambda>it. cells s1 ! snd it) items = map (\<lambda>it. cells s ! snd it) items"
    using Cons.prems(2) by (simp add: s1_def nth_append)
  have c': "cells s' = cells s @ map (\<lambda>it. cells s ! snd it) (item # items)"
    using c same by (simp add: s1_def)
  have ix': "\<forall>i < length (item # items).
               map_of cv (fst ((item # items) ! i)) = Some (length (cells s) + i)"
  proof (intro allI impI)
    fix i assume i: "i < length (item # items)"
    show "map_of cv (fst ((item # items) ! i)) = Some (length (cells s) + i)"
    proof (cases i)
      case 0
      from rest nk have "map_of cv (fst item) = map_of acc1 (fst item)" by blast
      with 0 show ?thesis by (simp add: acc1_def map_of_dict_set)
    next
      case (Suc j)
      with i ix show ?thesis by (simp add: s1_def)
    qed
  qed
  have rest': "\<forall>x. x \<notin> set (map fst (item # items)) \<longrightarrow> map_of cv x = map_of acc x"
  proof (intro allI impI)
    fix x assume x: "x \<notin> set (map fst (item # items))"
    then have "x \<notin> set (map fst items)" and "x \<noteq> fst item" by auto
    with rest show "map_of cv x = map_of acc x" by (simp add: acc1_def map_of_dict_set)
  qed
  from step r c' o ix' rest' show ?case by (simp add: s1_def)
qed


lemma setitem_then_getitem:
  assumes "v_of (cells s ! p) = PDict d" "v_of (cells s ! q) = PDict d" "d < length (dicts s)"
  shows "\<exists>s''. py_setitem (v_of (cells s ! p)) key w s = Ok () s''
           \<and> py_getitem (v_of (cells s'' ! q)) key s'' = Inr w"
  using assms by (simp add: py_setitem_def py_getitem_def map_of_dict_set)

text \<open>
  Evaluation of a run on a concrete program: one unit of depth is used at each call
  through \<open>self\<close>, and the definitions of the methods are unfolded.
\<close>

lemma m_eval_expr_step:
  "m_eval_expr (interpreter (numeral k)) = eval_expr (interpreter (pred_numeral k))"
  by (simp add: numeral_eq_Suc)

lemma m_run_statements_step:
  "m_run_statements (interpreter (numeral k)) = run_statements (interpreter (pred_numeral k))"
  by (simp add: numeral_eq_Suc)

lemma m_while_loop_step:
  "m_while_loop (interpreter (numeral k)) = while_loop (interpreter (pred_numeral k))"
  by (simp add: numeral_eq_Suc)

lemma m_step_one:
  "m_eval_expr (interpreter 1) = eval_expr (interpreter 0)"
  "m_run_statements (interpreter 1) = run_statements (interpreter 0)"
  "m_while_loop (interpreter 1) = while_loop (interpreter 0)"
  using interpreter.simps(2) [of 0] by simp_all

lemmas interpreter_steps = m_eval_expr_step m_run_statements_step m_while_loop_step m_step_one

lemmas run_defs = run_def create_interface_table_def create_function_table_def init_state_def
  get_parameters_type_signature_def Function_init_def get_type_def isupper_def dict_in_def
  run_fcall_def find_function_def get_function_def enter_func_def exit_func_def
  enter_block_def exit_block_def run_method_call_def find_method_def call_function_value_def
  py_contains_def py_getitem_def py_setitem_def
  clone_for_passing_def fdef_def bdef_def exists_def get_def run_statements_def run_vardef_def
  new_Value_def init_Value_def default_value_for_type_def alloc_def run_assign_def eval_expr_def
  assign_rvalue_def assign_check_def get_interface_name_def Value_set_def get_var_value_def
  run_if_def run_while_def while_loop_def run_return_def
  bops_def eval_binary_op_def handle_print_def str_payload_def str_int_def str_nat.simps lower_def
  copy_Value_def create_lambda_def capture_vars_def outcome_def Let_def

text \<open>
  An ordinary call, once its arguments are evaluated: the signature, the lookup, the
  interface check of the actual arguments, the new frame, the parameters, the body.
\<close>

lemma run_fcall_ordinary:
  assumes "fcall_name \<noteq> ''inputi''" "fcall_name \<noteq> ''inputs''" "fcall_name \<noteq> ''print''"
    and "CHR ''.'' \<notin> set fcall_name"
    and "\<forall>a. env s \<noteq> [] \<and> get_in fcall_name (rev (last (env s))) = Some a
             \<longrightarrow> t_of (cells s ! a) \<noteq> T_FUNCTION"
    and "eval_args self args s = Ok actual_args s1"
  shows "run_fcall self fcall_name args s =
      bind (lift (get_arguments_type_signature (map (\<lambda>a. cells s1 ! a) actual_args)) s1)
        (\<lambda>args_type_sig s2.
      bind (lift (find_function fcall_name args_type_sig s2) s2) (\<lambda>f s3.
        bind (lift (check_interface_args (formal_args (fobjs s3 ! f)) actual_args s3) s3) (\<lambda>u s4.
        bind (enter_func s4) (\<lambda>u s5.
        bind (bind_formals (formal_args (fobjs s3 ! f)) actual_args s5) (\<lambda>u s6.
        bind (m_run_statements self (fobjs s3 ! f) (statements (fobjs s3 ! f)) s6) (\<lambda>r s7.
        bind (exit_func s7) (\<lambda>u s8. Ok (fst r) s8)))))))"
  unfolding run_fcall_def Let_def using assms by auto

text \<open>
  A call through a function value, once its arguments are evaluated and counted: the check
  of the actual arguments, the new frame, the captured variables, the parameters, the body.
\<close>

lemma call_function_value_checks:
  assumes "eval_args self args s = Ok actual_args s1"
    and "get_arguments_type_signature (map (\<lambda>a. cells s1 ! a) actual_args) = Inr sg"
    and "length actual_args = length (formal_args (fobjs s1 ! f))"
  shows "call_function_value self (PFunc f) args selfo s =
      bind (lift (check_actuals (formal_args (fobjs s1 ! f)) actual_args s1) s1) (\<lambda>u s3.
      bind (enter_func s3) (\<lambda>u s4.
      bind (case selfo of None \<Rightarrow> Ok False s4 | Some so \<Rightarrow> fdef ''selfo'' so s4) (\<lambda>u s5.
      bind (case captured_vars (fobjs s1 ! f) of None \<Rightarrow> Ok () s5
            | Some cv \<Rightarrow> define_captured cv s5) (\<lambda>u s6.
      bind (bind_formals_shadowing (formal_args (fobjs s1 ! f)) actual_args s6) (\<lambda>u s7.
      bind (m_run_statements self (fobjs s1 ! f) (statements (fobjs s1 ! f)) s7) (\<lambda>r s8.
      bind (exit_func s8) (\<lambda>u s9. Ok (fst r) s9)))))))"
  unfolding call_function_value_def Let_def using assms by simp

text \<open>The signature of evaluated arguments: a Void argument is refused, any other has a letter.\<close>

lemma get_arguments_type_signature_void:
  "\<forall>x \<in> set vals. t_of x \<noteq> T_ERROR \<Longrightarrow> \<exists>x \<in> set vals. t_of x = T_VOID \<Longrightarrow>
     get_arguments_type_signature vals = Inl (Error TYPE_ERROR)"
proof (induction vals)
  case Nil
  then show ?case by simp
next
  case (Cons v vals)
  show ?case
  proof (cases "t_of v = T_VOID")
    case True
    then show ?thesis by (simp add: Let_def)
  next
    case False
    with Cons.prems have "\<exists>x \<in> set vals. t_of x = T_VOID" "\<forall>x \<in> set vals. t_of x \<noteq> T_ERROR"
      "t_of v \<noteq> T_ERROR" by auto
    with Cons.IH False show ?thesis by (simp add: Let_def)
  qed
qed

lemma get_arguments_type_signature_ok:
  "\<forall>x \<in> set vals. t_of x \<noteq> T_ERROR \<and> t_of x \<noteq> T_VOID \<Longrightarrow>
     get_arguments_type_signature vals =
       Inr (map (\<lambda>x. if t_of x = T_INT then CHR ''i'' else if t_of x = T_STRING then CHR ''s''
                     else if t_of x = T_BOOL then CHR ''b'' else if t_of x = T_OBJECT then CHR ''o''
                     else CHR ''f'') vals)"
  by (induction vals) (simp_all add: Let_def)






text \<open>
  What a call that returns leaves of the environment. First the steps that do not go
  through \<open>self\<close>.
\<close>

lemma bind_OkE:
  assumes "bind m f = Ok r s'"
  obtains x s1 where "m = Ok x s1" "f x s1 = Ok r s'"
  using assms by (cases m) (auto simp: bind_def)

lemma lift_Ok_iff: "lift r s = Ok x s' \<longleftrightarrow> r = Inr x \<and> s' = s"
  by (cases r) auto

lemma keeps_frame_refl: "env s' = env s \<Longrightarrow> funcs s' = funcs s \<Longrightarrow> keeps_frame s s'"
  by (simp add: keeps_frame_def)

lemma keeps_frame_trans: "keeps_frame s s1 \<Longrightarrow> keeps_frame s1 s2 \<Longrightarrow> keeps_frame s s2"
  by (simp add: keeps_frame_def)

lemma alloc_env: "alloc v s = Ok a s' \<Longrightarrow> env s' = env s \<and> funcs s' = funcs s"
  by (auto simp: alloc_def)

lemma new_Value_env: "new_Value ty pv s = Ok a s' \<Longrightarrow> env s' = env s \<and> funcs s' = funcs s"
  by (auto simp: new_Value_def alloc_def split: sum.splits)

lemma copy_Value_env: "copy_Value a s = Ok r s' \<Longrightarrow> env s' = env s \<and> funcs s' = funcs s"
  by (auto simp: copy_Value_def alloc_def)

lemma exists_Ok: "exists x s = Ok r s' \<Longrightarrow> s' = s"
  by (auto simp: exists_def split: if_splits)

lemma get_Ok: "get x s = Ok r s' \<Longrightarrow> s' = s"
  by (auto simp: get_def split: if_splits)

lemma get_var_value_env:
  "get_var_value x s = Ok a s' \<Longrightarrow> env s' = env s \<and> funcs s' = funcs s"
  unfolding get_var_value_def Let_def
  by (auto elim!: bind_OkE simp: lift_Ok_iff dest!: exists_Ok get_Ok new_Value_env
        split: if_splits option.splits)

lemma py_setitem_env: "py_setitem d k v s = Ok r s' \<Longrightarrow> env s' = env s \<and> funcs s' = funcs s"
  by (auto simp: py_setitem_def split: payload.splits if_splits)

lemma assign_rvalue_env:
  "assign_rvalue x rv s = Ok u s' \<Longrightarrow> env s' = env s \<and> funcs s' = funcs s"
  unfolding assign_rvalue_def Let_def
  by (auto elim!: bind_OkE simp: lift_Ok_iff dest!: exists_Ok get_Ok new_Value_env py_setitem_env
        simp: Value_set_def split: if_splits option.splits)

lemma convert_value_env:
  "convert_value t v s = Ok a s' \<Longrightarrow> env s' = env s \<and> funcs s' = funcs s"
  unfolding convert_value_def Let_def
  by (auto dest!: new_Value_env split: if_splits option.splits payload.splits)

lemma capture_loop_env:
  "capture_loop items c s = Ok r s' \<Longrightarrow> env s' = env s \<and> funcs s' = funcs s"
proof (induction items arbitrary: c s)
  case Nil
  then show ?case by simp
next
  case (Cons item rest)
  from Cons.prems show ?case
    by (auto simp: Let_def elim!: bind_OkE simp: lift_Ok_iff dest!: copy_Value_env new_Value_env Cons.IH
          split: if_splits)
qed

lemma create_lambda_env:
  "create_lambda n ps st s = Ok a s' \<Longrightarrow> env s' = env s \<and> funcs s' = funcs s"
  unfolding create_lambda_def Let_def capture_vars_def
  by (auto elim!: bind_OkE simp: lift_Ok_iff dest!: capture_loop_env new_Value_env split: if_splits)

lemma fdef_frame: "fdef x a s = Ok r s' \<Longrightarrow> keeps_frame s s'"
  by (auto simp: fdef_def Let_def keeps_frame_def split: if_splits)

lemma bdef_frame: "bdef x a s = Ok r s' \<Longrightarrow> keeps_frame s s'"
  by (auto simp: bdef_def Let_def keeps_frame_def split: if_splits)

lemma run_vardef_frame: "run_vardef x b s = Ok r s' \<Longrightarrow> keeps_frame s s'"
  unfolding run_vardef_def Let_def
  by (auto elim!: bind_OkE simp: lift_Ok_iff dest!: new_Value_env fdef_frame bdef_frame
        simp: keeps_frame_def split: if_splits)

lemma clone_for_passing_env:
  "clone_for_passing a r s = Ok a' s' \<Longrightarrow> env s' = env s \<and> funcs s' = funcs s"
  by (auto simp: clone_for_passing_def dest!: copy_Value_env split: if_splits)

lemma bind_formals_frame: "bind_formals fs as s = Ok u s' \<Longrightarrow> keeps_frame s s'"
proof (induction fs arbitrary: as s)
  case Nil
  then show ?case by (simp add: keeps_frame_def)
next
  case (Cons formal formals)
  show ?case
  proof (cases as)
    case Nil
    with Cons.prems show ?thesis by (simp add: keeps_frame_def)
  next
    case (Cons actual actual_args)
    with Cons.prems obtain a s1 ok s2 where
      "clone_for_passing actual (snd formal) s = Ok a s1" "fdef (fst formal) a s1 = Ok ok s2"
      "bind_formals formals actual_args s2 = Ok u s'"
      by (auto elim!: bind_OkE simp: lift_Ok_iff)
    then have "env s1 = env s \<and> funcs s1 = funcs s" "keeps_frame s1 s2" "keeps_frame s2 s'"
      using clone_for_passing_env fdef_frame Cons.IH by blast+
    then show ?thesis by (simp add: keeps_frame_def)
  qed
qed

lemma define_captured_frame: "define_captured cv s = Ok u s' \<Longrightarrow> keeps_frame s s'"
proof (induction cv arbitrary: s)
  case Nil
  then show ?case by (simp add: keeps_frame_def)
next
  case (Cons item rest)
  from Cons.prems obtain ok s1 where "fdef (fst item) (snd item) s = Ok ok s1"
    "define_captured rest s1 = Ok u s'"
    by (auto elim!: bind_OkE simp: lift_Ok_iff)
  then have "keeps_frame s s1" "keeps_frame s1 s'"
    using fdef_frame Cons.IH by blast+
  then show ?case by (rule keeps_frame_trans)
qed

lemma bind_formals_shadowing_frame:
  "bind_formals_shadowing fs as s = Ok u s' \<Longrightarrow> keeps_frame s s'"
proof (induction fs arbitrary: as s)
  case Nil
  then show ?case by (simp add: keeps_frame_def)
next
  case (Cons formal formals)
  show ?case
  proof (cases as)
    case Nil
    with Cons.prems show ?thesis by (simp add: keeps_frame_def)
  next
    case (Cons actual actual_args)
    with Cons.prems obtain a s1 ex s2 s4 where
      c: "clone_for_passing actual (snd formal) s = Ok a s1"
      and e: "exists (fst formal) s1 = Ok ex s2"
      and m: "(if ex then
             bind (get (fst formal) s2) (\<lambda>shadowed_val s3.
               (case shadowed_val of
                  None \<Rightarrow> Fail (Uncaught PyAttributeError) s3
                | Some sv \<Rightarrow> Ok () (Value_set sv a s3)))
           else bind (fdef (fst formal) a s2) (\<lambda>ok s3. Ok () s3)) = Ok () s4"
      and r: "bind_formals_shadowing formals actual_args s4 = Ok u s'"
      by (auto elim!: bind_OkE simp: lift_Ok_iff)
    from c have 1: "env s1 = env s \<and> funcs s1 = funcs s" by (rule clone_for_passing_env)
    from e have 2: "s2 = s1" by (rule exists_Ok)
    from m have 3: "keeps_frame s2 s4"
      by (auto elim!: bind_OkE simp: lift_Ok_iff dest!: get_Ok fdef_frame
            simp: keeps_frame_def Value_set_def split: if_splits option.splits)
    from r have 4: "keeps_frame s4 s'" by (rule Cons.IH)
    from 1 2 3 4 show ?thesis by (simp add: keeps_frame_def)
  qed
qed

lemma find_method_Ok: "find_method p s = Ok m s' \<Longrightarrow> s' = s"
  unfolding find_method_def Let_def
  by (auto elim!: bind_OkE simp: lift_Ok_iff dest!: exists_Ok get_Ok split: if_splits option.splits)

text \<open>
  Then the methods of the evaluator, for an interpreter that keeps the frames, and the
  interpreter of every depth.
\<close>

lemma keeps_frames_eval:
  "keeps_frames self \<Longrightarrow> m_eval_expr self e s = Ok r s' \<Longrightarrow> env s' = env s \<and> funcs s' = funcs s"
  unfolding keeps_frames_def by blast

lemma keeps_frames_statements:
  "keeps_frames self \<Longrightarrow> m_run_statements self fd st s = Ok r s' \<Longrightarrow> keeps_frame s s'"
  unfolding keeps_frames_def by blast

lemma keeps_frames_while:
  "keeps_frames self \<Longrightarrow> m_while_loop self fd c st res s = Ok r s' \<Longrightarrow> keeps_frame s s'"
  unfolding keeps_frames_def by blast

lemma eval_args_env:
  assumes "keeps_frames self"
  shows "eval_args self args s = Ok r s' \<Longrightarrow> env s' = env s \<and> funcs s' = funcs s"
proof (induction args arbitrary: s r)
  case Nil
  then show ?case by simp
next
  case (Cons a rest)
  from Cons.prems obtain v s1 vs where "m_eval_expr self a s = Ok v s1"
    "eval_args self rest s1 = Ok vs s'"
    by (auto elim!: bind_OkE simp: lift_Ok_iff)
  then have "env s1 = env s \<and> funcs s1 = funcs s" "env s' = env s1 \<and> funcs s' = funcs s1"
    using keeps_frames_eval [OF assms] Cons.IH by blast+
  then show ?case by simp
qed

lemma print_loop_env:
  assumes "keeps_frames self"
  shows "print_loop self args out s = Ok r s' \<Longrightarrow> env s' = env s \<and> funcs s' = funcs s"
proof (induction args arbitrary: out s)
  case Nil
  then show ?case by simp
next
  case (Cons a rest)
  from Cons.prems obtain c s1 out' where "m_eval_expr self a s = Ok c s1"
    "print_loop self rest out' s1 = Ok r s'"
    by (auto elim!: bind_OkE simp: lift_Ok_iff split: if_splits)
  then have "env s1 = env s \<and> funcs s1 = funcs s" "env s' = env s1 \<and> funcs s' = funcs s1"
    using keeps_frames_eval [OF assms] Cons.IH by blast+
  then show ?case by simp
qed

lemma handle_print_env:
  assumes "keeps_frames self" "handle_print self args s = Ok r s'"
  shows "env s' = env s \<and> funcs s' = funcs s"
proof -
  from assms(2) obtain out s1 where p: "print_loop self args [] s = Ok out s1"
    and n: "new_Value T_VOID PyNone (s1\<lparr>out_lines := out_lines s1 @ [out]\<rparr>) = Ok r s'"
    unfolding handle_print_def by (auto elim!: bind_OkE simp: lift_Ok_iff)
  from print_loop_env [OF assms(1) p] new_Value_env [OF n] show ?thesis by simp
qed

lemma handle_input_env:
  assumes "keeps_frames self" "handle_input self fname args s = Ok r s'"
  shows "env s' = env s \<and> funcs s' = funcs s"
proof -
  from assms(2) obtain u s1 where p: "(if args \<noteq> [] then handle_print self args s else Ok 0 s) = Ok u s1"
    and n: "(case inp_lines s1 of
           [] \<Rightarrow> Fail (Uncaught PyException) s1
         | res # remaining \<Rightarrow>
             (if fname = ''inputi'' then
                (case int_of_str res of
                   None \<Rightarrow> Fail (Uncaught PyValueError) (s1\<lparr>inp_lines := remaining\<rparr>)
                 | Some i \<Rightarrow> new_Value T_INT (PInt i) (s1\<lparr>inp_lines := remaining\<rparr>))
              else new_Value T_STRING (PStr res) (s1\<lparr>inp_lines := remaining\<rparr>))) = Ok r s'"
    unfolding handle_input_def by (auto elim!: bind_OkE simp: lift_Ok_iff split: if_splits)
  from p have 1: "env s1 = env s \<and> funcs s1 = funcs s"
    using handle_print_env [OF assms(1)] by (auto split: if_splits)
  from n have 2: "env s' = env s1 \<and> funcs s' = funcs s1"
    by (auto dest!: new_Value_env split: list.splits if_splits option.splits)
  from 1 2 show ?thesis by simp
qed

lemma enter_func_Ok: "enter_func s = Ok u s' \<Longrightarrow> s' = s\<lparr>env := env s @ [[[]]]\<rparr>"
  by (auto simp: enter_func_def)

lemma exit_func_Ok: "exit_func s = Ok u s' \<Longrightarrow> env s \<noteq> [] \<and> s' = s\<lparr>env := butlast (env s)\<rparr>"
  by (auto simp: exit_func_def split: if_splits)

lemma call_function_value_env:
  assumes "keeps_frames self" "call_function_value self fo args selfo s = Ok r s'"
  shows "env s' = env s \<and> funcs s' = funcs s"
proof -
  from assms(2) obtain actual_args s1 f s4 u5 s5 s6 s7 r8 s8 where
    ea: "eval_args self args s = Ok actual_args s1"
    and ef: "enter_func s1 = Ok () s4"
    and so: "(case selfo of None \<Rightarrow> Ok False s4 | Some so \<Rightarrow> fdef ''selfo'' so s4) = Ok u5 s5"
    and dc: "(case captured_vars (fobjs s1 ! f) of None \<Rightarrow> Ok () s5
              | Some cv \<Rightarrow> define_captured cv s5) = Ok () s6"
    and bf: "bind_formals_shadowing (formal_args (fobjs s1 ! f)) actual_args s6 = Ok () s7"
    and st: "m_run_statements self (fobjs s1 ! f) (statements (fobjs s1 ! f)) s7 = Ok r8 s8"
    and ex: "exit_func s8 = Ok () s'"
    unfolding call_function_value_def Let_def
    by (auto elim!: bind_OkE simp: lift_Ok_iff split: payload.splits if_splits)
  from eval_args_env [OF assms(1) ea] have 1: "env s1 = env s \<and> funcs s1 = funcs s" .
  from enter_func_Ok [OF ef] have 4: "env s4 = env s1 @ [[[]]]" "funcs s4 = funcs s1" by simp_all
  from so have 5: "keeps_frame s4 s5"
    by (auto dest!: fdef_frame simp: keeps_frame_def split: option.splits)
  from dc have 6: "keeps_frame s5 s6"
    by (auto dest!: define_captured_frame simp: keeps_frame_def split: option.splits)
  from bf have 7: "keeps_frame s6 s7" by (rule bind_formals_shadowing_frame)
  from st have 8: "keeps_frame s7 s8" by (rule keeps_frames_statements [OF assms(1)])
  from 5 6 7 8 have "keeps_frame s4 s8" by (blast intro: keeps_frame_trans)
  with 4 have "butlast (env s8) = env s1" "funcs s8 = funcs s1" by (simp_all add: keeps_frame_def)
  with exit_func_Ok [OF ex] 1 show ?thesis by simp
qed

lemma run_method_call_env:
  assumes "keeps_frames self" "run_method_call self p args s = Ok r s'"
  shows "env s' = env s \<and> funcs s' = funcs s"
proof -
  from assms(2) obtain m s1 where f: "find_method p s = Ok m s1"
    and c: "call_function_value self (snd m) args (Some (fst m)) s1 = Ok r s'"
    unfolding run_method_call_def by (auto elim!: bind_OkE simp: lift_Ok_iff)
  from find_method_Ok [OF f] call_function_value_env [OF assms(1) c] show ?thesis by simp
qed

lemma run_fcall_env:
  assumes "keeps_frames self" "run_fcall self fname args s = Ok r s'"
  shows "env s' = env s \<and> funcs s' = funcs s"
proof -
  consider (inp) "fname = ''inputi'' \<or> fname = ''inputs''"
    | (prt) "\<not> (fname = ''inputi'' \<or> fname = ''inputs'')" "fname = ''print''"
    | (mth) "\<not> (fname = ''inputi'' \<or> fname = ''inputs'')" "fname \<noteq> ''print''" "CHR ''.'' \<in> set fname"
    | (fv) "\<not> (fname = ''inputi'' \<or> fname = ''inputs'')" "fname \<noteq> ''print''" "CHR ''.'' \<notin> set fname"
        "(if env s \<noteq> [] then get_in fname (rev (last (env s))) else None) \<noteq> None
          \<and> t_of (cells s ! the (if env s \<noteq> [] then get_in fname (rev (last (env s))) else None)) = T_FUNCTION"
    | (ord) "\<not> (fname = ''inputi'' \<or> fname = ''inputs'')" "fname \<noteq> ''print''" "CHR ''.'' \<notin> set fname"
        "\<not> ((if env s \<noteq> [] then get_in fname (rev (last (env s))) else None) \<noteq> None
          \<and> t_of (cells s ! the (if env s \<noteq> [] then get_in fname (rev (last (env s))) else None)) = T_FUNCTION)"
    by blast
  then show ?thesis
  proof cases
    case inp
    with assms(2) have "handle_input self fname args s = Ok r s'" by (simp add: run_fcall_def)
    then show ?thesis by (rule handle_input_env [OF assms(1)])
  next
    case prt
    with assms(2) have "handle_print self args s = Ok r s'" by (simp add: run_fcall_def)
    then show ?thesis by (rule handle_print_env [OF assms(1)])
  next
    case mth
    with assms(2) have "run_method_call self fname args s = Ok r s'" by (simp add: run_fcall_def)
    then show ?thesis by (rule run_method_call_env [OF assms(1)])
  next
    case fv
    with assms(2) obtain fo where "call_function_value self fo args None s = Ok r s'"
      unfolding run_fcall_def Let_def by (auto split: if_splits)
    then show ?thesis by (rule call_function_value_env [OF assms(1)])
  next
    case ord
    with assms(2) obtain actual_args s1 f s5 s6 r7 s7 where
      ea: "eval_args self args s = Ok actual_args s1"
      and ef: "enter_func s1 = Ok () s5"
      and bf: "bind_formals (formal_args (fobjs s1 ! f)) actual_args s5 = Ok () s6"
      and st: "m_run_statements self (fobjs s1 ! f) (statements (fobjs s1 ! f)) s6 = Ok r7 s7"
      and ex: "exit_func s7 = Ok () s'"
      unfolding run_fcall_def Let_def
      by (auto elim!: bind_OkE simp: lift_Ok_iff split: if_splits)
    from eval_args_env [OF assms(1) ea] have 1: "env s1 = env s \<and> funcs s1 = funcs s" .
    from enter_func_Ok [OF ef] have 4: "env s5 = env s1 @ [[[]]]" "funcs s5 = funcs s1" by simp_all
    from bf have 6: "keeps_frame s5 s6" by (rule bind_formals_frame)
    from st have 7: "keeps_frame s6 s7" by (rule keeps_frames_statements [OF assms(1)])
    from 6 7 have "keeps_frame s5 s7" by (rule keeps_frame_trans)
    with 4 have "butlast (env s7) = env s1" "funcs s7 = funcs s1" by (simp_all add: keeps_frame_def)
    with exit_func_Ok [OF ex] 1 show ?thesis by simp
  qed
qed

lemma eval_expr_env:
  assumes "keeps_frames self" "eval_expr self e s = Ok r s'"
  shows "env s' = env s \<and> funcs s' = funcs s"
proof (cases e)
  case (FCALL_NODE fname args)
  with assms(2) have "run_fcall self fname args s = Ok r s'" by (simp add: eval_expr_def)
  then show ?thesis by (rule run_fcall_env [OF assms(1)])
next
  case (BOP kind op1 op2)
  with assms(2) obtain l s1 r2 s2 x where "m_eval_expr self op1 s = Ok l s1"
    "m_eval_expr self op2 s1 = Ok r2 s2" "alloc x s2 = Ok r s'"
    by (auto simp: eval_expr_def elim!: bind_OkE simp: lift_Ok_iff split: if_splits)
  then have "env s1 = env s \<and> funcs s1 = funcs s" "env s2 = env s1 \<and> funcs s2 = funcs s1"
    "env s' = env s2 \<and> funcs s' = funcs s2"
    using keeps_frames_eval [OF assms(1)] alloc_env by blast+
  then show ?thesis by simp
next
  case (NEG_NODE op1)
  with assms(2) obtain v s1 i where "m_eval_expr self op1 s = Ok v s1"
    "new_Value T_INT (PInt i) s1 = Ok r s'"
    by (auto simp: eval_expr_def elim!: bind_OkE simp: lift_Ok_iff split: if_splits payload.splits)
  then have "env s1 = env s \<and> funcs s1 = funcs s" "env s' = env s1 \<and> funcs s' = funcs s1"
    using keeps_frames_eval [OF assms(1)] new_Value_env by blast+
  then show ?thesis by simp
next
  case (NOT_NODE op1)
  with assms(2) obtain v s1 b where "m_eval_expr self op1 s = Ok v s1"
    "new_Value T_BOOL (PBool b) s1 = Ok r s'"
    by (auto simp: eval_expr_def elim!: bind_OkE simp: lift_Ok_iff split: if_splits)
  then have "env s1 = env s \<and> funcs s1 = funcs s" "env s' = env s1 \<and> funcs s' = funcs s1"
    using keeps_frames_eval [OF assms(1)] new_Value_env by blast+
  then show ?thesis by simp
next
  case (CONVERT_NODE to_type e1)
  with assms(2) obtain v s1 where "m_eval_expr self e1 s = Ok v s1"
    "convert_value to_type v s1 = Ok r s'"
    by (auto simp: eval_expr_def elim!: bind_OkE simp: lift_Ok_iff)
  then have "env s1 = env s \<and> funcs s1 = funcs s" "env s' = env s1 \<and> funcs s' = funcs s1"
    using keeps_frames_eval [OF assms(1)] convert_value_env by blast+
  then show ?thesis by simp
qed (use assms(2) in \<open>auto simp: eval_expr_def dest!: new_Value_env get_var_value_env create_lambda_env\<close>)

lemma run_assign_env:
  assumes "keeps_frames self" "run_assign self x e s = Ok u s'"
  shows "env s' = env s \<and> funcs s' = funcs s"
proof -
  from assms(2) obtain rv s1 where "m_eval_expr self e s = Ok rv s1" "assign_rvalue x rv s1 = Ok u s'"
    unfolding run_assign_def by (auto elim!: bind_OkE simp: lift_Ok_iff)
  then have "env s1 = env s \<and> funcs s1 = funcs s" "env s' = env s1 \<and> funcs s' = funcs s1"
    using keeps_frames_eval [OF assms(1)] assign_rvalue_env by blast+
  then show ?thesis by simp
qed

lemma enter_block_Ok:
  "enter_block s = Ok u s' \<Longrightarrow> env s \<noteq> [] \<and> s' = s\<lparr>env := butlast (env s) @ [last (env s) @ [[]]]\<rparr>"
  by (auto simp: enter_block_def split: if_splits)

lemma exit_block_Ok:
  "exit_block s = Ok u s' \<Longrightarrow>
     env s \<noteq> [] \<and> last (env s) \<noteq> [] \<and> s' = s\<lparr>env := butlast (env s) @ [butlast (last (env s))]\<rparr>"
  by (auto simp: exit_block_def split: if_splits)

lemma block_frame:
  assumes "enter_block s1 = Ok u s2" "env s3 = env s2 \<and> funcs s3 = funcs s2"
    "keeps_frame s3 s4" "exit_block s4 = Ok u' s5"
  shows "keeps_frame s1 s5"
  using enter_block_Ok [OF assms(1)] exit_block_Ok [OF assms(4)] assms(2,3)
  by (auto simp: keeps_frame_def)

lemma run_if_frame:
  assumes "keeps_frames self" "run_if self fd cond stmts else_stmts s = Ok r s'"
  shows "keeps_frame s s'"
proof -
  from assms(2) obtain c s1 s2 res s3 r4 s4 where
    ev: "m_eval_expr self cond s = Ok c s1"
    and en: "enter_block s1 = Ok () s2"
    and nv: "new_Value (return_type fd) PyNone s2 = Ok res s3"
    and body: "(if v_of (cells s3 ! c) = PBool True then m_run_statements self fd stmts s3
                else (case else_stmts of
                        None \<Rightarrow> Ok (res, False) s3
                      | Some es \<Rightarrow>
                          (if es \<noteq> [] then m_run_statements self fd es s3
                           else Ok (res, False) s3))) = Ok r4 s4"
    and ex: "exit_block s4 = Ok () s'"
    unfolding run_if_def by (auto elim!: bind_OkE simp: lift_Ok_iff split: if_splits)
  from keeps_frames_eval [OF assms(1) ev] have 1: "env s1 = env s \<and> funcs s1 = funcs s" .
  from body have 4: "keeps_frame s3 s4"
    using keeps_frames_statements [OF assms(1)]
    by (auto simp: keeps_frame_refl split: if_splits option.splits)
  from block_frame [OF en new_Value_env [OF nv] 4 ex] have "keeps_frame s1 s'" .
  with 1 show ?thesis by (simp add: keeps_frame_def)
qed

lemma while_loop_frame:
  assumes "keeps_frames self" "while_loop self fd cond stmts res s = Ok r s'"
  shows "keeps_frame s s'"
proof -
  from assms(2) obtain c s1 where ev: "m_eval_expr self cond s = Ok c s1"
    and rest: "(if t_of (cells s1 ! c) \<noteq> T_BOOL then Fail (Error TYPE_ERROR) s1
        else if v_of (cells s1 ! c) \<noteq> PBool True then Ok (res, False) s1
        else
          bind (enter_block s1) (\<lambda>u s2.
          bind (m_run_statements self fd stmts s2) (\<lambda>r s3.
          bind (exit_block s3) (\<lambda>u s4.
            (if snd r then Ok r s4 else m_while_loop self fd cond stmts (fst r) s4))))) = Ok r s'"
    unfolding while_loop_def by (auto elim!: bind_OkE simp: lift_Ok_iff)
  from keeps_frames_eval [OF assms(1) ev] have 1: "env s1 = env s \<and> funcs s1 = funcs s" .
  have "keeps_frame s1 s'"
  proof (cases "v_of (cells s1 ! c) \<noteq> PBool True")
    case True
    with rest show ?thesis by (auto simp: keeps_frame_refl split: if_splits)
  next
    case False
    with rest obtain s2 r3 s3 s4 where en: "enter_block s1 = Ok () s2"
      and st: "m_run_statements self fd stmts s2 = Ok r3 s3"
      and ex: "exit_block s3 = Ok () s4"
      and nx: "(if snd r3 then Ok r3 s4 else m_while_loop self fd cond stmts (fst r3) s4) = Ok r s'"
      by (auto elim!: bind_OkE simp: lift_Ok_iff split: if_splits)
    have "env s2 = env s2 \<and> funcs s2 = funcs s2" by simp
    from block_frame [OF en this keeps_frames_statements [OF assms(1) st] ex]
    have a: "keeps_frame s1 s4" .
    from nx have b: "keeps_frame s4 s'"
      using keeps_frames_while [OF assms(1)] by (auto simp: keeps_frame_refl split: if_splits)
    from a b show ?thesis by (rule keeps_frame_trans)
  qed
  with 1 show ?thesis by (simp add: keeps_frame_def)
qed

lemma run_while_frame:
  assumes "keeps_frames self" "run_while self fd cond stmts s = Ok r s'"
  shows "keeps_frame s s'"
proof -
  from assms(2) obtain res s1 where nv: "new_Value (return_type fd) PyNone s = Ok res s1"
    and w: "while_loop self fd cond stmts res s1 = Ok r s'"
    unfolding run_while_def by (auto elim!: bind_OkE simp: lift_Ok_iff)
  from new_Value_env [OF nv] while_loop_frame [OF assms(1) w] show ?thesis
    by (simp add: keeps_frame_def)
qed

lemma run_return_frame:
  assumes "keeps_frames self" "run_return self fd e s = Ok r s'"
  shows "keeps_frame s s'"
proof (cases e)
  case None
  with assms(2) show ?thesis
    by (auto simp: run_return_def keeps_frame_def elim!: bind_OkE simp: lift_Ok_iff dest!: new_Value_env)
next
  case (Some e1)
  with assms(2) obtain v where "m_eval_expr self e1 s = Ok v s'"
    by (auto simp: run_return_def elim!: bind_OkE simp: lift_Ok_iff split: if_splits)
  from keeps_frames_eval [OF assms(1) this] show ?thesis by (simp add: keeps_frame_def)
qed

lemma statements_loop_frame:
  assumes "keeps_frames self"
  shows "statements_loop self fd stmts res s = Ok r s' \<Longrightarrow> keeps_frame s s'"
proof (induction stmts arbitrary: res s)
  case Nil
  then show ?case by (simp add: keeps_frame_def)
next
  case (Cons statement rest)
  show ?case
  proof (cases statement)
    case (VAR_DEF_NODE x)
    with Cons.prems obtain s1 where "run_vardef x False s = Ok () s1"
      "statements_loop self fd rest res s1 = Ok r s'"
      by (auto elim!: bind_OkE simp: lift_Ok_iff)
    then have "keeps_frame s s1" "keeps_frame s1 s'"
      using run_vardef_frame Cons.IH by blast+
    then show ?thesis by (rule keeps_frame_trans)
  next
    case (BVAR_DEF_NODE x)
    with Cons.prems obtain s1 where "run_vardef x True s = Ok () s1"
      "statements_loop self fd rest res s1 = Ok r s'"
      by (auto elim!: bind_OkE simp: lift_Ok_iff)
    then have "keeps_frame s s1" "keeps_frame s1 s'"
      using run_vardef_frame Cons.IH by blast+
    then show ?thesis by (rule keeps_frame_trans)
  next
    case (ASSIGN x e)
    with Cons.prems obtain s1 where a: "run_assign self x e s = Ok () s1"
      and b: "statements_loop self fd rest res s1 = Ok r s'"
      by (auto elim!: bind_OkE simp: lift_Ok_iff)
    from run_assign_env [OF assms a] have "keeps_frame s s1" by (simp add: keeps_frame_def)
    moreover from b have "keeps_frame s1 s'" by (rule Cons.IH)
    ultimately show ?thesis by (rule keeps_frame_trans)
  next
    case (FCALL_STMT fname args)
    with Cons.prems obtain u s1 where a: "run_fcall self fname args s = Ok u s1"
      and b: "statements_loop self fd rest res s1 = Ok r s'"
      by (auto elim!: bind_OkE simp: lift_Ok_iff)
    from run_fcall_env [OF assms a] have "keeps_frame s s1" by (simp add: keeps_frame_def)
    moreover from b have "keeps_frame s1 s'" by (rule Cons.IH)
    ultimately show ?thesis by (rule keeps_frame_trans)
  next
    case (IF_NODE cond stmts else_stmts)
    with Cons.prems obtain r1 s1 where a: "run_if self fd cond stmts else_stmts s = Ok r1 s1"
      and b: "(if snd r1 then Ok r1 s1 else statements_loop self fd rest (fst r1) s1) = Ok r s'"
      by (auto elim!: bind_OkE simp: lift_Ok_iff)
    from run_if_frame [OF assms a] have "keeps_frame s s1" .
    moreover from b have "keeps_frame s1 s'"
      using Cons.IH by (auto simp: keeps_frame_refl split: if_splits)
    ultimately show ?thesis by (rule keeps_frame_trans)
  next
    case (WHILE_NODE cond stmts)
    with Cons.prems obtain r1 s1 where a: "run_while self fd cond stmts s = Ok r1 s1"
      and b: "(if snd r1 then Ok r1 s1 else statements_loop self fd rest (fst r1) s1) = Ok r s'"
      by (auto elim!: bind_OkE simp: lift_Ok_iff)
    from run_while_frame [OF assms a] have "keeps_frame s s1" .
    moreover from b have "keeps_frame s1 s'"
      using Cons.IH by (auto simp: keeps_frame_refl split: if_splits)
    ultimately show ?thesis by (rule keeps_frame_trans)
  next
    case (RETURN_NODE e)
    with Cons.prems have "run_return self fd e s = Ok r s'" by simp
    then show ?thesis by (rule run_return_frame [OF assms])
  qed
qed

lemma run_statements_frame:
  assumes "keeps_frames self" "run_statements self fd stmts s = Ok r s'"
  shows "keeps_frame s s'"
proof -
  from assms(2) obtain res s1 where nv: "new_Value (return_type fd) PyNone s = Ok res s1"
    and w: "statements_loop self fd stmts res s1 = Ok r s'"
    unfolding run_statements_def by (auto elim!: bind_OkE simp: lift_Ok_iff)
  from new_Value_env [OF nv] statements_loop_frame [OF assms(1) w] show ?thesis
    by (simp add: keeps_frame_def)
qed

lemma keeps_frames_interpreter: "keeps_frames (interpreter n)"
proof (induction n)
  case 0
  show ?case by (simp add: keeps_frames_def)
next
  case (Suc n)
  show ?case
    unfolding keeps_frames_def
    using eval_expr_env [OF Suc] run_statements_frame [OF Suc] while_loop_frame [OF Suc]
    by simp
qed

text \<open>
  The evaluated arguments: an argument that is a plain variable, which no declared
  function is named after, yields the wrapper the environment holds for it, whatever the
  arguments before it are.
\<close>

lemma eval_args_nth:
  assumes "keeps_frames self"
  shows "eval_args self args s = Ok actual_args s1 \<Longrightarrow> i < length args \<Longrightarrow>
         length actual_args = length args
         \<and> (\<exists>st st'. env st = env s \<and> funcs st = funcs s
               \<and> m_eval_expr self (args ! i) st = Ok (actual_args ! i) st')"
proof (induction args arbitrary: s actual_args i)
  case Nil
  then show ?case by simp
next
  case (Cons a rest)
  from Cons.prems(1) obtain v sa vs where h: "m_eval_expr self a s = Ok v sa"
    and t: "eval_args self rest sa = Ok vs s1" and aa: "actual_args = v # vs"
    by (auto elim!: bind_OkE simp: lift_Ok_iff)
  from keeps_frames_eval [OF assms h] have e1: "env sa = env s \<and> funcs sa = funcs s" .
  have len: "length vs = length rest"
  proof (cases rest)
    case Nil
    with t show ?thesis by simp
  next
    case (Cons b bs)
    then have "0 < length rest" by simp
    from Cons.IH [OF t this] show ?thesis by simp
  qed
  show ?case
  proof (cases i)
    case 0
    with h aa len show ?thesis by auto
  next
    case (Suc j)
    with Cons.prems(2) have "j < length rest" by simp
    from Cons.IH [OF t this] e1 obtain st st' where "env st = env s \<and> funcs st = funcs s"
      "m_eval_expr self (rest ! j) st = Ok (vs ! j) st'"
      by auto
    with Suc aa len show ?thesis by auto
  qed
qed

lemma eval_args_variable:
  assumes "eval_args (interpreter n) args s = Ok actual_args s1"
    and "i < length args" "args ! i = QUALIFIED_NAME_NODE x"
    and "CHR ''.'' \<notin> set x" "filter (\<lambda>k. fst k = x) (map fst (funcs s)) = []"
    and "get x s = Ok (Some a) s"
  shows "actual_args ! i = a \<and> length actual_args = length args
         \<and> env s1 = env s \<and> funcs s1 = funcs s \<and> get x s1 = Ok (Some a) s1"
proof -
  from eval_args_nth [OF keeps_frames_interpreter assms(1,2)] assms(3)
  obtain st st' where len: "length actual_args = length args"
    and st: "env st = env s" "funcs st = funcs s"
    and ev: "m_eval_expr (interpreter n) (QUALIFIED_NAME_NODE x) st = Ok (actual_args ! i) st'"
    by auto
  from ev obtain k where "n = Suc k" by (cases n) auto
  with ev have gv: "get_var_value x st = Ok (actual_args ! i) st'" by (simp add: eval_expr_def)
  from assms(6) st have "get x st = Ok (Some a) st" by (auto simp: get_def split: if_splits)
  from get_var_value_variable [OF assms(4) _ this] assms(5) st
  have "get_var_value x st = Ok a st" by simp
  with gv have 1: "actual_args ! i = a" by simp
  from eval_args_env [OF keeps_frames_interpreter assms(1)]
  have 2: "env s1 = env s \<and> funcs s1 = funcs s" .
  with assms(6) have "get x s1 = Ok (Some a) s1" by (auto simp: get_def split: if_splits)
  with 1 2 len show ?thesis by simp
qed

text \<open>
  The frame of a call through a function value: the captured variables, then the
  parameters, where a by-reference parameter whose name is not yet defined is bound to
  the argument's wrapper.
\<close>

lemma define_captured_binds:
  "env s \<noteq> [] \<Longrightarrow> last (env s) = [b] \<Longrightarrow>
   \<exists>s' b'. define_captured cv s = Ok () s'
      \<and> env s' = butlast (env s) @ [[b']]
      \<and> (\<forall>k. map_of b k = None \<and> k \<notin> fst ` set cv \<longrightarrow> map_of b' k = None)"
proof (induction cv arbitrary: s b)
  case Nil
  then have "env s = butlast (env s) @ [[b]]" by (metis append_butlast_last_id)
  then show ?case by auto
next
  case (Cons item rest)
  obtain ok s1 b1 where fd: "fdef (fst item) (snd item) s = Ok ok s1"
    and e1: "env s1 = butlast (env s) @ [[b1]]"
    and k1: "\<forall>k. map_of b k = None \<and> k \<noteq> fst item \<longrightarrow> map_of b1 k = None"
  proof (cases "dict_in (fst item) b")
    case True
    from Cons.prems have "env s = butlast (env s) @ [[b]]" by (metis append_butlast_last_id)
    with True Cons.prems that [of False s b] show ?thesis
      by (simp add: fdef_def Let_def)
  next
    case False
    with Cons.prems
      that [of True "s\<lparr>env := butlast (env s) @ [[dict_set (fst item) (snd item) b]]\<rparr>"
              "dict_set (fst item) (snd item) b"]
    show ?thesis
      by (simp add: fdef_def Let_def map_of_dict_set)
  qed
  have p1: "env s1 \<noteq> []" and p2: "last (env s1) = [b1]" using e1 by simp_all
  from Cons.IH [OF p1 p2] obtain s' b' where
    r: "define_captured rest s1 = Ok () s'"
    and e': "env s' = butlast (env s1) @ [[b']]"
    and k': "\<forall>k. map_of b1 k = None \<and> k \<notin> fst ` set rest \<longrightarrow> map_of b' k = None"
    by blast
  have "define_captured (item # rest) s = Ok () s'" using fd r by simp
  moreover have "env s' = butlast (env s) @ [[b']]" using e' e1 by (simp add: butlast_append)
  moreover have "\<forall>k. map_of b k = None \<and> k \<notin> fst ` set (item # rest) \<longrightarrow> map_of b' k = None"
    using k1 k' by auto
  ultimately show ?case by blast
qed

lemma bind_formals_shadowing_binds:
  "env s \<noteq> [] \<Longrightarrow> last (env s) = [b] \<Longrightarrow> distinct (map fst formals) \<Longrightarrow>
   \<exists>s' b'. bind_formals_shadowing formals actuals s = Ok () s'
      \<and> env s' = butlast (env s) @ [[b']]
      \<and> (\<forall>k v. map_of b k = Some v \<longrightarrow> map_of b' k = Some v)
      \<and> (\<forall>i. i < length formals \<and> i < length actuals \<and> snd (formals ! i)
               \<and> map_of b (fst (formals ! i)) = None
             \<longrightarrow> map_of b' (fst (formals ! i)) = Some (actuals ! i))"
proof (induction formals arbitrary: actuals s b)
  case Nil
  then have "env s = butlast (env s) @ [[b]]" by (metis append_butlast_last_id)
  then show ?case by auto
next
  case (Cons f fs)
  from Cons.prems have es: "env s = butlast (env s) @ [[b]]" by (metis append_butlast_last_id)
  show ?case
  proof (cases actuals)
    case Nil
    with es show ?thesis by auto
  next
    case (Cons a as)
    obtain a' s1 where cl: "clone_for_passing a (snd f) s = Ok a' s1"
      and e1: "env s1 = env s" and ar: "snd f \<longrightarrow> a' = a"
      by (cases "snd f") (auto simp: clone_for_passing_def copy_Value_def alloc_def)
    have ex: "exists (fst f) s1 = Ok (dict_in (fst f) b) s1"
      using Cons.prems(1,2) e1 by (simp add: exists_def)
    obtain s4 b1 where
      mid: "(if dict_in (fst f) b then
             bind (get (fst f) s1) (\<lambda>shadowed_val s3.
               (case shadowed_val of
                  None \<Rightarrow> Fail (Uncaught PyAttributeError) s3
                | Some sv \<Rightarrow> Ok () (Value_set sv a' s3)))
           else bind (fdef (fst f) a' s1) (\<lambda>ok s3. Ok () s3)) = Ok () s4"
      and e4: "env s4 = butlast (env s) @ [[b1]]"
      and keep: "\<forall>k v. map_of b k = Some v \<longrightarrow> map_of b1 k = Some v"
      and fresh: "map_of b (fst f) = None \<longrightarrow> map_of b1 (fst f) = Some a'"
      and other: "\<forall>k. k \<noteq> fst f \<longrightarrow> map_of b1 k = map_of b k"
    proof (cases "dict_in (fst f) b")
      case True
      then obtain sv where sv: "map_of b (fst f) = Some sv" by (auto simp: dict_in_def)
      with True Cons.prems(1,2) e1 have "get (fst f) s1 = Ok (Some sv) s1"
        by (simp add: get_def)
      with True sv es e1 that [of "Value_set sv a' s1" b] show ?thesis
        by (simp add: Value_set_def)
    next
      case False
      then have nb: "map_of b (fst f) = None" by (simp add: dict_in_def)
      define s2 where "s2 = s1\<lparr>env := butlast (env s) @ [[dict_set (fst f) a' b]]\<rparr>"
      have fd: "fdef (fst f) a' s1 = Ok True s2"
        using Cons.prems(1,2) False e1 by (simp add: fdef_def Let_def s2_def)
      have "\<forall>k v. map_of b k = Some v \<longrightarrow> map_of (dict_set (fst f) a' b) k = Some v"
        using nb by (auto simp: map_of_dict_set)
      with False fd that [of s2 "dict_set (fst f) a' b"] show ?thesis
        by (simp add: s2_def map_of_dict_set)
    qed
    have step: "bind_formals_shadowing (f # fs) (a # as) s = bind_formals_shadowing fs as s4"
      using cl ex mid by simp
    have p1: "env s4 \<noteq> []" and p2: "last (env s4) = [b1]" using e4 by simp_all
    have p3: "distinct (map fst fs)" using Cons.prems(3) by simp
    from Cons.IH [OF p1 p2 p3, of as] obtain s' b' where
      r: "bind_formals_shadowing fs as s4 = Ok () s'"
      and e': "env s' = butlast (env s4) @ [[b']]"
      and ext: "\<forall>k v. map_of b1 k = Some v \<longrightarrow> map_of b' k = Some v"
      and refs: "\<forall>i. i < length fs \<and> i < length as \<and> snd (fs ! i)
                     \<and> map_of b1 (fst (fs ! i)) = None
                   \<longrightarrow> map_of b' (fst (fs ! i)) = Some (as ! i)"
      by blast
    have "env s' = butlast (env s) @ [[b']]" using e' e4 by (simp add: butlast_append)
    moreover have "\<forall>k v. map_of b k = Some v \<longrightarrow> map_of b' k = Some v"
      using keep ext by blast
    moreover have "\<forall>i. i < length (f # fs) \<and> i < length (a # as) \<and> snd ((f # fs) ! i)
               \<and> map_of b (fst ((f # fs) ! i)) = None \<longrightarrow>
        map_of b' (fst ((f # fs) ! i)) = Some ((a # as) ! i)"
    proof (intro allI impI)
      fix i assume h: "i < length (f # fs) \<and> i < length (a # as) \<and> snd ((f # fs) ! i)
               \<and> map_of b (fst ((f # fs) ! i)) = None"
      show "map_of b' (fst ((f # fs) ! i)) = Some ((a # as) ! i)"
      proof (cases i)
        case 0
        with h fresh have "map_of b1 (fst f) = Some a'" by simp
        with ext have "map_of b' (fst f) = Some a'" by blast
        with 0 ar h show ?thesis by simp
      next
        case (Suc j)
        with h have j: "j < length fs" "j < length as" "snd (fs ! j)" "map_of b (fst (fs ! j)) = None"
          by simp_all
        from j(1) have "fst (fs ! j) \<in> set (map fst fs)" by simp
        moreover have "fst f \<notin> set (map fst fs)" using Cons.prems(3) by simp
        ultimately have "fst (fs ! j) \<noteq> fst f" by metis
        with other j(4) have "map_of b1 (fst (fs ! j)) = None" by simp
        with refs j have "map_of b' (fst (fs ! j)) = Some (as ! j)" by blast
        with Suc show ?thesis by simp
      qed
    qed
    ultimately show ?thesis using step r Cons by auto
  qed
qed

section \<open>Properties\<close>

text \<open>
  C3, as the code has it. When both payloads are nil the two values are equal whatever
  their tags (\<^verbatim>\<open>nil == nil\<close> is true). A Function value that is not nil is unequal to
  a nil Object: \<^verbatim>\<open>==\<close> yields false and \<^verbatim>\<open>!=\<close> yields true. Two Objects, and two
  Functions, are compared by the identity of their payloads, never by content.
\<close>

theorem equality_nil_and_identity:
  "(v_of vl = PyNone \<and> v_of vr = PyNone \<longrightarrow>
       eval_binary_op ''=='' vl vr = Inr (Value T_BOOL (PBool True))
     \<and> eval_binary_op ''!='' vl vr = Inr (Value T_BOOL (PBool False)))
   \<and> (t_of vl = T_FUNCTION \<and> v_of vl \<noteq> PyNone \<and> vr = Value T_OBJECT PyNone \<longrightarrow>
       eval_binary_op ''=='' vl vr = Inr (Value T_BOOL (PBool False))
     \<and> eval_binary_op ''!='' vl vr = Inr (Value T_BOOL (PBool True)))
   \<and> ((t_of vl = T_OBJECT \<and> t_of vr = T_OBJECT) \<or> (t_of vl = T_FUNCTION \<and> t_of vr = T_FUNCTION) \<longrightarrow>
       eval_binary_op ''=='' vl vr = Inr (Value T_BOOL (PBool (v_of vl = v_of vr)))
     \<and> eval_binary_op ''!='' vl vr = Inr (Value T_BOOL (PBool (v_of vl \<noteq> v_of vr))))"
  by (auto simp: eval_binary_op_def Let_def)

theorem equality_nil_and_identity_witness:
  "eval_binary_op ''=='' (Value T_OBJECT PyNone) (Value T_OBJECT PyNone)
     = Inr (Value T_BOOL (PBool True))
   \<and> eval_binary_op ''!='' (Value T_FUNCTION (PFunc 0)) (Value T_OBJECT PyNone)
     = Inr (Value T_BOOL (PBool True))
   \<and> eval_binary_op ''=='' (Value T_OBJECT (PDict 0)) (Value T_OBJECT (PDict 1))
     = Inr (Value T_BOOL (PBool False))
   \<and> eval_binary_op ''=='' (Value T_FUNCTION (PFunc 2)) (Value T_FUNCTION (PFunc 2))
     = Inr (Value T_BOOL (PBool True))"
  using equality_nil_and_identity [of "Value T_OBJECT PyNone" "Value T_OBJECT PyNone"]
        equality_nil_and_identity [of "Value T_FUNCTION (PFunc 0)" "Value T_OBJECT PyNone"]
        equality_nil_and_identity [of "Value T_OBJECT (PDict 0)" "Value T_OBJECT (PDict 1)"]
        equality_nil_and_identity [of "Value T_FUNCTION (PFunc 2)" "Value T_FUNCTION (PFunc 2)"]
  by simp

text \<open>
  C3, as stated, fails: a Function value that is nil (\<^verbatim>\<open>var ff;\<close>) compared with a nil
  Object is equal, because the test for two nil payloads comes first.
\<close>

theorem nil_function_equals_nil_object:
  "eval_binary_op ''=='' (Value T_FUNCTION PyNone) (Value T_OBJECT PyNone)
     = Inr (Value T_BOOL (PBool True))
   \<and> eval_binary_op ''!='' (Value T_FUNCTION PyNone) (Value T_OBJECT PyNone)
     = Inr (Value T_BOOL (PBool False))"
  by (simp add: eval_binary_op_def)

text \<open>
  C8. For Int operands \<open>a\<close> and \<open>b\<close> with \<open>b \<noteq> 0\<close>, the operator \<^verbatim>\<open>/\<close> yields the Int
  \<open>\<lfloor>a / b\<rfloor>\<close>: the quotient is rounded toward negative infinity, not toward zero. In
  particular \<^verbatim>\<open>-7 / 2\<close> is \<open>-4\<close> and not \<open>-3\<close>.
\<close>

theorem division_is_floor:
  "b \<noteq> 0 \<Longrightarrow>
     eval_binary_op ''/'' (Value T_INT (PInt a)) (Value T_INT (PInt b))
       = Inr (Value T_INT (PInt \<lfloor>real_of_int a / real_of_int b\<rfloor>))
     \<and> eval_binary_op ''/'' (Value T_INT (PInt (- 7))) (Value T_INT (PInt 2))
       = Inr (Value T_INT (PInt (- 4)))
     \<and> eval_binary_op ''/'' (Value T_INT (PInt (- 7))) (Value T_INT (PInt 2))
       \<noteq> Inr (Value T_INT (PInt (- 3)))"
  by (simp add: eval_binary_op_def floor_divide_of_int_eq)

theorem division_is_floor_witness:
  "(2::int) \<noteq> 0
   \<and> eval_binary_op ''/'' (Value T_INT (PInt (- 7))) (Value T_INT (PInt 2))
       = Inr (Value T_INT (PInt (- 4)))"
  using division_is_floor [of 2 "- 7"] by simp

text \<open>
  C10. Evaluating a single-segment name that exactly one declared function bears gives a
  new Function-tagged wrapper around that function's descriptor, whatever the environment
  holds, so a variable of that name is not read. When two or more declared functions bear
  the name, the evaluation fails with NameError, and the environment is not consulted.
\<close>

theorem function_name_wins:
  assumes "CHR ''.'' \<notin> set qname"
  shows "(length (filter (\<lambda>k. fst k = qname) (map fst (funcs s))) = 1 \<longrightarrow>
            (\<exists>sig f. map_of (funcs s) (qname, sig) = Some f
               \<and> get_var_value qname s
                   = Ok (length (cells s)) (s\<lparr>cells := cells s @ [Value T_FUNCTION (PFunc f)]\<rparr>)))
       \<and> (length (filter (\<lambda>k. fst k = qname) (map fst (funcs s))) > 1 \<longrightarrow>
            get_var_value qname s = Fail (Error NAME_ERROR) s)"
proof (intro conjI impI)
  assume len: "length (filter (\<lambda>k. fst k = qname) (map fst (funcs s))) = 1"
  then obtain key where one: "filter (\<lambda>k. fst k = qname) (map fst (funcs s)) = [key]"
    by (cases "filter (\<lambda>k. fst k = qname) (map fst (funcs s))") auto
  then have "key \<in> set (filter (\<lambda>k. fst k = qname) (map fst (funcs s)))" by simp
  then have mem: "key \<in> set (map fst (funcs s))" and nm: "fst key = qname" by auto
  from map_of_key_present [OF mem] obtain f where f: "map_of (funcs s) key = Some f" by blast
  have "get_var_value qname s
          = Ok (length (cells s)) (s\<lparr>cells := cells s @ [Value T_FUNCTION (PFunc f)]\<rparr>)"
    using one f
    by (simp add: get_var_value_def split_dot_no_dot [OF assms] new_Value_def init_Value_def
          alloc_def Let_def del: length_filter_map)
  moreover have "map_of (funcs s) (qname, snd key) = Some f"
    using f nm by (cases key) simp
  ultimately show "\<exists>sig f. map_of (funcs s) (qname, sig) = Some f
               \<and> get_var_value qname s
                   = Ok (length (cells s)) (s\<lparr>cells := cells s @ [Value T_FUNCTION (PFunc f)]\<rparr>)"
    by blast
next
  assume "length (filter (\<lambda>k. fst k = qname) (map fst (funcs s))) > 1"
  then show "get_var_value qname s = Fail (Error NAME_ERROR) s"
    by (simp add: get_var_value_def split_dot_no_dot [OF assms] Let_def del: length_filter_map)
qed

theorem function_name_wins_witness:
  "get_var_value ''gf'' names_state
     = Ok 3 (names_state\<lparr>cells := cells names_state @ [Value T_FUNCTION (PFunc 0)]\<rparr>)
   \<and> get_in ''gf'' (rev (last (env names_state))) = Some 1
   \<and> get_var_value ''hf'' names_state = Fail (Error NAME_ERROR) names_state"
proof -
  have nodot: "CHR ''.'' \<notin> set ''gf''" "CHR ''.'' \<notin> set ''hf''" by simp_all
  have one: "length (filter (\<lambda>k. fst k = ''gf'') (map fst (funcs names_state))) = 1"
    by (simp add: names_state_def)
  have two: "length (filter (\<lambda>k. fst k = ''hf'') (map fst (funcs names_state))) > 1"
    by (simp add: names_state_def)
  from function_name_wins [OF nodot(1), of names_state] one
  obtain sig f where f: "map_of (funcs names_state) (''gf'', sig) = Some f"
    and gv: "get_var_value ''gf'' names_state
               = Ok (length (cells names_state))
                    (names_state\<lparr>cells := cells names_state @ [Value T_FUNCTION (PFunc f)]\<rparr>)"
    by blast
  from f have "f = 0" by (simp add: names_state_def split: if_splits)
  moreover have "length (cells names_state) = 3" by (simp add: names_state_def)
  moreover have "get_in ''gf'' (rev (last (env names_state))) = Some 1"
    by (simp add: names_state_def dict_in_def)
  moreover from function_name_wins [OF nodot(2), of names_state] two
  have "get_var_value ''hf'' names_state = Fail (Error NAME_ERROR) names_state" by blast
  ultimately show ?thesis using gv by simp
qed





text \<open>
  C9. In a frame, defining at function scope a name that the function scope already holds
  fails with NameError, whichever statement defined it before (a first definition puts
  the name there). A block-scoped definition of a name that an enclosing block of the
  frame holds, and the current block does not, succeeds: inside the block the name denotes
  the new wrapper, and after the block is left it denotes the outer wrapper again.
\<close>

theorem scoping_of_definitions:
  assumes "get_type vname \<noteq> T_ERROR" "get_type vname \<noteq> T_VOID"
    and "env s \<noteq> []" "last (env s) \<noteq> []"
  shows "(dict_in vname (hd (last (env s))) \<longrightarrow>
            (\<exists>s'. run_vardef vname False s = Fail (Error NAME_ERROR) s'))
    \<and> (\<not> dict_in vname (hd (last (env s))) \<longrightarrow>
            (\<exists>s'. run_vardef vname False s = Ok () s' \<and> env s' \<noteq> [] \<and> last (env s') \<noteq> []
                \<and> dict_in vname (hd (last (env s')))))
    \<and> (\<forall>outer. get_in vname (rev (butlast (last (env s)))) = Some outer
            \<and> \<not> dict_in vname (last (last (env s))) \<longrightarrow>
            (\<exists>s1 s2. get vname s = Ok (Some outer) s
                \<and> run_vardef vname True s = Ok () s1
                \<and> get vname s1 = Ok (Some (length (cells s))) s1
                \<and> t_of (cells s1 ! length (cells s)) = get_type vname
                \<and> (\<forall>i < length (cells s). cells s1 ! i = cells s ! i)
                \<and> exit_block s1 = Ok () s2
                \<and> get vname s2 = Ok (Some outer) s2))"
proof -
  obtain d where d: "default_value_for_type (get_type vname) = Some d"
    using assms(1) by (cases "get_type vname") (simp_all add: default_value_for_type_def)
  define s0 where "s0 = s\<lparr>cells := cells s @ [Value (get_type vname) d]\<rparr>"
  have nv: "new_Value (get_type vname) PyNone s = Ok (length (cells s)) s0"
    using d by (simp add: new_Value_def init_Value_def alloc_def s0_def)
  have env0: "env s0 = env s" by (simp add: s0_def)
  show ?thesis
  proof (intro conjI impI allI)
    assume "dict_in vname (hd (last (env s)))"
    then show "\<exists>s'. run_vardef vname False s = Fail (Error NAME_ERROR) s'"
      using assms nv env0 by (simp add: run_vardef_def fdef_def Let_def)
  next
    assume "\<not> dict_in vname (hd (last (env s)))"
    then show "\<exists>s'. run_vardef vname False s = Ok () s' \<and> env s' \<noteq> [] \<and> last (env s') \<noteq> []
                \<and> dict_in vname (hd (last (env s')))"
      using assms nv env0 by (simp add: run_vardef_def fdef_def Let_def dict_in_def map_of_dict_set)
  next
    fix outer
    assume h: "get_in vname (rev (butlast (last (env s)))) = Some outer
            \<and> \<not> dict_in vname (last (last (env s)))"
    have fr: "last (env s) = butlast (last (env s)) @ [last (last (env s))]"
      using assms(4) by simp
    have g0: "get vname s = Ok (Some outer) s"
      using assms(3) h by (subst get_def) (simp add: fr [THEN ssubst, of "\<lambda>x. get_in vname (rev x) = Some outer"])
    define s1 where "s1 = s0\<lparr>env := butlast (env s) @
        [butlast (last (env s)) @ [dict_set vname (length (cells s)) (last (last (env s)))]]\<rparr>"
    have rv: "run_vardef vname True s = Ok () s1"
      using assms nv env0 h by (simp add: run_vardef_def bdef_def Let_def s1_def)
    have g1: "get vname s1 = Ok (Some (length (cells s))) s1"
      by (simp add: get_def s1_def dict_in_def map_of_dict_set)
    have t1: "t_of (cells s1 ! length (cells s)) = get_type vname"
      by (simp add: s1_def s0_def)
    have c1: "\<forall>i < length (cells s). cells s1 ! i = cells s ! i"
      by (simp add: s1_def s0_def nth_append)
    define s2 where "s2 = s1\<lparr>env := butlast (env s) @ [butlast (last (env s))]\<rparr>"
    have xb: "exit_block s1 = Ok () s2"
      by (simp add: exit_block_def s1_def s2_def)
    have g2: "get vname s2 = Ok (Some outer) s2"
      using h by (simp add: get_def s2_def)
    from g0 rv g1 t1 c1 xb g2
    show "\<exists>s1 s2. get vname s = Ok (Some outer) s
                \<and> run_vardef vname True s = Ok () s1
                \<and> get vname s1 = Ok (Some (length (cells s))) s1
                \<and> t_of (cells s1 ! length (cells s)) = get_type vname
                \<and> (\<forall>i < length (cells s). cells s1 ! i = cells s ! i)
                \<and> exit_block s1 = Ok () s2
                \<and> get vname s2 = Ok (Some outer) s2"
      by blast
  qed
qed

theorem scoping_of_definitions_witness:
  "(\<exists>s'. run_vardef ''xi'' False scope_state = Fail (Error NAME_ERROR) s')
   \<and> (\<exists>s'. run_vardef ''yi'' False scope_state = Ok () s' \<and> dict_in ''yi'' (hd (last (env s'))))
   \<and> (\<exists>s1 s2. get ''xi'' scope_state = Ok (Some 1) scope_state
         \<and> run_vardef ''xi'' True scope_state = Ok () s1
         \<and> get ''xi'' s1 = Ok (Some 2) s1
         \<and> exit_block s1 = Ok () s2
         \<and> get ''xi'' s2 = Ok (Some 1) s2)"
proof -
  have ty: "get_type ''xi'' \<noteq> T_ERROR" "get_type ''xi'' \<noteq> T_VOID"
           "get_type ''yi'' \<noteq> T_ERROR" "get_type ''yi'' \<noteq> T_VOID"
    by (simp_all add: get_type_def)
  have fr: "env scope_state \<noteq> []" "last (env scope_state) \<noteq> []"
    by (simp_all add: scope_state_def)
  note X = scoping_of_definitions [OF ty(1,2) fr]
  note Y = scoping_of_definitions [OF ty(3,4) fr]
  have inx: "dict_in ''xi'' (hd (last (env scope_state)))"
    and iny: "\<not> dict_in ''yi'' (hd (last (env scope_state)))"
    and vis: "get_in ''xi'' (rev (butlast (last (env scope_state)))) = Some 1
              \<and> \<not> dict_in ''xi'' (last (last (env scope_state)))"
    and len: "length (cells scope_state) = 2"
    by (simp_all add: scope_state_def dict_in_def)
  from X inx have a: "\<exists>s'. run_vardef ''xi'' False scope_state = Fail (Error NAME_ERROR) s'"
    by blast
  from Y iny have b: "\<exists>s'. run_vardef ''yi'' False scope_state = Ok () s'
                        \<and> dict_in ''yi'' (hd (last (env s')))"
    by blast
  from X vis len have c: "\<exists>s1 s2. get ''xi'' scope_state = Ok (Some 1) scope_state
         \<and> run_vardef ''xi'' True scope_state = Ok () s1
         \<and> get ''xi'' s1 = Ok (Some 2) s1
         \<and> exit_block s1 = Ok () s2
         \<and> get ''xi'' s2 = Ok (Some 1) s2"
    by (metis (no_types, lifting))
  from a b c show ?thesis by blast
qed


text \<open>
  C4, as the code has it. In an ordinary call (no intrinsic, no dotted path, no
  Function-tagged variable of that name in scope) the arguments are evaluated first. When
  one of them is the Void wrapper the run fails with TypeError before any lookup, whether
  a function of that name is declared or not. Otherwise the call is resolved by the pair
  of its name and the signature read off the tags of the evaluated arguments, one letter
  per argument. The table is searched for exactly that pair: when it is there the call
  runs that descriptor; when it is absent the run fails with TypeError if some declared
  function has the name, and with NameError if none has.
\<close>

theorem ordinary_call_signature_then_lookup:
  assumes "fcall_name \<noteq> ''inputi''" "fcall_name \<noteq> ''inputs''" "fcall_name \<noteq> ''print''"
    and "CHR ''.'' \<notin> set fcall_name"
    and "\<forall>a. env s \<noteq> [] \<and> get_in fcall_name (rev (last (env s))) = Some a
             \<longrightarrow> t_of (cells s ! a) \<noteq> T_FUNCTION"
    and "eval_args self args s = Ok actual_args s1"
    and "\<forall>a \<in> set actual_args. t_of (cells s1 ! a) \<noteq> T_ERROR"
    and "sig = map (\<lambda>a. let ty = t_of (cells s1 ! a) in
                      if ty = T_INT then CHR ''i'' else if ty = T_STRING then CHR ''s''
                      else if ty = T_BOOL then CHR ''b'' else if ty = T_OBJECT then CHR ''o''
                      else CHR ''f'') actual_args"
  shows "((\<exists>a \<in> set actual_args. t_of (cells s1 ! a) = T_VOID) \<longrightarrow>
            run_fcall self fcall_name args s = Fail (Error TYPE_ERROR) s1)
    \<and> ((\<forall>a \<in> set actual_args. t_of (cells s1 ! a) \<noteq> T_VOID) \<longrightarrow>
         (\<forall>f. map_of (funcs s1) (fcall_name, sig) = Some f \<longrightarrow>
            run_fcall self fcall_name args s =
              bind (lift (check_interface_args (formal_args (fobjs s1 ! f)) actual_args s1) s1) (\<lambda>u s4.
              bind (enter_func s4) (\<lambda>u s5.
              bind (bind_formals (formal_args (fobjs s1 ! f)) actual_args s5) (\<lambda>u s6.
              bind (m_run_statements self (fobjs s1 ! f) (statements (fobjs s1 ! f)) s6) (\<lambda>r s7.
              bind (exit_func s7) (\<lambda>u s8. Ok (fst r) s8))))))
       \<and> (map_of (funcs s1) (fcall_name, sig) = None
            \<and> (\<exists>sig'. (fcall_name, sig') \<in> set (map fst (funcs s1))) \<longrightarrow>
            run_fcall self fcall_name args s = Fail (Error TYPE_ERROR) s1)
       \<and> (map_of (funcs s1) (fcall_name, sig) = None
            \<and> \<not> (\<exists>sig'. (fcall_name, sig') \<in> set (map fst (funcs s1))) \<longrightarrow>
            run_fcall self fcall_name args s = Fail (Error NAME_ERROR) s1))"
proof -
  note ordinary = run_fcall_ordinary [OF assms(1-6)]
  have noerr: "\<forall>x \<in> set (map (\<lambda>a. cells s1 ! a) actual_args). t_of x \<noteq> T_ERROR"
    using assms(7) by simp
  have shares: "(filter (\<lambda>key. fst key = fcall_name) (map fst (funcs s1)) \<noteq> [])
                  \<longleftrightarrow> (\<exists>sig'. (fcall_name, sig') \<in> set (map fst (funcs s1)))"
    by (force simp: filter_empty_conv)
  show ?thesis
  proof (rule conjI, goal_cases)
    case 1
    show ?case
    proof (rule impI)
      assume "\<exists>a \<in> set actual_args. t_of (cells s1 ! a) = T_VOID"
      then have "\<exists>x \<in> set (map (\<lambda>a. cells s1 ! a) actual_args). t_of x = T_VOID" by simp
      from get_arguments_type_signature_void [OF noerr this]
      show "run_fcall self fcall_name args s = Fail (Error TYPE_ERROR) s1"
        by (simp add: ordinary)
    qed
  next
    case 2
    show ?case
    proof (rule impI)
      assume nv: "\<forall>a \<in> set actual_args. t_of (cells s1 ! a) \<noteq> T_VOID"
      with assms(7) have "\<forall>x \<in> set (map (\<lambda>a. cells s1 ! a) actual_args).
          t_of x \<noteq> T_ERROR \<and> t_of x \<noteq> T_VOID" by simp
      from get_arguments_type_signature_ok [OF this]
      have sg: "get_arguments_type_signature (map (\<lambda>a. cells s1 ! a) actual_args) = Inr sig"
        by (simp add: assms(8) Let_def comp_def)
      have resolved: "run_fcall self fcall_name args s =
        bind (lift (find_function fcall_name sig s1) s1) (\<lambda>f s3.
          bind (lift (check_interface_args (formal_args (fobjs s3 ! f)) actual_args s3) s3) (\<lambda>u s4.
          bind (enter_func s4) (\<lambda>u s5.
          bind (bind_formals (formal_args (fobjs s3 ! f)) actual_args s5) (\<lambda>u s6.
          bind (m_run_statements self (fobjs s3 ! f) (statements (fobjs s3 ! f)) s6) (\<lambda>r s7.
          bind (exit_func s7) (\<lambda>u s8. Ok (fst r) s8))))))"
        by (simp add: ordinary sg)
      show "(\<forall>f. map_of (funcs s1) (fcall_name, sig) = Some f \<longrightarrow>
            run_fcall self fcall_name args s =
              bind (lift (check_interface_args (formal_args (fobjs s1 ! f)) actual_args s1) s1) (\<lambda>u s4.
              bind (enter_func s4) (\<lambda>u s5.
              bind (bind_formals (formal_args (fobjs s1 ! f)) actual_args s5) (\<lambda>u s6.
              bind (m_run_statements self (fobjs s1 ! f) (statements (fobjs s1 ! f)) s6) (\<lambda>r s7.
              bind (exit_func s7) (\<lambda>u s8. Ok (fst r) s8))))))
       \<and> (map_of (funcs s1) (fcall_name, sig) = None
            \<and> (\<exists>sig'. (fcall_name, sig') \<in> set (map fst (funcs s1))) \<longrightarrow>
            run_fcall self fcall_name args s = Fail (Error TYPE_ERROR) s1)
       \<and> (map_of (funcs s1) (fcall_name, sig) = None
            \<and> \<not> (\<exists>sig'. (fcall_name, sig') \<in> set (map fst (funcs s1))) \<longrightarrow>
            run_fcall self fcall_name args s = Fail (Error NAME_ERROR) s1)"
        using shares by (auto simp: resolved find_function_def get_function_def Let_def)
    qed
  qed
qed

theorem ordinary_call_signature_then_lookup_witness:
  "(\<exists>a s'. run_fcall (interpreter 5) ''fi'' [INT_NODE 5, INT_NODE 6] overload_state = Ok a s'
        \<and> cells s' ! a = Value T_INT (PInt 2))
   \<and> (\<exists>s'. run_fcall (interpreter 5) ''fi'' [STRING_NODE ''a''] overload_state
          = Fail (Error TYPE_ERROR) s')
   \<and> (\<exists>s'. run_fcall (interpreter 5) ''gi'' [INT_NODE 5] overload_state
          = Fail (Error NAME_ERROR) s')
   \<and> (\<exists>s'. run_fcall (interpreter 5) ''gi'' [FCALL_NODE ''print'' []] overload_state
          = Fail (Error TYPE_ERROR) s')"
proof -
  have names: "''fi'' \<noteq> ''inputi''" "''fi'' \<noteq> ''inputs''" "''fi'' \<noteq> ''print''"
    "CHR ''.'' \<notin> set ''fi''"
    "''gi'' \<noteq> ''inputi''" "''gi'' \<noteq> ''inputs''" "''gi'' \<noteq> ''print''"
    "CHR ''.'' \<notin> set ''gi''"
    by simp_all
  have nofv: "\<forall>a. env overload_state \<noteq> [] \<and> get_in ''fi'' (rev (last (env overload_state))) = Some a
             \<longrightarrow> t_of (cells overload_state ! a) \<noteq> T_FUNCTION"
    "\<forall>a. env overload_state \<noteq> [] \<and> get_in ''gi'' (rev (last (env overload_state))) = Some a
             \<longrightarrow> t_of (cells overload_state ! a) \<noteq> T_FUNCTION"
    by (simp_all add: overload_state_def dict_in_def)
  define s2 where "s2 = overload_state\<lparr>cells := [Value T_VOID PyNone, Value T_INT (PInt 5), Value T_INT (PInt 6)]\<rparr>"
  define s1 where "s1 = overload_state\<lparr>cells := [Value T_VOID PyNone, Value T_INT (PInt 5)]\<rparr>"
  define s1' where "s1' = overload_state\<lparr>cells := [Value T_VOID PyNone, Value T_STRING (PStr ''a'')]\<rparr>"
  define sv where "sv = overload_state\<lparr>cells := [Value T_VOID PyNone, Value T_VOID PyNone],
                                       out_lines := [[]]\<rparr>"
  have ea2: "eval_args (interpreter 5) [INT_NODE 5, INT_NODE 6] overload_state = Ok [1, 2] s2"
    and ea1: "eval_args (interpreter 5) [INT_NODE 5] overload_state = Ok [1] s1"
    and ea1': "eval_args (interpreter 5) [STRING_NODE ''a''] overload_state = Ok [1] s1'"
    and eav: "eval_args (interpreter 5) [FCALL_NODE ''print'' []] overload_state = Ok [1] sv"
    by (simp_all add: overload_state_def s1_def s2_def s1'_def sv_def run_defs interpreter_steps
          del: interpreter.simps)
  have ne: "\<forall>a \<in> set [1, 2]. t_of (cells s2 ! a) \<noteq> T_ERROR"
    "\<forall>a \<in> set [1]. t_of (cells s1 ! a) \<noteq> T_ERROR"
    "\<forall>a \<in> set [1]. t_of (cells s1' ! a) \<noteq> T_ERROR"
    "\<forall>a \<in> set [1]. t_of (cells sv ! a) \<noteq> T_ERROR"
    by (simp_all add: s1_def s2_def s1'_def sv_def)
  have sg2: "''ii'' = map (\<lambda>a. let ty = t_of (cells s2 ! a) in
                      if ty = T_INT then CHR ''i'' else if ty = T_STRING then CHR ''s''
                      else if ty = T_BOOL then CHR ''b'' else if ty = T_OBJECT then CHR ''o''
                      else CHR ''f'') [1, 2]"
    and sg1: "''i'' = map (\<lambda>a. let ty = t_of (cells s1 ! a) in
                      if ty = T_INT then CHR ''i'' else if ty = T_STRING then CHR ''s''
                      else if ty = T_BOOL then CHR ''b'' else if ty = T_OBJECT then CHR ''o''
                      else CHR ''f'') [1]"
    and sg1': "''s'' = map (\<lambda>a. let ty = t_of (cells s1' ! a) in
                      if ty = T_INT then CHR ''i'' else if ty = T_STRING then CHR ''s''
                      else if ty = T_BOOL then CHR ''b'' else if ty = T_OBJECT then CHR ''o''
                      else CHR ''f'') [1]"
    by (simp_all add: s1_def s2_def s1'_def)
  note A = ordinary_call_signature_then_lookup [OF names(1-4) nofv(1) ea2 ne(1) sg2]
  note B = ordinary_call_signature_then_lookup [OF names(1-4) nofv(1) ea1' ne(3) sg1']
  note C = ordinary_call_signature_then_lookup [OF names(5-8) nofv(2) ea1 ne(2) sg1]
  note D = ordinary_call_signature_then_lookup [OF names(5-8) nofv(2) eav ne(4) refl]
  have nv: "\<forall>a \<in> set [1, 2]. t_of (cells s2 ! a) \<noteq> T_VOID"
    "\<forall>a \<in> set [1]. t_of (cells s1 ! a) \<noteq> T_VOID"
    "\<forall>a \<in> set [1]. t_of (cells s1' ! a) \<noteq> T_VOID"
    "\<exists>a \<in> set [1]. t_of (cells sv ! a) = T_VOID"
    by (simp_all add: s1_def s2_def s1'_def sv_def)
  have "map_of (funcs s2) (''fi'', ''ii'') = Some 1"
    by (simp add: s2_def overload_state_def)
  with A nv(1) have "run_fcall (interpreter 5) ''fi'' [INT_NODE 5, INT_NODE 6] overload_state =
            bind (lift (check_interface_args (formal_args (fobjs s2 ! 1)) [1, 2] s2) s2) (\<lambda>u s4.
            bind (enter_func s4) (\<lambda>u s5.
            bind (bind_formals (formal_args (fobjs s2 ! 1)) [1, 2] s5) (\<lambda>u s6.
            bind (m_run_statements (interpreter 5) (fobjs s2 ! 1) (statements (fobjs s2 ! 1)) s6) (\<lambda>r s7.
            bind (exit_func s7) (\<lambda>u s8. Ok (fst r) s8)))))"
    by blast
  then have a: "\<exists>a s'. run_fcall (interpreter 5) ''fi'' [INT_NODE 5, INT_NODE 6] overload_state = Ok a s'
        \<and> cells s' ! a = Value T_INT (PInt 2)"
    by (simp add: s2_def overload_state_def run_defs interpreter_steps del: interpreter.simps)
  have "map_of (funcs s1') (''fi'', ''s'') = None
          \<and> (\<exists>sig'. (''fi'', sig') \<in> set (map fst (funcs s1')))"
    by (auto simp: s1'_def overload_state_def)
  with B nv(3) have b: "\<exists>s'. run_fcall (interpreter 5) ''fi'' [STRING_NODE ''a''] overload_state
          = Fail (Error TYPE_ERROR) s'"
    by blast
  have "map_of (funcs s1) (''gi'', ''i'') = None
          \<and> \<not> (\<exists>sig'. (''gi'', sig') \<in> set (map fst (funcs s1)))"
    by (simp add: s1_def overload_state_def)
  with C nv(2) have c: "\<exists>s'. run_fcall (interpreter 5) ''gi'' [INT_NODE 5] overload_state
          = Fail (Error NAME_ERROR) s'"
    by blast
  from D nv(4) have d: "\<exists>s'. run_fcall (interpreter 5) ''gi'' [FCALL_NODE ''print'' []] overload_state
          = Fail (Error TYPE_ERROR) s'"
    by blast
  from a b c d show ?thesis by blast
qed

text \<open>
  C4, as stated, promises NameError when no declared function has the name. The call
  \<^verbatim>\<open>gi(print())\<close> ends with TypeError although no function is named \<^verbatim>\<open>gi\<close>: the
  signature is built before the table is searched, and a Void argument has no letter.
\<close>

theorem void_argument_precedes_lookup:
  "outcome (run 10 void_argument_program []) = Some (Some (Error TYPE_ERROR), [[]])
   \<and> filter (\<lambda>f. f_name f = ''gi'') (p_functions void_argument_program) = []"
  by (simp add: void_argument_program_def run_defs interpreter_steps del: interpreter.simps)

text \<open>
  C2. On \<^verbatim>\<open>def main(){ var ao; ao.mf(); }\<close>, where \<^verbatim>\<open>ao\<close> is nil, the specification asks
  for FaultError. \<^verbatim>\<open>__run_method_call\<close> tests for nil only inside its loop over the
  segments before the method's name, so the receiver itself is used untested and Python
  raises its own TypeError. The sibling path through \<^verbatim>\<open>__get_var_value\<close> does test:
  \<^verbatim>\<open>print(ao.xi)\<close> ends with FaultError.
\<close>

theorem nil_receiver_method_call:
  "outcome (run 10 nil_method_program []) = Some (Some (Uncaught PyTypeError), [])
   \<and> outcome (run 10 nil_field_program []) = Some (Some (Error FAULT_ERROR), [])"
  by (simp add: nil_method_program_def nil_field_program_def run_defs interpreter_steps
        del: interpreter.simps)

text \<open>
  The scoping rules of C9 on a program: the block-scoped \<^verbatim>\<open>xi\<close> is printed inside the
  block, the outer one after it, and the second function-scoped definition ends the run.
\<close>

lemma scoping_program_run:
  "outcome (run 10 scoping_program []) = Some (Some (Error NAME_ERROR), [''2'', ''1''])"
  by (simp add: scoping_program_def run_defs interpreter_steps del: interpreter.simps)


text \<open>
  C1, as the code has it. A call binds a by-reference parameter to the wrapper that the
  argument expression yields. When the argument is a plain variable that no declared
  function is named after, that is the wrapper the caller's environment holds for the
  variable, whatever the other arguments are. This holds of an ordinary call; it holds of
  a call through a function value, and of a method call, when the parameter's name is not
  yet defined in the callee's new frame, where the receiver \<^verbatim>\<open>selfo\<close> and the captured
  variables of a lambda are defined before the parameters. The body of the callee runs in
  a frame where the parameter denotes that wrapper; an assignment to the parameter
  overwrites the content of that wrapper in place; and when the call returns, the caller
  goes on in the state the body ended in, with the callee's frame removed, where the
  variable denotes the same wrapper. The program
  \<^verbatim>\<open>def bumpv(&xi){ xi = xi + 1; } def main(){ var ti; ti = 5; bumpv(ti); print(ti); }\<close>
  prints 6.
\<close>

theorem reference_parameter_aliases_variable:
  assumes arg: "i < length args" "args ! i = QUALIFIED_NAME_NODE x"
    and plain: "CHR ''.'' \<notin> set x" "filter (\<lambda>k. fst k = x) (map fst (funcs s)) = []"
    and var: "get x s = Ok (Some a) s"
    and ea: "eval_args (interpreter n) args s = Ok actual_args s1"
    and sg: "get_arguments_type_signature (map (\<lambda>a. cells s1 ! a) actual_args) = Inr sig"
    and fo: "fo = fobjs s1 ! f"
    and par: "i < length (formal_args fo)" "formal_args fo ! i = (p, True)"
    and dist: "distinct (map fst (formal_args fo))"
  shows "(actual_args ! i = a \<and> env s1 = env s \<and> get x s1 = Ok (Some a) s1)
    \<and> (fcall_name \<noteq> ''inputi'' \<and> fcall_name \<noteq> ''inputs'' \<and> fcall_name \<noteq> ''print''
         \<and> CHR ''.'' \<notin> set fcall_name
         \<and> (\<forall>v. env s \<noteq> [] \<and> get_in fcall_name (rev (last (env s))) = Some v
                \<longrightarrow> t_of (cells s ! v) \<noteq> T_FUNCTION)
         \<and> map_of (funcs s1) (fcall_name, sig) = Some f
         \<and> check_interface_args (formal_args fo) actual_args s1 = Inr ()
       \<longrightarrow> (\<exists>s6 b. bind (enter_func s1) (\<lambda>u s5. bind_formals (formal_args fo) actual_args s5) = Ok () s6
            \<and> env s6 = env s @ [[b]] \<and> map_of b p = Some a \<and> get p s6 = Ok (Some a) s6
            \<and> run_fcall (interpreter n) fcall_name args s
                = bind (m_run_statements (interpreter n) fo (statements fo) s6) (\<lambda>r s7.
                  bind (exit_func s7) (\<lambda>u s8. Ok (fst r) s8))
            \<and> (\<forall>r s'. run_fcall (interpreter n) fcall_name args s = Ok r s' \<longrightarrow>
                  (\<exists>r7 s7. m_run_statements (interpreter n) fo (statements fo) s6 = Ok r7 s7
                      \<and> s' = s7\<lparr>env := env s\<rparr>)
                  \<and> get_var_value x s' = Ok a s')))
    \<and> (length actual_args = length (formal_args fo)
         \<and> check_actuals (formal_args fo) actual_args s1 = Inr ()
         \<and> (selfo \<noteq> None \<longrightarrow> p \<noteq> ''selfo'')
         \<and> (\<forall>cv. captured_vars fo = Some cv \<longrightarrow> p \<notin> fst ` set cv)
       \<longrightarrow> (\<exists>s7 b. bind (enter_func s1) (\<lambda>u s4.
                   bind (case selfo of None \<Rightarrow> Ok False s4 | Some so \<Rightarrow> fdef ''selfo'' so s4) (\<lambda>u s5.
                   bind (case captured_vars fo of None \<Rightarrow> Ok () s5
                         | Some cv \<Rightarrow> define_captured cv s5) (\<lambda>u s6.
                   bind_formals_shadowing (formal_args fo) actual_args s6))) = Ok () s7
            \<and> env s7 = env s @ [[b]] \<and> map_of b p = Some a \<and> get p s7 = Ok (Some a) s7
            \<and> call_function_value (interpreter n) (PFunc f) args selfo s
                = bind (m_run_statements (interpreter n) fo (statements fo) s7) (\<lambda>r s8.
                  bind (exit_func s8) (\<lambda>u s9. Ok (fst r) s9))
            \<and> (\<forall>r s'. call_function_value (interpreter n) (PFunc f) args selfo s = Ok r s' \<longrightarrow>
                  (\<exists>r8 s8. m_run_statements (interpreter n) fo (statements fo) s7 = Ok r8 s8
                      \<and> s' = s8\<lparr>env := env s\<rparr>)
                  \<and> get_var_value x s' = Ok a s')))
    \<and> (fcall_name \<noteq> ''inputi'' \<and> fcall_name \<noteq> ''inputs'' \<and> fcall_name \<noteq> ''print''
         \<and> CHR ''.'' \<notin> set fcall_name \<and> env s \<noteq> []
         \<and> get_in fcall_name (rev (last (env s))) = Some fv
         \<and> cells s ! fv = Value T_FUNCTION (PFunc f)
       \<longrightarrow> run_fcall (interpreter n) fcall_name args s
             = call_function_value (interpreter n) (PFunc f) args None s)
    \<and> (fcall_name \<noteq> ''inputi'' \<and> fcall_name \<noteq> ''inputs'' \<and> fcall_name \<noteq> ''print''
         \<and> CHR ''.'' \<in> set fcall_name \<and> find_method fcall_name s = Ok (recv, PFunc f) s
       \<longrightarrow> run_fcall (interpreter n) fcall_name args s
             = call_function_value (interpreter n) (PFunc f) args (Some recv) s)
    \<and> (\<forall>e st sf. CHR ''.'' \<notin> set p \<and> get p st = Ok (Some a) st
            \<and> run_assign (interpreter n) p e st = Ok () sf
          \<longrightarrow> (\<exists>rv st'. m_eval_expr (interpreter n) e st = Ok rv st'
                 \<and> sf = st'\<lparr>cells := (cells st')[a := cells st' ! rv]\<rparr>))
    \<and> outcome (run 10 (bump_program ''bumpv'') []) = Some (None, [''6''])"
proof -
  note kf = keeps_frames_interpreter [of n]
  from eval_args_variable [OF ea arg plain var]
  have ai: "actual_args ! i = a" and len: "length actual_args = length args"
    and e1: "env s1 = env s" and f1: "funcs s1 = funcs s" and g1: "get x s1 = Ok (Some a) s1"
    by simp_all
  from len arg(1) have ia: "i < length actual_args" by simp
  from var have ne: "env s \<noteq> []" by (auto simp: get_def split: if_splits)
  have after: "get_var_value x s' = Ok a s'" if "env s' = env s" "funcs s' = funcs s" for s' :: state
  proof -
    from var that(1) have "get x s' = Ok (Some a) s'" by (auto simp: get_def split: if_splits)
    from get_var_value_variable [OF plain(1) _ this] plain(2) that(2) show ?thesis by simp
  qed
  have frame_get: "get p st = Ok (Some a) st" if "env st = env s @ [[b]]" "map_of b p = Some a"
    for st :: state and b
    using that by (simp add: get_def dict_in_def)
  have c2: "(fcall_name \<noteq> ''inputi'' \<and> fcall_name \<noteq> ''inputs'' \<and> fcall_name \<noteq> ''print''
         \<and> CHR ''.'' \<notin> set fcall_name
         \<and> (\<forall>v. env s \<noteq> [] \<and> get_in fcall_name (rev (last (env s))) = Some v
                \<longrightarrow> t_of (cells s ! v) \<noteq> T_FUNCTION)
         \<and> map_of (funcs s1) (fcall_name, sig) = Some f
         \<and> check_interface_args (formal_args fo) actual_args s1 = Inr ()
       \<longrightarrow> (\<exists>s6 b. bind (enter_func s1) (\<lambda>u s5. bind_formals (formal_args fo) actual_args s5) = Ok () s6
            \<and> env s6 = env s @ [[b]] \<and> map_of b p = Some a \<and> get p s6 = Ok (Some a) s6
            \<and> run_fcall (interpreter n) fcall_name args s
                = bind (m_run_statements (interpreter n) fo (statements fo) s6) (\<lambda>r s7.
                  bind (exit_func s7) (\<lambda>u s8. Ok (fst r) s8))
            \<and> (\<forall>r s'. run_fcall (interpreter n) fcall_name args s = Ok r s' \<longrightarrow>
                  (\<exists>r7 s7. m_run_statements (interpreter n) fo (statements fo) s6 = Ok r7 s7
                      \<and> s' = s7\<lparr>env := env s\<rparr>)
                  \<and> get_var_value x s' = Ok a s')))"
  proof (rule impI)
    assume h: "fcall_name \<noteq> ''inputi'' \<and> fcall_name \<noteq> ''inputs'' \<and> fcall_name \<noteq> ''print''
         \<and> CHR ''.'' \<notin> set fcall_name
         \<and> (\<forall>v. env s \<noteq> [] \<and> get_in fcall_name (rev (last (env s))) = Some v
                \<longrightarrow> t_of (cells s ! v) \<noteq> T_FUNCTION)
         \<and> map_of (funcs s1) (fcall_name, sig) = Some f
         \<and> check_interface_args (formal_args fo) actual_args s1 = Inr ()"
    then have o: "fcall_name \<noteq> ''inputi''" "fcall_name \<noteq> ''inputs''" "fcall_name \<noteq> ''print''"
      "CHR ''.'' \<notin> set fcall_name"
      "\<forall>v. env s \<noteq> [] \<and> get_in fcall_name (rev (last (env s))) = Some v
                \<longrightarrow> t_of (cells s ! v) \<noteq> T_FUNCTION"
      and fnd: "map_of (funcs s1) (fcall_name, sig) = Some f"
      and chk: "check_interface_args (formal_args fo) actual_args s1 = Inr ()"
      by simp_all
    define s5 where "s5 = s1\<lparr>env := env s1 @ [[[]]]\<rparr>"
    have ef: "enter_func s1 = Ok () s5" by (simp add: enter_func_def s5_def)
    have pre: "env s5 \<noteq> []" "last (env s5) = [[]]"
      "\<forall>g \<in> set (formal_args fo). map_of [] (fst g) = None"
      by (simp_all add: s5_def)
    from bind_formals_binds [OF pre(1,2) dist pre(3), of actual_args]
    obtain s6 b where bf: "bind_formals (formal_args fo) actual_args s5 = Ok () s6"
      and e6: "env s6 = butlast (env s5) @ [[b]]"
      and refs: "\<forall>j. j < length (formal_args fo) \<and> j < length actual_args
                    \<and> snd (formal_args fo ! j)
                  \<longrightarrow> map_of b (fst (formal_args fo ! j)) = Some (actual_args ! j)"
      by blast
    from e6 e1 have e6': "env s6 = env s @ [[b]]" by (simp add: s5_def)
    from refs par ia ai have mp: "map_of b p = Some a" by force
    have both: "bind (enter_func s1) (\<lambda>u s5. bind_formals (formal_args fo) actual_args s5) = Ok () s6"
      using ef bf by simp
    have eq: "run_fcall (interpreter n) fcall_name args s
                = bind (m_run_statements (interpreter n) fo (statements fo) s6) (\<lambda>r s7.
                  bind (exit_func s7) (\<lambda>u s8. Ok (fst r) s8))"
      using sg fnd chk ef bf fo
      by (simp add: run_fcall_ordinary [OF o ea] find_function_def get_function_def)
    have ret: "\<forall>r s'. run_fcall (interpreter n) fcall_name args s = Ok r s' \<longrightarrow>
                  (\<exists>r7 s7. m_run_statements (interpreter n) fo (statements fo) s6 = Ok r7 s7
                      \<and> s' = s7\<lparr>env := env s\<rparr>)
                  \<and> get_var_value x s' = Ok a s'"
    proof (intro allI impI)
      fix r s' assume r: "run_fcall (interpreter n) fcall_name args s = Ok r s'"
      from run_fcall_env [OF kf r] have es: "env s' = env s" "funcs s' = funcs s" by simp_all
      from r eq obtain r7 s7 where st: "m_run_statements (interpreter n) fo (statements fo) s6 = Ok r7 s7"
        and ex: "exit_func s7 = Ok () s'"
        by (auto elim!: bind_OkE simp: lift_Ok_iff)
      from exit_func_Ok [OF ex] es have "s' = s7\<lparr>env := env s\<rparr>" by simp
      with st after [OF es]
      show "(\<exists>r7 s7. m_run_statements (interpreter n) fo (statements fo) s6 = Ok r7 s7
                      \<and> s' = s7\<lparr>env := env s\<rparr>)
                  \<and> get_var_value x s' = Ok a s'"
        by blast
    qed
    from both e6' mp frame_get [OF e6' mp] eq ret
    show "(\<exists>s6 b. bind (enter_func s1) (\<lambda>u s5. bind_formals (formal_args fo) actual_args s5) = Ok () s6
            \<and> env s6 = env s @ [[b]] \<and> map_of b p = Some a \<and> get p s6 = Ok (Some a) s6
            \<and> run_fcall (interpreter n) fcall_name args s
                = bind (m_run_statements (interpreter n) fo (statements fo) s6) (\<lambda>r s7.
                  bind (exit_func s7) (\<lambda>u s8. Ok (fst r) s8))
            \<and> (\<forall>r s'. run_fcall (interpreter n) fcall_name args s = Ok r s' \<longrightarrow>
                  (\<exists>r7 s7. m_run_statements (interpreter n) fo (statements fo) s6 = Ok r7 s7
                      \<and> s' = s7\<lparr>env := env s\<rparr>)
                  \<and> get_var_value x s' = Ok a s'))"
      by blast
  qed
  have c3: "(length actual_args = length (formal_args fo)
         \<and> check_actuals (formal_args fo) actual_args s1 = Inr ()
         \<and> (selfo \<noteq> None \<longrightarrow> p \<noteq> ''selfo'')
         \<and> (\<forall>cv. captured_vars fo = Some cv \<longrightarrow> p \<notin> fst ` set cv)
       \<longrightarrow> (\<exists>s7 b. bind (enter_func s1) (\<lambda>u s4.
                   bind (case selfo of None \<Rightarrow> Ok False s4 | Some so \<Rightarrow> fdef ''selfo'' so s4) (\<lambda>u s5.
                   bind (case captured_vars fo of None \<Rightarrow> Ok () s5
                         | Some cv \<Rightarrow> define_captured cv s5) (\<lambda>u s6.
                   bind_formals_shadowing (formal_args fo) actual_args s6))) = Ok () s7
            \<and> env s7 = env s @ [[b]] \<and> map_of b p = Some a \<and> get p s7 = Ok (Some a) s7
            \<and> call_function_value (interpreter n) (PFunc f) args selfo s
                = bind (m_run_statements (interpreter n) fo (statements fo) s7) (\<lambda>r s8.
                  bind (exit_func s8) (\<lambda>u s9. Ok (fst r) s9))
            \<and> (\<forall>r s'. call_function_value (interpreter n) (PFunc f) args selfo s = Ok r s' \<longrightarrow>
                  (\<exists>r8 s8. m_run_statements (interpreter n) fo (statements fo) s7 = Ok r8 s8
                      \<and> s' = s8\<lparr>env := env s\<rparr>)
                  \<and> get_var_value x s' = Ok a s')))"
  proof (rule impI)
    assume h: "length actual_args = length (formal_args fo)
         \<and> check_actuals (formal_args fo) actual_args s1 = Inr ()
         \<and> (selfo \<noteq> None \<longrightarrow> p \<noteq> ''selfo'')
         \<and> (\<forall>cv. captured_vars fo = Some cv \<longrightarrow> p \<notin> fst ` set cv)"
    then have la: "length actual_args = length (formal_args fo)"
      and chk: "check_actuals (formal_args fo) actual_args s1 = Inr ()"
      and nself: "selfo \<noteq> None \<longrightarrow> p \<noteq> ''selfo''"
      and ncap: "\<forall>cv. captured_vars fo = Some cv \<longrightarrow> p \<notin> fst ` set cv"
      by simp_all
    define s4 where "s4 = s1\<lparr>env := env s1 @ [[[]]]\<rparr>"
    have ef: "enter_func s1 = Ok () s4" by (simp add: enter_func_def s4_def)
    obtain u5 s5 b5 where so: "(case selfo of None \<Rightarrow> Ok False s4 | Some so \<Rightarrow> fdef ''selfo'' so s4) = Ok u5 s5"
      and e5: "env s5 = env s1 @ [[b5]]" and p5: "map_of b5 p = None"
    proof (cases selfo)
      case None
      with that [of False s4 "[]"] show ?thesis by (simp add: s4_def)
    next
      case (Some so)
      with nself have "p \<noteq> ''selfo''" by simp
      with Some that [of True "s4\<lparr>env := env s1 @ [[[(''selfo'', so)]]]\<rparr>" "[(''selfo'', so)]"]
      show ?thesis by (simp add: s4_def fdef_def Let_def dict_in_def)
    qed
    have pre5: "env s5 \<noteq> []" "last (env s5) = [b5]" using e5 by simp_all
    obtain s6 b6 where dc: "(case captured_vars fo of None \<Rightarrow> Ok () s5
                         | Some cv \<Rightarrow> define_captured cv s5) = Ok () s6"
      and e6: "env s6 = env s1 @ [[b6]]" and p6: "map_of b6 p = None"
    proof (cases "captured_vars fo")
      case None
      with that [of s5 b5] e5 p5 show ?thesis by simp
    next
      case (Some cv)
      with ncap have "p \<notin> fst ` set cv" by simp
      with define_captured_binds [OF pre5, of cv] p5 e5 Some that show ?thesis
        by (auto simp: butlast_append)
    qed
    have pre6: "env s6 \<noteq> []" "last (env s6) = [b6]" using e6 by simp_all
    from bind_formals_shadowing_binds [OF pre6 dist, of actual_args]
    obtain s7 b where bf: "bind_formals_shadowing (formal_args fo) actual_args s6 = Ok () s7"
      and e7: "env s7 = butlast (env s6) @ [[b]]"
      and refs: "\<forall>j. j < length (formal_args fo) \<and> j < length actual_args
                    \<and> snd (formal_args fo ! j) \<and> map_of b6 (fst (formal_args fo ! j)) = None
                  \<longrightarrow> map_of b (fst (formal_args fo ! j)) = Some (actual_args ! j)"
      by blast
    from e7 e6 e1 have e7': "env s7 = env s @ [[b]]" by (simp add: butlast_append)
    from refs par ia ai p6 have mp: "map_of b p = Some a" by force
    have all: "bind (enter_func s1) (\<lambda>u s4.
                   bind (case selfo of None \<Rightarrow> Ok False s4 | Some so \<Rightarrow> fdef ''selfo'' so s4) (\<lambda>u s5.
                   bind (case captured_vars fo of None \<Rightarrow> Ok () s5
                         | Some cv \<Rightarrow> define_captured cv s5) (\<lambda>u s6.
                   bind_formals_shadowing (formal_args fo) actual_args s6))) = Ok () s7"
      using ef so dc bf by simp
    have eq: "call_function_value (interpreter n) (PFunc f) args selfo s
                = bind (m_run_statements (interpreter n) fo (statements fo) s7) (\<lambda>r s8.
                  bind (exit_func s8) (\<lambda>u s9. Ok (fst r) s9))"
      using chk ef so dc bf
      by (simp add: call_function_value_checks [OF ea sg la [unfolded fo]] fo)
    have ret: "\<forall>r s'. call_function_value (interpreter n) (PFunc f) args selfo s = Ok r s' \<longrightarrow>
                  (\<exists>r8 s8. m_run_statements (interpreter n) fo (statements fo) s7 = Ok r8 s8
                      \<and> s' = s8\<lparr>env := env s\<rparr>)
                  \<and> get_var_value x s' = Ok a s'"
    proof (intro allI impI)
      fix r s' assume r: "call_function_value (interpreter n) (PFunc f) args selfo s = Ok r s'"
      from call_function_value_env [OF kf r] have es: "env s' = env s" "funcs s' = funcs s"
        by simp_all
      from r eq obtain r8 s8 where st: "m_run_statements (interpreter n) fo (statements fo) s7 = Ok r8 s8"
        and ex: "exit_func s8 = Ok () s'"
        by (auto elim!: bind_OkE simp: lift_Ok_iff)
      from exit_func_Ok [OF ex] es have "s' = s8\<lparr>env := env s\<rparr>" by simp
      with st after [OF es]
      show "(\<exists>r8 s8. m_run_statements (interpreter n) fo (statements fo) s7 = Ok r8 s8
                      \<and> s' = s8\<lparr>env := env s\<rparr>)
                  \<and> get_var_value x s' = Ok a s'"
        by blast
    qed
    from all e7' mp frame_get [OF e7' mp] eq ret
    show "(\<exists>s7 b. bind (enter_func s1) (\<lambda>u s4.
                   bind (case selfo of None \<Rightarrow> Ok False s4 | Some so \<Rightarrow> fdef ''selfo'' so s4) (\<lambda>u s5.
                   bind (case captured_vars fo of None \<Rightarrow> Ok () s5
                         | Some cv \<Rightarrow> define_captured cv s5) (\<lambda>u s6.
                   bind_formals_shadowing (formal_args fo) actual_args s6))) = Ok () s7
            \<and> env s7 = env s @ [[b]] \<and> map_of b p = Some a \<and> get p s7 = Ok (Some a) s7
            \<and> call_function_value (interpreter n) (PFunc f) args selfo s
                = bind (m_run_statements (interpreter n) fo (statements fo) s7) (\<lambda>r s8.
                  bind (exit_func s8) (\<lambda>u s9. Ok (fst r) s9))
            \<and> (\<forall>r s'. call_function_value (interpreter n) (PFunc f) args selfo s = Ok r s' \<longrightarrow>
                  (\<exists>r8 s8. m_run_statements (interpreter n) fo (statements fo) s7 = Ok r8 s8
                      \<and> s' = s8\<lparr>env := env s\<rparr>)
                  \<and> get_var_value x s' = Ok a s'))"
      by blast
  qed
  have c4: "(fcall_name \<noteq> ''inputi'' \<and> fcall_name \<noteq> ''inputs'' \<and> fcall_name \<noteq> ''print''
         \<and> CHR ''.'' \<notin> set fcall_name \<and> env s \<noteq> []
         \<and> get_in fcall_name (rev (last (env s))) = Some fv
         \<and> cells s ! fv = Value T_FUNCTION (PFunc f)
       \<longrightarrow> run_fcall (interpreter n) fcall_name args s
             = call_function_value (interpreter n) (PFunc f) args None s)"
    by (simp add: run_fcall_def)
  have c5: "(fcall_name \<noteq> ''inputi'' \<and> fcall_name \<noteq> ''inputs'' \<and> fcall_name \<noteq> ''print''
         \<and> CHR ''.'' \<in> set fcall_name \<and> find_method fcall_name s = Ok (recv, PFunc f) s
       \<longrightarrow> run_fcall (interpreter n) fcall_name args s
             = call_function_value (interpreter n) (PFunc f) args (Some recv) s)"
    by (simp add: run_fcall_def run_method_call_def)
  have c6: "(\<forall>e st sf. CHR ''.'' \<notin> set p \<and> get p st = Ok (Some a) st
            \<and> run_assign (interpreter n) p e st = Ok () sf
          \<longrightarrow> (\<exists>rv st'. m_eval_expr (interpreter n) e st = Ok rv st'
                 \<and> sf = st'\<lparr>cells := (cells st')[a := cells st' ! rv]\<rparr>))"
  proof (intro allI impI)
    fix e st sf
    assume h: "CHR ''.'' \<notin> set p \<and> get p st = Ok (Some a) st
            \<and> run_assign (interpreter n) p e st = Ok () sf"
    then obtain rv st' where ev: "m_eval_expr (interpreter n) e st = Ok rv st'"
      and ar: "assign_rvalue p rv st' = Ok () sf"
      unfolding run_assign_def by (auto elim!: bind_OkE simp: lift_Ok_iff)
    from keeps_frames_eval [OF kf ev] h have g: "get p st' = Ok (Some a) st'"
      by (auto simp: get_def split: if_splits)
    then have "exists p st' = Ok True st'" by (rule get_Some_exists)
    with ar g h have "sf = Value_set a rv st'"
      unfolding assign_rvalue_def Let_def
      by (auto simp: split_dot_no_dot elim!: bind_OkE simp: lift_Ok_iff)
    with ev show "\<exists>rv st'. m_eval_expr (interpreter n) e st = Ok rv st'
                 \<and> sf = st'\<lparr>cells := (cells st')[a := cells st' ! rv]\<rparr>"
      by (auto simp: Value_set_def)
  qed
  have c7: "outcome (run 10 (bump_program ''bumpv'') []) = Some (None, [''6''])"
    by (simp add: bump_program_def run_defs interpreter_steps del: interpreter.simps)
  show ?thesis
    by (intro conjI) (fact ai e1 g1 c2 c3 c4 c5 c6 c7)+
qed

theorem reference_parameter_aliases_variable_witness:
  "(\<exists>r s'. run_fcall (interpreter 5) ''bumpv'' [QUALIFIED_NAME_NODE ''ti''] call_state = Ok r s'
        \<and> cells s' ! 1 = Value T_INT (PInt 6) \<and> get_var_value ''ti'' s' = Ok 1 s')
   \<and> (\<exists>r s'. run_fcall (interpreter 5) ''ff'' [QUALIFIED_NAME_NODE ''ti''] call_state = Ok r s'
        \<and> cells s' ! 1 = Value T_INT (PInt 6) \<and> get_var_value ''ti'' s' = Ok 1 s')
   \<and> (\<exists>r s'. run_fcall (interpreter 5) ''ao.mf'' [QUALIFIED_NAME_NODE ''ti''] call_state = Ok r s'
        \<and> cells s' ! 1 = Value T_INT (PInt 6) \<and> get_var_value ''ti'' s' = Ok 1 s')
   \<and> (\<exists>s6 b. bind (enter_func call_state) (\<lambda>u s5. bind_formals [(''xi'', True)] [1] s5) = Ok () s6
        \<and> env s6 = env call_state @ [[b]] \<and> get ''xi'' s6 = Ok (Some 1) s6)
   \<and> (\<exists>sf rv st'.
          run_assign (interpreter 5) ''xi'' (BOP ''+'' (QUALIFIED_NAME_NODE ''xi'') (INT_NODE 1))
            (call_state\<lparr>env := env call_state @ [[[(''xi'', 1)]]]\<rparr>) = Ok () sf
        \<and> m_eval_expr (interpreter 5) (BOP ''+'' (QUALIFIED_NAME_NODE ''xi'') (INT_NODE 1))
            (call_state\<lparr>env := env call_state @ [[[(''xi'', 1)]]]\<rparr>) = Ok rv st'
        \<and> sf = st'\<lparr>cells := (cells st')[1 := cells st' ! rv]\<rparr>
        \<and> cells sf ! 1 = Value T_INT (PInt 6))
   \<and> outcome (run 10 lambda_bump_program []) = Some (None, [''6''])
   \<and> outcome (run 10 method_bump_program []) = Some (None, [''6''])"
proof -
  let ?args = "[QUALIFIED_NAME_NODE ''ti'']"
  have arg: "0 < length ?args" "?args ! 0 = QUALIFIED_NAME_NODE ''ti''" by simp_all
  have plain: "CHR ''.'' \<notin> set ''ti''"
    "filter (\<lambda>k. fst k = ''ti'') (map fst (funcs call_state)) = []"
    by (simp_all add: call_state_def)
  have var: "get ''ti'' call_state = Ok (Some 1) call_state"
    by (simp add: call_state_def get_def dict_in_def)
  have ea: "eval_args (interpreter 5) ?args call_state = Ok [1] call_state"
    by (simp add: call_state_def run_defs interpreter_steps del: interpreter.simps)
  have sg: "get_arguments_type_signature (map (\<lambda>a. cells call_state ! a) [1]) = Inr ''i''"
    by (simp add: call_state_def)
  have fa0: "formal_args (fobjs call_state ! 0) = [(''xi'', True)]"
    and fa2: "formal_args (fobjs call_state ! 2) = [(''xi'', True)]"
    and cv2: "captured_vars (fobjs call_state ! 2) = Some [(''ff'', 3)]"
    by (simp_all add: call_state_def Function_init_def)
  have par0: "0 < length (formal_args (fobjs call_state ! 0))"
    "formal_args (fobjs call_state ! 0) ! 0 = (''xi'', True)"
    "distinct (map fst (formal_args (fobjs call_state ! 0)))"
    by (simp_all add: fa0)
  have par2: "0 < length (formal_args (fobjs call_state ! 2))"
    "formal_args (fobjs call_state ! 2) ! 0 = (''xi'', True)"
    "distinct (map fst (formal_args (fobjs call_state ! 2)))"
    by (simp_all add: fa2)
  note T0 = reference_parameter_aliases_variable
    [where fcall_name = "''bumpv''", OF arg plain var ea sg refl par0]
  note T2 = reference_parameter_aliases_variable
    [where fcall_name = "''ff''" and fv = 2 and selfo = None, OF arg plain var ea sg refl par2]
  note T3 = reference_parameter_aliases_variable
    [where fcall_name = "''ao.mf''" and recv = 4 and selfo = "Some 4",
     OF arg plain var ea sg refl par2]
  have ordh: "''bumpv'' \<noteq> ''inputi'' \<and> ''bumpv'' \<noteq> ''inputs'' \<and> ''bumpv'' \<noteq> ''print''
         \<and> CHR ''.'' \<notin> set ''bumpv''
         \<and> (\<forall>v. env call_state \<noteq> [] \<and> get_in ''bumpv'' (rev (last (env call_state))) = Some v
                \<longrightarrow> t_of (cells call_state ! v) \<noteq> T_FUNCTION)
         \<and> map_of (funcs call_state) (''bumpv'', ''i'') = Some 0
         \<and> check_interface_args (formal_args (fobjs call_state ! 0)) [1] call_state = Inr ()"
    unfolding fa0
    by (simp add: call_state_def get_interface_name_def isupper_def dict_in_def)
  from T0 [THEN conjunct2, THEN conjunct1, THEN mp, OF ordh]
  obtain s6 b where
    fr: "bind (enter_func call_state)
           (\<lambda>u s5. bind_formals (formal_args (fobjs call_state ! 0)) [1] s5) = Ok () s6"
      "env s6 = env call_state @ [[b]]" "get ''xi'' s6 = Ok (Some 1) s6"
    and ret: "\<forall>r s'. run_fcall (interpreter 5) ''bumpv'' ?args call_state = Ok r s' \<longrightarrow>
                (\<exists>r7 s7. m_run_statements (interpreter 5) (fobjs call_state ! 0)
                             (statements (fobjs call_state ! 0)) s6 = Ok r7 s7
                    \<and> s' = s7\<lparr>env := env call_state\<rparr>)
                \<and> get_var_value ''ti'' s' = Ok 1 s'"
    by blast
  have "\<exists>r s'. run_fcall (interpreter 5) ''bumpv'' ?args call_state = Ok r s'
          \<and> cells s' ! 1 = Value T_INT (PInt 6)"
    by (simp add: call_state_def run_defs bump_body_def interpreter_steps del: interpreter.simps)
  with ret have w1: "\<exists>r s'. run_fcall (interpreter 5) ''bumpv'' ?args call_state = Ok r s'
        \<and> cells s' ! 1 = Value T_INT (PInt 6) \<and> get_var_value ''ti'' s' = Ok 1 s'"
    by blast
  from fr have w4: "\<exists>s6 b. bind (enter_func call_state)
          (\<lambda>u s5. bind_formals [(''xi'', True)] [1] s5) = Ok () s6
        \<and> env s6 = env call_state @ [[b]] \<and> get ''xi'' s6 = Ok (Some 1) s6"
    unfolding fa0 by blast
  have fvh: "length [1::nat] = length (formal_args (fobjs call_state ! 2))
         \<and> check_actuals (formal_args (fobjs call_state ! 2)) [1] call_state = Inr ()
         \<and> (selfo \<noteq> None \<longrightarrow> ''xi'' \<noteq> ''selfo'')
         \<and> (\<forall>cv. captured_vars (fobjs call_state ! 2) = Some cv \<longrightarrow> ''xi'' \<notin> fst ` set cv)"
    for selfo :: "addr option"
    unfolding fa2 cv2
    by (simp add: call_state_def get_interface_name_def get_type_def isupper_def)
  have lnk: "''ff'' \<noteq> ''inputi'' \<and> ''ff'' \<noteq> ''inputs'' \<and> ''ff'' \<noteq> ''print''
         \<and> CHR ''.'' \<notin> set ''ff'' \<and> env call_state \<noteq> []
         \<and> get_in ''ff'' (rev (last (env call_state))) = Some 2
         \<and> cells call_state ! 2 = Value T_FUNCTION (PFunc 2)"
    by (simp add: call_state_def dict_in_def)
  have mth: "''ao.mf'' \<noteq> ''inputi'' \<and> ''ao.mf'' \<noteq> ''inputs'' \<and> ''ao.mf'' \<noteq> ''print''
         \<and> CHR ''.'' \<in> set ''ao.mf''
         \<and> find_method ''ao.mf'' call_state = Ok (4, PFunc 2) call_state"
    by (simp add: call_state_def run_defs)
  note eq2 = T2 [THEN conjunct2, THEN conjunct2, THEN conjunct2, THEN conjunct1, THEN mp, OF lnk]
  note eq3 = T3 [THEN conjunct2, THEN conjunct2, THEN conjunct2, THEN conjunct2, THEN conjunct1, THEN mp, OF mth]
  from T2 [THEN conjunct2, THEN conjunct2, THEN conjunct1, THEN mp, OF fvh]
  have ret2: "\<forall>r s'. call_function_value (interpreter 5) (PFunc 2) ?args None call_state = Ok r s'
      \<longrightarrow> get_var_value ''ti'' s' = Ok 1 s'"
    by blast
  from T3 [THEN conjunct2, THEN conjunct2, THEN conjunct1, THEN mp, OF fvh]
  have ret3: "\<forall>r s'. call_function_value (interpreter 5) (PFunc 2) ?args (Some 4) call_state = Ok r s'
      \<longrightarrow> get_var_value ''ti'' s' = Ok 1 s'"
    by blast
  have "\<exists>r s'. run_fcall (interpreter 5) ''ff'' ?args call_state = Ok r s'
          \<and> cells s' ! 1 = Value T_INT (PInt 6)"
    by (simp add: call_state_def run_defs bump_body_def interpreter_steps del: interpreter.simps)
  with ret2 have w2: "\<exists>r s'. run_fcall (interpreter 5) ''ff'' ?args call_state = Ok r s'
        \<and> cells s' ! 1 = Value T_INT (PInt 6) \<and> get_var_value ''ti'' s' = Ok 1 s'"
    unfolding eq2 by blast
  have "\<exists>r s'. run_fcall (interpreter 5) ''ao.mf'' ?args call_state = Ok r s'
          \<and> cells s' ! 1 = Value T_INT (PInt 6)"
    by (simp add: call_state_def run_defs bump_body_def interpreter_steps del: interpreter.simps)
  with ret3 have w3: "\<exists>r s'. run_fcall (interpreter 5) ''ao.mf'' ?args call_state = Ok r s'
        \<and> cells s' ! 1 = Value T_INT (PInt 6) \<and> get_var_value ''ti'' s' = Ok 1 s'"
    unfolding eq3 by blast
  have w5: "outcome (run 10 lambda_bump_program []) = Some (None, [''6''])"
    by (simp add: lambda_bump_program_def run_defs bump_body_def interpreter_steps
          del: interpreter.simps)
  have w6: "outcome (run 10 method_bump_program []) = Some (None, [''6''])"
    by (simp add: method_bump_program_def run_defs bump_body_def interpreter_steps
          del: interpreter.simps)
  let ?st = "call_state\<lparr>env := env call_state @ [[[(''xi'', 1)]]]\<rparr>"
  let ?e = "BOP ''+'' (QUALIFIED_NAME_NODE ''xi'') (INT_NODE 1)"
  note asg = T0 [THEN conjunct2, THEN conjunct2, THEN conjunct2, THEN conjunct2,
      THEN conjunct2, THEN conjunct1, rule_format]
  have "\<exists>sf. run_assign (interpreter 5) ''xi'' ?e ?st = Ok () sf
          \<and> cells sf ! 1 = Value T_INT (PInt 6)"
    by (simp add: call_state_def run_defs interpreter_steps del: interpreter.simps)
  then obtain sf where ra: "run_assign (interpreter 5) ''xi'' ?e ?st = Ok () sf"
    and six: "cells sf ! 1 = Value T_INT (PInt 6)"
    by blast
  have "CHR ''.'' \<notin> set ''xi'' \<and> get ''xi'' ?st = Ok (Some 1) ?st
          \<and> run_assign (interpreter 5) ''xi'' ?e ?st = Ok () sf"
    using ra by (simp add: get_def dict_in_def)
  from asg [OF this] ra six
  have w7: "\<exists>sf rv st'. run_assign (interpreter 5) ''xi'' ?e ?st = Ok () sf
        \<and> m_eval_expr (interpreter 5) ?e ?st = Ok rv st'
        \<and> sf = st'\<lparr>cells := (cells st')[1 := cells st' ! rv]\<rparr>
        \<and> cells sf ! 1 = Value T_INT (PInt 6)"
    by blast
  show ?thesis
    by (intro conjI) (fact w1 w2 w3 w4 w5 w6 w7)+
qed

text \<open>
  C1, as stated, fails on its own example: the name \<^verbatim>\<open>bump\<close> ends in no type letter,
  so the function table is refused with TypeError before \<^verbatim>\<open>main\<close> runs. It fails for a
  variable that a declared function is named after: with a function \<^verbatim>\<open>hf\<close> declared,
  the argument of \<^verbatim>\<open>setv(hf)\<close> is a new wrapper around that function, the assignment in
  \<^verbatim>\<open>setv\<close> goes there, and \<^verbatim>\<open>hf()\<close> still runs the lambda the variable held: the
  program prints 1, and prints 2 when the function is named \<^verbatim>\<open>gf\<close> instead. It fails in
  a call through a function value when the parameter bears the name of a captured
  variable, and in a method call when the parameter is named \<^verbatim>\<open>selfo\<close>: the content of
  the argument is copied into the wrapper already defined under that name, and the body
  assigns to that one. The caller's \<^verbatim>\<open>xi\<close> is still 5, and the caller's \<^verbatim>\<open>bo\<close> is not nil.
  Last, a parameter declared by reference is passed by value when a later parameter of
  the same name is not: the descriptor keeps one flag for the name, and the caller's
  \<^verbatim>\<open>ti\<close> is still 0.
\<close>

theorem by_reference_binding_can_miss:
  "outcome (run 10 (bump_program ''bump'') []) = Some (Some (Error TYPE_ERROR), [])
   \<and> outcome (run 10 (shadowed_variable_program ''hf'') []) = Some (None, [''1''])
   \<and> outcome (run 10 (shadowed_variable_program ''gf'') []) = Some (None, [''2''])
   \<and> outcome (run 10 captured_name_program []) = Some (None, [''5''])
   \<and> outcome (run 10 selfo_parameter_program []) = Some (None, [''false''])
   \<and> outcome (run 10 duplicate_parameter_program []) = Some (None, [''0''])"
  by (simp add: bump_program_def shadowed_variable_program_def captured_name_program_def
        selfo_parameter_program_def duplicate_parameter_program_def run_defs bump_body_def
        interpreter_steps del: interpreter.simps)






text \<open>
  C5. Creating a lambda in a frame whose blocks are dicts and whose bindings are live
  wrappers succeeds, and its snapshot has an entry for exactly the names visible in the
  frame. Each entry is a new wrapper, different from the variable's, that holds the tag
  and payload the variable has at that moment: an assignment to the outer variable
  afterwards leaves the captured wrapper as it was, while for an Object the captured
  wrapper holds the same dict as the variable, so a field set through one is read
  through the other.
\<close>

theorem lambda_capture_snapshot:
  assumes ne: "env s \<noteq> []"
    and dk: "\<forall>b \<in> set (last (env s)). distinct (map fst b)"
    and valid: "\<forall>x a. get_in x (rev (last (env s))) = Some a \<longrightarrow> a < length (cells s)"
  shows "\<exists>r s' cv. create_lambda lname lambda_params stmts s = Ok r s'
      \<and> length (cells s) \<le> r \<and> r < length (cells s')
      \<and> cells s' ! r = Value T_FUNCTION (PFunc (length (fobjs s)))
      \<and> fobjs s' ! length (fobjs s)
          = (Function_init lname lambda_params stmts)\<lparr>captured_vars := Some cv\<rparr>
      \<and> dicts s' = dicts s \<and> env s' = env s
      \<and> (\<forall>i < length (cells s). cells s' ! i = cells s ! i)
      \<and> (\<forall>x. get_in x (rev (last (env s))) = None \<longrightarrow> map_of cv x = None)
      \<and> (\<forall>x a. get_in x (rev (last (env s))) = Some a \<longrightarrow>
           (\<exists>c. map_of cv x = Some c \<and> c \<noteq> a \<and> length (cells s) \<le> c
              \<and> cells s' ! c = cells s ! a
              \<and> (\<forall>other. cells (Value_set a other s') ! c = cells s ! a)
              \<and> (\<forall>d key w. v_of (cells s ! a) = PDict d \<and> d < length (dicts s) \<longrightarrow>
                   (\<exists>s''. py_setitem (v_of (cells s' ! c)) key w s' = Ok () s''
                      \<and> py_getitem (v_of (cells s'' ! a)) key s'' = Inr w)
                 \<and> (\<exists>s''. py_setitem (v_of (cells s' ! a)) key w s' = Ok () s''
                      \<and> py_getitem (v_of (cells s'' ! c)) key s'' = Inr w))))"
proof -
  define inscope where
    "inscope = foldl (\<lambda>captured b. foldl (\<lambda>c item. dict_set (fst item) (snd item) c) captured b)
                 [] (last (env s))"
  have cvs: "capture_vars s = Ok inscope s"
    using ne by (simp add: capture_vars_def inscope_def)
  have dist: "distinct (map fst inscope)"
    unfolding inscope_def by (rule distinct_fold_blocks) simp
  have vis: "map_of inscope x = get_in x (rev (last (env s)))" for x
    unfolding inscope_def using fold_blocks_map_of [OF dk, of "[]" x]
    by (simp split: option.splits)
  have addr: "\<forall>it \<in> set inscope. snd it < length (cells s)"
  proof
    fix it assume "it \<in> set inscope"
    then have "(fst it, snd it) \<in> set inscope" by simp
    with dist have "map_of inscope (fst it) = Some (snd it)" by (rule map_of_is_SomeI)
    with vis valid show "snd it < length (cells s)" by simp
  qed
  from capture_loop_result [OF dist addr, of "[]"] obtain cv s1 where
    cl: "capture_loop inscope [] s = Ok cv s1"
    and c1: "cells s1 = cells s @ map (\<lambda>it. cells s ! snd it) inscope"
    and o1: "dicts s1 = dicts s" "env s1 = env s" "fobjs s1 = fobjs s"
    and ix: "\<forall>i < length inscope. map_of cv (fst (inscope ! i)) = Some (length (cells s) + i)"
    and rest: "\<forall>x. x \<notin> set (map fst inscope) \<longrightarrow> map_of cv x = map_of [] x"
    by blast
  define L where "L = (Function_init lname lambda_params stmts)\<lparr>captured_vars := Some cv\<rparr>"
  define s' where "s' = s1\<lparr>fobjs := fobjs s1 @ [L],
      cells := cells s1 @ [Value T_FUNCTION (PFunc (length (fobjs s1)))]\<rparr>"
  have cr: "create_lambda lname lambda_params stmts s = Ok (length (cells s1)) s'"
    unfolding create_lambda_def Let_def
    using cvs cl
    by (simp add: new_Value_def init_Value_def alloc_def s'_def L_def)
  have f1: "cells s' ! length (cells s1) = Value T_FUNCTION (PFunc (length (fobjs s)))"
    by (simp add: s'_def o1)
  have f0: "length (cells s) \<le> length (cells s1)" "length (cells s1) < length (cells s')"
    by (simp_all add: s'_def c1)
  have f2: "fobjs s' ! length (fobjs s) = L" by (simp add: s'_def o1)
  have f3: "dicts s' = dicts s" "env s' = env s" by (simp_all add: s'_def o1)
  have cs': "cells s' = cells s @ map (\<lambda>it. cells s ! snd it) inscope
                @ [Value T_FUNCTION (PFunc (length (fobjs s1)))]"
    by (simp add: s'_def c1)
  have f4: "\<forall>i < length (cells s). cells s' ! i = cells s ! i"
    by (simp add: cs' nth_append)
  have f5: "\<forall>x. get_in x (rev (last (env s))) = None \<longrightarrow> map_of cv x = None"
  proof (intro allI impI)
    fix x assume "get_in x (rev (last (env s))) = None"
    then have "map_of inscope x = None" by (simp add: vis)
    then have "x \<notin> set (map fst inscope)" by (simp add: map_of_eq_None_iff)
    with rest show "map_of cv x = None" by simp
  qed
  have f6: "\<exists>c. map_of cv x = Some c \<and> c \<noteq> a \<and> length (cells s) \<le> c
              \<and> cells s' ! c = cells s ! a
              \<and> (\<forall>other. cells (Value_set a other s') ! c = cells s ! a)
              \<and> (\<forall>d key w. v_of (cells s ! a) = PDict d \<and> d < length (dicts s) \<longrightarrow>
                   (\<exists>s''. py_setitem (v_of (cells s' ! c)) key w s' = Ok () s''
                      \<and> py_getitem (v_of (cells s'' ! a)) key s'' = Inr w)
                 \<and> (\<exists>s''. py_setitem (v_of (cells s' ! a)) key w s' = Ok () s''
                      \<and> py_getitem (v_of (cells s'' ! c)) key s'' = Inr w))"
    if g: "get_in x (rev (last (env s))) = Some a" for x a
  proof -
    from g have "map_of inscope x = Some a" by (simp add: vis)
    then have "(x, a) \<in> set inscope" by (rule map_of_SomeD)
    then obtain i where i: "i < length inscope" and it: "inscope ! i = (x, a)"
      by (auto simp: in_set_conv_nth)
    define c where "c = length (cells s) + i"
    from ix i it have m: "map_of cv x = Some c" by (auto simp: c_def)
    from g valid have al: "a < length (cells s)" by blast
    then have na: "c \<noteq> a" and le: "length (cells s) \<le> c" by (simp_all add: c_def)
    have cc: "cells s' ! c = cells s ! a"
      using i it by (simp add: cs' c_def nth_append)
    have ca: "cells s' ! a = cells s ! a" using al f4 by blast
    have vs: "\<forall>other. cells (Value_set a other s') ! c = cells s ! a"
      using na cc by (simp add: Value_set_def)
    have ob: "\<forall>d key w. v_of (cells s ! a) = PDict d \<and> d < length (dicts s) \<longrightarrow>
                   (\<exists>s''. py_setitem (v_of (cells s' ! c)) key w s' = Ok () s''
                      \<and> py_getitem (v_of (cells s'' ! a)) key s'' = Inr w)
                 \<and> (\<exists>s''. py_setitem (v_of (cells s' ! a)) key w s' = Ok () s''
                      \<and> py_getitem (v_of (cells s'' ! c)) key s'' = Inr w)"
    proof (intro allI impI)
      fix d key w assume h: "v_of (cells s ! a) = PDict d \<and> d < length (dicts s)"
      then have pc: "v_of (cells s' ! c) = PDict d" and pa: "v_of (cells s' ! a) = PDict d"
        and dl: "d < length (dicts s')"
        by (simp_all add: cc ca f3)
      from setitem_then_getitem [OF pc pa dl] setitem_then_getitem [OF pa pc dl]
      show "(\<exists>s''. py_setitem (v_of (cells s' ! c)) key w s' = Ok () s''
                      \<and> py_getitem (v_of (cells s'' ! a)) key s'' = Inr w)
                 \<and> (\<exists>s''. py_setitem (v_of (cells s' ! a)) key w s' = Ok () s''
                      \<and> py_getitem (v_of (cells s'' ! c)) key s'' = Inr w)"
        by blast
    qed
    from m na le cc vs ob show ?thesis by blast
  qed
  show ?thesis
    apply (rule exI [of _ "length (cells s1)"])
    apply (rule exI [of _ s'])
    apply (rule exI [of _ cv])
    using cr f0 f1 f2 f3 f4 f5 f6 unfolding L_def by blast
qed


theorem lambda_capture_snapshot_witness:
  "\<exists>r s' cv. create_lambda ''lambdav'' [] [] closure_state = Ok r s'
      \<and> captured_vars (fobjs s' ! 1) = Some cv
      \<and> (\<exists>c. map_of cv ''xi'' = Some c \<and> c \<noteq> 1
            \<and> cells s' ! c = Value T_INT (PInt 1)
            \<and> cells (Value_set 1 4 s') ! 1 = Value T_INT (PInt 2)
            \<and> cells (Value_set 1 4 s') ! c = Value T_INT (PInt 1))
      \<and> (\<exists>c s''. map_of cv ''ao'' = Some c \<and> c \<noteq> 2
            \<and> cells s' ! c = Value T_OBJECT (PDict 0)
            \<and> py_setitem (v_of (cells s' ! c)) ''ni'' 4 s' = Ok () s''
            \<and> py_getitem (v_of (cells s'' ! 2)) ''ni'' s'' = Inr 4)"
proof -
  have ne: "env closure_state \<noteq> []" by (simp add: closure_state_def)
  have dk: "\<forall>b \<in> set (last (env closure_state)). distinct (map fst b)"
    by (simp add: closure_state_def)
  have gx: "get_in ''xi'' (rev (last (env closure_state))) = Some 1"
    and ga: "get_in ''ao'' (rev (last (env closure_state))) = Some 2"
    by (simp_all add: closure_state_def dict_in_def)
  have valid: "\<forall>x a. get_in x (rev (last (env closure_state))) = Some a
                 \<longrightarrow> a < length (cells closure_state)"
    by (simp add: closure_state_def dict_in_def)
  have lens: "length (cells closure_state) = 5" "length (fobjs closure_state) = 1"
    "cells closure_state ! 1 = Value T_INT (PInt 1)"
    "cells closure_state ! 2 = Value T_OBJECT (PDict 0)"
    "cells closure_state ! 4 = Value T_INT (PInt 2)"
    "0 < length (dicts closure_state)"
    by (simp_all add: closure_state_def)
  from lambda_capture_snapshot [OF ne dk valid, of "''lambdav''" "[]" "[]"]
  obtain r s' cv where cr: "create_lambda ''lambdav'' [] [] closure_state = Ok r s'"
    and rl: "length (cells closure_state) \<le> r" "r < length (cells s')"
    and fo: "fobjs s' ! length (fobjs closure_state)
          = (Function_init ''lambdav'' [] [])\<lparr>captured_vars := Some cv\<rparr>"
    and old: "\<forall>i < length (cells closure_state). cells s' ! i = cells closure_state ! i"
    and cap: "\<forall>x a. get_in x (rev (last (env closure_state))) = Some a \<longrightarrow>
           (\<exists>c. map_of cv x = Some c \<and> c \<noteq> a \<and> length (cells closure_state) \<le> c
              \<and> cells s' ! c = cells closure_state ! a
              \<and> (\<forall>other. cells (Value_set a other s') ! c = cells closure_state ! a)
              \<and> (\<forall>d key w. v_of (cells closure_state ! a) = PDict d \<and> d < length (dicts closure_state) \<longrightarrow>
                   (\<exists>s''. py_setitem (v_of (cells s' ! c)) key w s' = Ok () s''
                      \<and> py_getitem (v_of (cells s'' ! a)) key s'' = Inr w)
                 \<and> (\<exists>s''. py_setitem (v_of (cells s' ! a)) key w s' = Ok () s''
                      \<and> py_getitem (v_of (cells s'' ! c)) key s'' = Inr w)))"
    by blast
  from fo have cvq: "captured_vars (fobjs s' ! 1) = Some cv" by (simp add: lens)
  from cap gx obtain c1 where x1: "map_of cv ''xi'' = Some c1" "c1 \<noteq> 1"
    "cells s' ! c1 = cells closure_state ! 1"
    "\<forall>other. cells (Value_set 1 other s') ! c1 = cells closure_state ! 1"
    "length (cells closure_state) \<le> c1"
    by blast
  have s4: "cells s' ! 4 = Value T_INT (PInt 2)" using old by (simp add: lens)
  have ls: "1 < length (cells s')" using rl by (simp add: lens)
  have set1: "cells (Value_set 1 4 s') ! 1 = Value T_INT (PInt 2)"
    using ls s4 by (simp add: Value_set_def)
  from cap ga obtain c2 where x2: "map_of cv ''ao'' = Some c2" "c2 \<noteq> 2"
    "cells s' ! c2 = cells closure_state ! 2"
    "\<forall>d key w. v_of (cells closure_state ! 2) = PDict d \<and> d < length (dicts closure_state) \<longrightarrow>
        (\<exists>s''. py_setitem (v_of (cells s' ! c2)) key w s' = Ok () s''
                      \<and> py_getitem (v_of (cells s'' ! 2)) key s'' = Inr w)
      \<and> (\<exists>s''. py_setitem (v_of (cells s' ! 2)) key w s' = Ok () s''
                      \<and> py_getitem (v_of (cells s'' ! c2)) key s'' = Inr w)"
    by blast
  have "v_of (cells closure_state ! 2) = PDict 0 \<and> 0 < length (dicts closure_state)"
    by (simp add: closure_state_def)
  with x2(4) obtain s'' where m: "py_setitem (v_of (cells s' ! c2)) ''ni'' 4 s' = Ok () s''"
    "py_getitem (v_of (cells s'' ! 2)) ''ni'' s'' = Inr 4"
    by blast
  have a1: "cells s' ! c1 = Value T_INT (PInt 1)"
    using x1(3) by (simp add: closure_state_def)
  have a2: "cells (Value_set 1 4 s') ! c1 = Value T_INT (PInt 1)"
    using x1(4) by (simp add: closure_state_def)
  have a3: "cells s' ! c2 = Value T_OBJECT (PDict 0)"
    using x2(3) by (simp add: closure_state_def)
  from cr cvq x1(1,2) a1 set1 a2 x2(1,2) a3 m show ?thesis by blast
qed

text \<open>
  The same on a program: the lambda prints the captured 1 for \<^verbatim>\<open>xi\<close> although the
  variable is 2 by then, and the 5 assigned to the object's field after the capture;
  the 9 it assigns to the field is printed by \<^verbatim>\<open>main\<close>.
\<close>

lemma closure_program_run:
  "outcome (run 10 closure_program []) = Some (None, [''1'', ''5'', ''2'', ''9''])"
  by (simp add: closure_program_def run_defs interpreter_steps del: interpreter.simps)

end
